(* ===== verification/Flow_Prelude.thy ===== *)
theory Flow_Prelude
  imports Complex_Main
begin

text \<open>
  Shared vocabulary of the development: the JavaScript values the source
  computes with and the way a call of the source ends.

  \<^item> \<open>jsnum\<close> is a JavaScript number that may be \<open>NaN\<close>. Finite numbers are
    modelled exactly as reals (no rounding, no overflow, so no infinities);
    \<open>NaN\<close> is kept because the source produces it (\<open>x % 0\<close>, \<open>0 / 0\<close>,
    \<open>undefined + 1\<close>) and then relies on every comparison with it being false.
  \<^item> \<open>js_rem\<close> is the \<open>%\<close> operator: truncating division, the result has the
    sign of the dividend, \<open>NaN\<close> for a zero divisor.
  \<^item> \<open>js_round\<close> is \<open>Math.round\<close>: halves round up, towards \<open>+\<infinity>\<close>.
  \<^item> \<open>'a js_result\<close> is the outcome of a call: \<open>None\<close> when it never returns (a
    loop that runs forever), \<open>Some (Inl e)\<close> when it throws \<open>e\<close>,
    \<open>Some (Inr v)\<close> when it returns \<open>v\<close>.
\<close>

named_theorems js_simps "evaluation rules of the JavaScript number model"

datatype jsnum = Num real | NaN

fun js_add :: "jsnum \<Rightarrow> jsnum \<Rightarrow> jsnum" where
  "js_add (Num a) (Num b) = Num (a + b)"
| "js_add _ _ = NaN"

fun js_sub :: "jsnum \<Rightarrow> jsnum \<Rightarrow> jsnum" where
  "js_sub (Num a) (Num b) = Num (a - b)"
| "js_sub _ _ = NaN"

fun js_neg :: "jsnum \<Rightarrow> jsnum" where
  "js_neg (Num a) = Num (- a)"
| "js_neg NaN = NaN"

text \<open>\<open>a < b\<close> and \<open>a <= b\<close>: false as soon as one side is \<open>NaN\<close>.\<close>

fun js_lt :: "jsnum \<Rightarrow> jsnum \<Rightarrow> bool" where
  "js_lt (Num a) (Num b) = (a < b)"
| "js_lt _ _ = False"

definition js_trunc :: "real \<Rightarrow> int" where
  "js_trunc r = (if 0 \<le> r then \<lfloor>r\<rfloor> else \<lceil>r\<rceil>)"

fun js_rem :: "jsnum \<Rightarrow> jsnum \<Rightarrow> jsnum" where
  "js_rem (Num a) (Num b) =
     (if b = 0 then NaN else Num (a - b * of_int (js_trunc (a / b))))"
| "js_rem _ _ = NaN"

definition js_round :: "real \<Rightarrow> real" where
  "js_round r = of_int \<lfloor>r + 1 / 2\<rfloor>"

text \<open>
  Reading an optional numeric field in arithmetic: \<open>undefined\<close> becomes
  \<open>NaN\<close> (\<open>js_num_of\<close>), \<open>null\<close> becomes \<open>0\<close> (\<open>js_num_of_null\<close>).
\<close>

definition js_num_of :: "real option \<Rightarrow> jsnum" where
  "js_num_of v = (case v of None \<Rightarrow> NaN | Some r \<Rightarrow> Num r)"

definition js_num_of_null :: "jsnum option \<Rightarrow> jsnum" where
  "js_num_of_null v = (case v of None \<Rightarrow> Num 0 | Some n \<Rightarrow> n)"

text \<open>
  A destructuring default \<open>{ a = d } = obj\<close>: the default replaces
  \<open>undefined\<close> only. A \<open>jsnum\<close> field read as a number: \<open>undefined\<close>
  is \<open>NaN\<close>.
\<close>

definition opt_default :: "'a \<Rightarrow> 'a option \<Rightarrow> 'a" where
  "opt_default d v = (case v of None \<Rightarrow> d | Some x \<Rightarrow> x)"

definition js_num_of_opt :: "jsnum option \<Rightarrow> jsnum" where
  "js_num_of_opt v = (case v of None \<Rightarrow> NaN | Some n \<Rightarrow> n)"

datatype js_error = TypeError | IndexSizeError

type_synonym 'a js_result = "(js_error + 'a) option"

definition js_bind :: "'a js_result \<Rightarrow> ('a \<Rightarrow> 'b js_result) \<Rightarrow> 'b js_result" where
  "js_bind r f = (case r of None \<Rightarrow> None | Some (Inl e) \<Rightarrow> Some (Inl e) | Some (Inr v) \<Rightarrow> f v)"

abbreviation js_return :: "'a \<Rightarrow> 'a js_result" where
  "js_return v \<equiv> Some (Inr v)"

abbreviation js_throw :: "js_error \<Rightarrow> 'a js_result" where
  "js_throw e \<equiv> Some (Inl e)"

text \<open>\<open>forEach\<close> / \<open>map\<close> with a body that may throw: the first throw ends it.\<close>

fun js_map :: "('a \<Rightarrow> 'b js_result) \<Rightarrow> 'a list \<Rightarrow> 'b list js_result" where
  "js_map f [] = js_return []"
| "js_map f (x # xs) = js_bind (f x) (\<lambda>y. js_bind (js_map f xs) (\<lambda>ys. js_return (y # ys)))"

declare js_num_of_def [js_simps] js_num_of_null_def [js_simps] js_round_def [js_simps]
  opt_default_def [js_simps] js_num_of_opt_def [js_simps]
  js_trunc_def [js_simps]

subsection \<open>Generic lemmas\<close>

lemma js_bind_return [simp]: "js_bind (js_return v) f = f v"
  by (simp add: js_bind_def)

lemma js_bind_throw [simp]: "js_bind (js_throw e) f = js_throw e"
  by (simp add: js_bind_def)

lemma js_bind_None [simp]: "js_bind None f = None"
  by (simp add: js_bind_def)

lemma js_bind_eq_return:
  "js_bind r f = js_return w \<longleftrightarrow> (\<exists>v. r = js_return v \<and> f v = js_return w)"
  by (auto simp: js_bind_def split: option.splits sum.splits)

lemma js_map_return:
  "js_map f xs = js_return ys \<longleftrightarrow> list_all2 (\<lambda>x y. f x = js_return y) xs ys"
proof (induction xs arbitrary: ys)
  case Nil
  then show ?case by (cases ys) auto
next
  case (Cons x xs)
  then show ?case
    by (cases ys) (auto simp: js_bind_eq_return)
qed

lemma js_bind_assoc [simp]: "js_bind (js_bind r f) g = js_bind r (\<lambda>x. js_bind (f x) g)"
  by (simp add: js_bind_def split: option.splits sum.splits)

lemma js_bind_return_right [simp]: "js_bind r js_return = r"
  by (simp add: js_bind_def split: option.splits sum.splits)

lemma js_bind_alt: "Option.bind r (case_sum js_throw f) = js_bind r f"
  by (simp add: js_bind_def split: option.splits sum.splits)

lemma js_map_returns:
  "(\<And>x. x \<in> set xs \<Longrightarrow> \<exists>y. f x = js_return y) \<Longrightarrow> \<exists>ys. js_map f xs = js_return ys"
  by (induction xs) (auto, metis js_bind_return)

lemma js_map_map: "js_map (\<lambda>x. js_return (g x)) xs = js_return (map g xs)"
  by (induction xs) simp_all

lemma js_lt_NaN [simp]: "\<not> js_lt NaN b" "\<not> js_lt a NaN"
  by (cases a; simp)+

lemma js_add_NaN [simp]: "js_add NaN b = NaN" "js_add a NaN = NaN"
  by (cases a; simp)+

lemma js_sub_NaN [simp]: "js_sub NaN b = NaN" "js_sub a NaN = NaN"
  by (cases a; simp)+

lemma js_rem_NaN [simp]: "js_rem NaN b = NaN" "js_rem a NaN = NaN"
  by (cases a; simp)+

lemma js_rem_zero [simp]: "js_rem a (Num 0) = NaN"
  by (cases a) simp_all

text \<open>
  On a non-negative dividend \<open>%\<close> is the floor remainder, on a negative one
  the ceiling remainder.
\<close>

lemma js_rem_nonneg:
  "0 \<le> a \<Longrightarrow> 0 < b \<Longrightarrow> js_rem (Num a) (Num b) = Num (a - b * of_int \<lfloor>a / b\<rfloor>)"
  by (simp add: js_trunc_def)

lemma js_rem_neg:
  "a < 0 \<Longrightarrow> 0 < b \<Longrightarrow> js_rem (Num a) (Num b) = Num (a - b * of_int \<lceil>a / b\<rceil>)"
  using divide_neg_pos [of a b] by (simp add: js_trunc_def)

lemma floor_rem_bounds:
  fixes a b :: real
  assumes "0 < b"
  shows "0 \<le> a - b * of_int \<lfloor>a / b\<rfloor> \<and> a - b * of_int \<lfloor>a / b\<rfloor> < b"
proof -
  have eq: "a - b * of_int \<lfloor>a / b\<rfloor> = b * (a / b - of_int \<lfloor>a / b\<rfloor>)"
    using assms by (simp add: algebra_simps)
  have "0 \<le> a / b - of_int \<lfloor>a / b\<rfloor>" and "a / b - of_int \<lfloor>a / b\<rfloor> < 1"
    by linarith+
  with assms show ?thesis
    unfolding eq by (simp add: mult_less_cancel_left1)
qed

lemma ceiling_rem_bounds:
  fixes a b :: real
  assumes "0 < b"
  shows "- b < a - b * of_int \<lceil>a / b\<rceil> \<and> a - b * of_int \<lceil>a / b\<rceil> \<le> 0"
proof -
  have eq: "a - b * of_int \<lceil>a / b\<rceil> = b * (a / b - of_int \<lceil>a / b\<rceil>)"
    using assms by (simp add: algebra_simps)
  have t0: "a / b - of_int \<lceil>a / b\<rceil> \<le> 0" and t1: "- 1 < a / b - of_int \<lceil>a / b\<rceil>"
    using ceiling_correct [of "a / b"] by linarith+
  from t1 assms have "b * (- 1) < b * (a / b - of_int \<lceil>a / b\<rceil>)"
    by (rule mult_strict_left_mono)
  moreover from assms t0 have "b * (a / b - of_int \<lceil>a / b\<rceil>) \<le> 0"
    by (simp add: mult_nonneg_nonpos)
  ultimately show ?thesis
    unfolding eq by simp
qed

lemma js_rem_nonneg_bounds:
  assumes "0 \<le> a" "0 < b"
  shows "\<exists>r. js_rem (Num a) (Num b) = Num r \<and> 0 \<le> r \<and> r < b"
  using js_rem_nonneg [OF assms] floor_rem_bounds [OF assms(2), of a] by blast

lemma js_rem_neg_bounds:
  assumes "a < 0" "0 < b"
  shows "\<exists>r. js_rem (Num a) (Num b) = Num r \<and> - b < r \<and> r \<le> 0"
  using js_rem_neg [OF assms] ceiling_rem_bounds [OF assms(2), of a] by blast

text \<open>On naturals, \<open>%\<close> is \<open>mod\<close>.\<close>

lemma js_rem_of_nat:
  "0 < n \<Longrightarrow> js_rem (Num (of_nat m)) (Num (of_nat n)) = Num (of_nat (m mod n))"
proof -
  assume n: "0 < n"
  then have "js_rem (Num (real m)) (Num (real n)) = Num (real m - real n * of_int \<lfloor>real m / real n\<rfloor>)"
    by (intro js_rem_nonneg) auto
  moreover have "\<lfloor>real m / real n\<rfloor> = int (m div n)"
    by (simp add: floor_divide_of_nat_eq)
  moreover have "real m - real n * real (m div n) = real (m mod n)"
  proof -
    have "real (m mod n) + real (m div n) * real n = real m"
      by (metis mod_div_mult_eq of_nat_add of_nat_mult)
    then show ?thesis by (simp add: algebra_simps)
  qed
  ultimately show ?thesis by simp
qed

lemma js_round_int [simp]: "js_round (of_int k) = of_int k"
  by (simp add: js_round_def)

lemma js_round_bounds: "r - 1 / 2 < js_round r \<and> js_round r \<le> r + 1 / 2"
  unfolding js_round_def
  using of_int_floor_le [of "r + 1 / 2"] real_of_int_floor_add_one_gt [of "r + 1 / 2"]
  by linarith

lemma js_map_result:
  assumes "\<forall>x \<in> set xs. f x = js_throw e \<or> (\<exists>y. f x = js_return y)"
  shows "js_map f xs = js_throw e \<or> (\<exists>ys. js_map f xs = js_return ys)"
  using assms by (induction xs) auto

lemma js_map_throw_iff:
  assumes "\<forall>x \<in> set xs. f x = js_throw e \<or> (\<exists>y. f x = js_return y)"
  shows "js_map f xs = js_throw e \<longleftrightarrow> (\<exists>x \<in> set xs. f x = js_throw e)"
  using assms
proof (induction xs)
  case (Cons x xs)
  then show ?case
  proof (cases "f x = js_throw e")
    case False
    with Cons.prems obtain y where "f x = js_return y" by auto
    moreover have "js_map f xs = js_throw e \<or> (\<exists>ys. js_map f xs = js_return ys)"
      using Cons.prems by (intro js_map_result) simp
    ultimately show ?thesis using Cons by auto
  qed simp
qed simp

end
