(* ===== verification/Geometry.thy ===== *)
theory Geometry
  imports Flow_Prelude
begin

text \<open>
  The two free functions of \<open>src/src/core/index.ts\<close> that the Screen
  Projector uses: \<open>getScreen\<close> (surface pixel of a logical point, rounded
  with \<open>Math.round\<close>) and \<open>getAngle\<close> (travel direction of a segment).
  \<open>getAngle\<close> divides before it takes the arctangent, so its behaviour on
  vertical and degenerate segments is the IEEE one, written out in
  \<open>js_atan_div\<close>: \<open>n / 0\<close> is \<open>\<plusminus>Infinity\<close> and \<open>Math.atan\<close> of it is
  \<open>\<plusminus>\<pi>/2\<close>; \<open>0 / 0\<close> is \<open>NaN\<close>.
\<close>

record coordinate =
  cx :: real
  cy :: real

definition get_screen :: "coordinate \<Rightarrow> coordinate \<Rightarrow> coordinate" where
  "get_screen origin_point reference_point =
     \<lparr>cx = js_round (cx origin_point - cx reference_point),
      cy = js_round (cy origin_point - cy reference_point)\<rparr>"

definition js_atan_div :: "real \<Rightarrow> real \<Rightarrow> jsnum" where
  "js_atan_div n d =
     (if d = 0 then (if n = 0 then NaN else Num (sgn n * (pi / 2)))
      else Num (arctan (n / d)))"

definition get_angle :: "coordinate \<Rightarrow> coordinate \<Rightarrow> string \<Rightarrow> jsnum" where
  "get_angle from_pixel to_pixel origin =
     (let flag = (if origin \<noteq> ''top'' then - 1 else 1 :: real);
          angle = js_atan_div ((cy to_pixel - cy from_pixel) * flag) (cx to_pixel - cx from_pixel)
      in if cx to_pixel - cx from_pixel < 0 then js_add angle (Num pi) else angle)"

text \<open>Euclidean distance, as \<open>combLine\<close> computes a segment's length.\<close>

definition seg_dist :: "coordinate \<Rightarrow> coordinate \<Rightarrow> real" where
  "seg_dist p q = sqrt (\<bar>cx p - cx q\<bar> ^ 2 + \<bar>cy p - cy q\<bar> ^ 2)"

subsection \<open>Lemmas\<close>

lemma seg_dist_nonneg: "0 \<le> seg_dist p q"
  by (simp add: seg_dist_def)

lemma seg_dist_sym: "seg_dist p q = seg_dist q p"
  by (simp add: seg_dist_def abs_minus_commute)

lemma coordinate_neq: "(p :: coordinate) \<noteq> q \<longleftrightarrow> cx q - cx p \<noteq> 0 \<or> cy q - cy p \<noteq> 0"
  by (cases p, cases q) auto

text \<open>
  The polar decomposition behind \<open>getAngle\<close>: for a non-zero horizontal
  delta the arctangent of the slope recovers \<open>|dx|\<close> and \<open>|dx| \<cdot> slope\<close>
  from the length.
\<close>

lemma polar_arctan:
  fixes dx dy :: real
  assumes "dx \<noteq> 0"
  shows "sqrt (dx\<^sup>2 + dy\<^sup>2) * cos (arctan (dy / dx)) = \<bar>dx\<bar>"
    and "sqrt (dx\<^sup>2 + dy\<^sup>2) * sin (arctan (dy / dx)) = \<bar>dx\<bar> * (dy / dx)"
proof -
  have split: "sqrt (dx\<^sup>2 + dy\<^sup>2) = \<bar>dx\<bar> * sqrt (1 + (dy / dx)\<^sup>2)"
  proof -
    have "dx\<^sup>2 + dy\<^sup>2 = dx\<^sup>2 * (1 + (dy / dx)\<^sup>2)"
      using assms by (simp add: field_simps power2_eq_square)
    then show ?thesis by (simp add: real_sqrt_mult)
  qed
  have pos: "0 < sqrt (1 + (dy / dx)\<^sup>2)"
    by (simp add: add_pos_nonneg)
  show "sqrt (dx\<^sup>2 + dy\<^sup>2) * cos (arctan (dy / dx)) = \<bar>dx\<bar>"
    using pos by (simp add: split cos_arctan)
  show "sqrt (dx\<^sup>2 + dy\<^sup>2) * sin (arctan (dy / dx)) = \<bar>dx\<bar> * (dy / dx)"
    using pos by (simp add: split sin_arctan)
qed

lemma seg_dist_delta: "seg_dist p q = sqrt ((cx q - cx p)\<^sup>2 + (cy q - cy p)\<^sup>2)"
  by (simp add: seg_dist_def power2_commute)


text \<open>
  The quadrant correction of \<open>getAngle\<close>: the arctangent of the slope,
  plus \<open>\<pi>\<close> when the horizontal delta is negative, is an angle whose
  cosine and sine (scaled by the length) give back the two deltas, and it lies
  in \<open>[-\<pi>/2, 3\<pi>/2)\<close>.
\<close>

lemma quadrant_polar:
  fixes dx n :: real
  assumes "dx \<noteq> 0 \<or> n \<noteq> 0"
  shows "\<exists>a. (if dx < 0 then js_add (js_atan_div n dx) (Num pi) else js_atan_div n dx) = Num a
           \<and> dx = sqrt (dx\<^sup>2 + n\<^sup>2) * cos a \<and> n = sqrt (dx\<^sup>2 + n\<^sup>2) * sin a
           \<and> - (pi / 2) \<le> a \<and> a < 3 * (pi / 2)"
proof (cases "dx = 0")
  case True
  with assms have n: "n \<noteq> 0" by simp
  let ?a = "sgn n * (pi / 2)"
  have "cos ?a = 0" and "sqrt (n\<^sup>2) * sin ?a = n"
    using n by (cases "0 < n"; simp add: sgn_if)+
  moreover have "- (pi / 2) \<le> ?a \<and> ?a < 3 * (pi / 2)"
    using n pi_gt_zero by (cases "0 < n") (auto simp: sgn_if)
  ultimately show ?thesis
    using True n by (intro exI [of _ ?a]) (simp add: js_atan_div_def)
next
  case False
  note polar = polar_arctan [OF False, of n]
  have bnd: "- (pi / 2) < arctan (n / dx) \<and> arctan (n / dx) < pi / 2"
    by (rule arctan_bounded)
  show ?thesis
  proof (cases "dx < 0")
    case True
    have "dx = sqrt (dx\<^sup>2 + n\<^sup>2) * cos (arctan (n / dx) + pi)"
      using polar(1) True by simp
    moreover have "n = sqrt (dx\<^sup>2 + n\<^sup>2) * sin (arctan (n / dx) + pi)"
      using polar(2) True False by simp
    ultimately show ?thesis
      using True False bnd by (auto simp: js_atan_div_def)
  next
    case nonneg: False
    with False have pos: "0 < dx" by simp
    have "dx = sqrt (dx\<^sup>2 + n\<^sup>2) * cos (arctan (n / dx))"
      using polar(1) pos by simp
    moreover have "n = sqrt (dx\<^sup>2 + n\<^sup>2) * sin (arctan (n / dx))"
      using polar(2) pos by simp
    ultimately show ?thesis
      using nonneg False bnd pi_gt_zero by (auto simp: js_atan_div_def)
  qed
qed

lemma get_angle_unfold:
  "get_angle p q origin =
     (let dx = cx q - cx p; n = (cy q - cy p) * (if origin \<noteq> ''top'' then - 1 else 1)
      in if dx < 0 then js_add (js_atan_div n dx) (Num pi) else js_atan_div n dx)"
  by (simp add: get_angle_def Let_def)

lemma get_angle_coincident: "get_angle p p origin = NaN"
  by (simp add: get_angle_def js_atan_div_def Let_def)

subsection \<open>Properties of getAngle and getScreen\<close>

text \<open>
  C18: for two distinct points, \<open>getAngle\<close> returns a number (not \<open>NaN\<close>),
  and rotating the drawing frame by it makes the positive x axis point from
  the first point to the second: the deltas are the segment length times its
  cosine and sine (with the vertical delta negated for origin \<open>bottom\<close>).
\<close>

theorem get_angle_direction:
  assumes "p \<noteq> q"
  shows "\<exists>a. get_angle p q origin = Num a
           \<and> cx q - cx p = seg_dist p q * cos a
           \<and> (cy q - cy p) * (if origin \<noteq> ''top'' then - 1 else 1) = seg_dist p q * sin a"
proof -
  let ?dx = "cx q - cx p" and ?n = "(cy q - cy p) * (if origin \<noteq> ''top'' then - 1 else 1 :: real)"
  have ne: "?dx \<noteq> 0 \<or> ?n \<noteq> 0"
    using assms coordinate_neq [of p q] by auto
  have d: "sqrt (?dx\<^sup>2 + ?n\<^sup>2) = seg_dist p q"
    by (simp add: seg_dist_delta power_mult_distrib)
  show ?thesis
    using quadrant_polar [OF ne] unfolding d get_angle_unfold Let_def by blast
qed

text \<open>
  C30: the number \<open>getAngle\<close> returns lies in \<open>(-\<pi>/2, \<pi>/2)\<close> for a segment
  going right, negative exactly when it also goes up the screen; in
  \<open>(\<pi>/2, 3\<pi>/2)\<close> for a segment going left; and is \<open>\<plusminus>\<pi>/2\<close> for a vertical
  one. So the results range over \<open>[-\<pi>/2, 3\<pi>/2)\<close>, not the \<open>0 - 2PI\<close> the
  comment promises.
\<close>

theorem get_angle_range:
  assumes "get_angle p q origin = Num a"
  shows "(0 < cx q - cx p \<longrightarrow> - (pi / 2) < a \<and> a < pi / 2
            \<and> (a < 0 \<longleftrightarrow> (cy q - cy p) * (if origin \<noteq> ''top'' then - 1 else 1) < 0))
       \<and> (cx q - cx p < 0 \<longrightarrow> pi / 2 < a \<and> a < 3 * (pi / 2))
       \<and> (cx q - cx p = 0 \<longrightarrow> a = pi / 2 \<or> a = - (pi / 2))"
proof -
  let ?dx = "cx q - cx p" and ?n = "(cy q - cy p) * (if origin \<noteq> ''top'' then - 1 else 1 :: real)"
  have a: "(if ?dx < 0 then js_add (js_atan_div ?n ?dx) (Num pi) else js_atan_div ?n ?dx) = Num a"
    using assms by (simp add: get_angle_unfold Let_def)
  have pos: "- (pi / 2) < a \<and> a < pi / 2 \<and> (a < 0 \<longleftrightarrow> ?n < 0)" if "0 < ?dx"
  proof -
    from a that have "a = arctan (?n / ?dx)" by (simp add: js_atan_div_def)
    moreover have "arctan (?n / ?dx) < 0 \<longleftrightarrow> ?n < 0"
      using that by (simp add: arctan_less_zero_iff divide_less_0_iff)
    ultimately show ?thesis using arctan_lbound arctan_ubound by auto
  qed
  have neg: "pi / 2 < a \<and> a < 3 * (pi / 2)" if "?dx < 0"
  proof -
    from a that have "a = arctan (?n / ?dx) + pi" by (simp add: js_atan_div_def)
    then show ?thesis using arctan_lbound [of "?n / ?dx"] arctan_ubound [of "?n / ?dx"] by auto
  qed
  have zero: "a = pi / 2 \<or> a = - (pi / 2)" if "?dx = 0"
    using a that by (auto simp: js_atan_div_def sgn_if split: if_splits)
  show ?thesis using pos neg zero by blast
qed

text \<open>The two orientation scenarios of the spec.\<close>

theorem get_angle_scenarios:
  "get_angle \<lparr>cx = 200, cy = 200\<rparr> \<lparr>cx = 400, cy = 200\<rparr> ''top'' = Num 0
   \<and> get_angle \<lparr>cx = 200, cy = 200\<rparr> \<lparr>cx = 200, cy = 400\<rparr> ''top'' = Num (pi / 2)"
  by (simp add: get_angle_def js_atan_div_def)

text \<open>
  C31: \<open>getScreen\<close> moves a point by less than half a pixel on each axis, onto the
  integer grid.
\<close>

theorem get_screen_rounding:
  "\<bar>cx (get_screen p r) - (cx p - cx r)\<bar> \<le> 1 / 2 \<and> \<bar>cy (get_screen p r) - (cy p - cy r)\<bar> \<le> 1 / 2
   \<and> cx (get_screen p r) \<in> \<int> \<and> cy (get_screen p r) \<in> \<int>"
proof -
  have "\<bar>js_round (cx p - cx r) - (cx p - cx r)\<bar> \<le> 1 / 2"
    and "\<bar>js_round (cy p - cy r) - (cy p - cy r)\<bar> \<le> 1 / 2"
    using js_round_bounds [of "cx p - cx r"] js_round_bounds [of "cy p - cy r"] by linarith+
  moreover have "js_round v \<in> \<int>" for v
    by (simp add: js_round_def)
  ultimately show ?thesis by (simp add: get_screen_def)
qed

end
