(* ===== verification/Segment_Graph.thy ===== *)
theory Segment_Graph
  imports Geometry
begin

text \<open>
  The Segment Graph Builder: \<open>CreateImgLineFlow.combLine\<close>
  (\<open>src/src/core/index.ts\<close>, lines 163--203), with the object types it reads
  and writes (\<open>SplitLine\<close>, \<open>LineObj\<close>, \<open>LineOption\<close>, \<open>FlowOption\<close>,
  lines 9--45). An optional field of a TypeScript interface is an \<open>option\<close>;
  a \<open>PathsItem\<close> \<open>[x, y]\<close> is a pair, and the \<open>paths\<close> of a segment an
  optional list of them. The code reads \<open>v.paths[0]\<close> and \<open>v.paths[1]\<close>
  (\<open>seg_path\<close>); a preset segment whose \<open>paths\<close> is missing or shorter
  than two makes that read throw a \<open>TypeError\<close> (line 182), which
  \<open>comb_line_js\<close> returns. The segment objects that \<open>startLines\<close> and
  \<open>endLines\<close> point to are named by their position \<open>(connection, segment)\<close>
  in \<open>lineData\<close>.

  \<open>combLine\<close> is three passes over \<open>lineData\<close>: \<open>comb_split\<close> cuts every
  path into segments, \<open>comb_measure\<close> measures them and clears their
  adjacency lists, \<open>comb_link\<close> visits every ordered pair of segments of two
  different connections and links them when the end of the first is the start
  of the second.
\<close>

type_synonym path_item = "real \<times> real"
type_synonym seg_id = "nat \<times> nat"

record split_line =
  sl_angle :: "jsnum option"
  sl_length :: "real option"
  sl_origin_length :: "real option"
  sl_paths :: "path_item list option"
  sl_end_lines :: "seg_id list"
  sl_start_lines :: "seg_id list"
  sl_from_pixel :: "coordinate option"
  sl_to_pixel :: "coordinate option"

record line_option =
  lo_line_width :: "real option"
  lo_arrow_size :: "real option"
  lo_arrow_round_size :: "real option"
  lo_color :: "string option"
  lo_line_cap :: "string option"
  lo_line_join :: "string option"
  lo_line_img_split :: "real option"

record flow_option =
  fo_is_draw_flow :: "bool option"
  fo_flow_width :: "real option"
  fo_color :: "real list option"
  fo_line_cap :: "string option"

record line_obj =
  points :: "coordinate list"
  arrow_direction :: string
  line_option :: "line_option option"
  lpaths :: "path_item list option"
  line_space :: "jsnum option"
  flow_option :: "flow_option option"
  origin_length :: "real option"
  split_lines :: "split_line list option"

text \<open>The segments of a connection (\<open>splitLines\<close>, empty while unset).\<close>

definition splits :: "line_obj \<Rightarrow> split_line list" where
  "splits l = (case split_lines l of None \<Rightarrow> [] | Some s \<Rightarrow> s)"

subsection \<open>Pass 1: cutting paths into segments\<close>

definition point_path :: "coordinate \<Rightarrow> path_item" where
  "point_path v = (cx v, cy v)"

definition new_split_line :: "path_item \<Rightarrow> path_item \<Rightarrow> split_line" where
  "new_split_line a b =
     \<lparr>sl_angle = None, sl_length = None, sl_origin_length = None, sl_paths = Some [a, b],
      sl_end_lines = [], sl_start_lines = [], sl_from_pixel = None, sl_to_pixel = None\<rparr>"

text \<open>\<open>[v.paths[0], v.paths[1]]\<close>, read only where \<open>paths_ok\<close> holds.\<close>

definition seg_path :: "split_line \<Rightarrow> path_item \<times> path_item" where
  "seg_path v = (the (sl_paths v) ! 0, the (sl_paths v) ! 1)"

definition paths_ok :: "split_line \<Rightarrow> bool" where
  "paths_ok v \<longleftrightarrow> (case sl_paths v of None \<Rightarrow> False | Some ps \<Rightarrow> 2 \<le> length ps)"

fun split_paths :: "path_item list \<Rightarrow> split_line list" where
  "split_paths (a # b # rest) = new_split_line a b # split_paths (b # rest)"
| "split_paths _ = []"

definition comb_split :: "line_obj \<Rightarrow> line_obj" where
  "comb_split l =
     (let ps = map point_path (points l)
      in l\<lparr>lpaths := Some ps, split_lines := Some (splits l @ split_paths ps)\<rparr>)"

subsection \<open>Pass 2: lengths\<close>

definition path_length :: "path_item \<times> path_item \<Rightarrow> real" where
  "path_length pp =
     (case pp of ((x0, y0), (x1, y1)) \<Rightarrow> sqrt (\<bar>x0 - x1\<bar> ^ 2 + \<bar>y0 - y1\<bar> ^ 2))"

definition measure_split :: "split_line \<Rightarrow> split_line" where
  "measure_split v =
     v\<lparr>sl_origin_length := Some (path_length (seg_path v)), sl_start_lines := [], sl_end_lines := []\<rparr>"

definition comb_measure :: "line_obj \<Rightarrow> line_obj" where
  "comb_measure l =
     l\<lparr>origin_length := Some (sum_list (map (\<lambda>v. path_length (seg_path v)) (splits l))),
       split_lines := Some (map measure_split (splits l))\<rparr>"

subsection \<open>Pass 3: linking segments of different connections\<close>

definition seg_at :: "line_obj list \<Rightarrow> seg_id \<Rightarrow> split_line" where
  "seg_at L a = splits (L ! fst a) ! snd a"

definition valid_seg :: "line_obj list \<Rightarrow> seg_id \<Rightarrow> bool" where
  "valid_seg L a \<longleftrightarrow> fst a < length L \<and> snd a < length (splits (L ! fst a))"

definition update_seg :: "seg_id \<Rightarrow> (split_line \<Rightarrow> split_line) \<Rightarrow> line_obj list \<Rightarrow> line_obj list" where
  "update_seg a f L =
     L[fst a := (L ! fst a)\<lparr>split_lines := Some ((splits (L ! fst a))[snd a := f (seg_at L a)])\<rparr>]"

definition seg_ids :: "line_obj list \<Rightarrow> seg_id list" where
  "seg_ids L = concat (map (\<lambda>i. map (\<lambda>j. (i, j)) [0..<length (splits (L ! i))]) [0..<length L])"

definition joins :: "split_line \<Rightarrow> split_line \<Rightarrow> bool" where
  "joins v v2 \<longleftrightarrow> snd (seg_path v) = fst (seg_path v2)"

definition link_pair :: "line_obj list \<Rightarrow> seg_id \<times> seg_id \<Rightarrow> line_obj list" where
  "link_pair L ab =
     (case ab of (a, b) \<Rightarrow>
        if joins (seg_at L a) (seg_at L b)
        then update_seg b (\<lambda>v2. v2\<lparr>sl_start_lines := sl_start_lines v2 @ [a]\<rparr>)
               (update_seg a (\<lambda>v. v\<lparr>sl_end_lines := sl_end_lines v @ [b]\<rparr>) L)
        else L)"

definition link_pairs :: "line_obj list \<Rightarrow> (seg_id \<times> seg_id) list" where
  "link_pairs L = [(a, b). a \<leftarrow> seg_ids L, b \<leftarrow> seg_ids L, fst a \<noteq> fst b]"

definition comb_link :: "line_obj list \<Rightarrow> line_obj list" where
  "comb_link L = foldl link_pair L (link_pairs L)"

definition comb_line :: "line_obj list \<Rightarrow> line_obj list" where
  "comb_line L = comb_link (map comb_measure (map comb_split L))"

text \<open>
  Pass 2 reads \<open>v.paths[0][0]\<close> and \<open>v.paths[1][0]\<close> of every segment, so
  it throws at the first preset segment without two path points; the segments
  pass 1 makes always have two.
\<close>

definition presets_ok :: "line_obj list \<Rightarrow> bool" where
  "presets_ok L \<longleftrightarrow> list_all (\<lambda>l. list_all paths_ok (splits l)) L"

definition comb_line_js :: "line_obj list \<Rightarrow> line_obj list js_result" where
  "comb_line_js L = (if presets_ok L then js_return (comb_line L) else js_throw TypeError)"

subsection \<open>Auxiliary notions for the proofs\<close>

text \<open>A segment with its adjacency lists cleared: what linking never changes.\<close>

definition seg_core :: "split_line \<Rightarrow> split_line" where
  "seg_core v = v\<lparr>sl_end_lines := [], sl_start_lines := []\<rparr>"

definition links_ok :: "line_obj list \<Rightarrow> (seg_id \<times> seg_id) list \<Rightarrow> bool" where
  "links_ok L ps \<longleftrightarrow> (\<forall>(a, b) \<in> set ps. valid_seg L a \<and> valid_seg L b \<and> a \<noteq> b)"

text \<open>The abstract length of a polyline: the sum of its edge lengths.\<close>

fun polyline_length :: "coordinate list \<Rightarrow> real" where
  "polyline_length (p # q # rest) = seg_dist p q + polyline_length (q # rest)"
| "polyline_length _ = 0"

lemmas comb_line_eval = comb_line_def comb_link_def link_pairs_def seg_ids_def comb_split_def
  comb_measure_def splits_def link_pair_def joins_def seg_at_def update_seg_def measure_split_def
  path_length_def point_path_def new_split_line_def seg_path_def

subsection \<open>Segment positions and nested updates\<close>

named_theorems seg_simps "how segment updates act on positions"

lemma set_seg_ids [seg_simps]: "c \<in> set (seg_ids L) \<longleftrightarrow> valid_seg L c"
  by (cases c) (force simp: seg_ids_def valid_seg_def)

lemma distinct_concat_Pair:
  "distinct xs \<Longrightarrow> (\<And>i. distinct (g i)) \<Longrightarrow> distinct (concat (map (\<lambda>i. map (Pair i) (g i)) xs))"
  by (induction xs) (auto simp: distinct_map inj_on_def)

lemma distinct_seg_ids: "distinct (seg_ids L)"
  unfolding seg_ids_def by (rule distinct_concat_Pair) simp_all

lemma length_update_seg [simp]: "length (update_seg a f L) = length L"
  by (simp add: update_seg_def)

lemma splits_update_seg:
  "valid_seg L a \<Longrightarrow> splits (update_seg a f L ! i) =
     (if i = fst a then (splits (L ! i))[snd a := f (seg_at L a)] else splits (L ! i))"
  by (auto simp: update_seg_def valid_seg_def splits_def)

lemma valid_seg_update_seg [seg_simps]:
  "valid_seg L a \<Longrightarrow> valid_seg (update_seg a f L) c \<longleftrightarrow> valid_seg L c"
  by (auto simp: valid_seg_def splits_update_seg)

lemma seg_at_update_seg [seg_simps]:
  "valid_seg L a \<Longrightarrow> valid_seg L c \<Longrightarrow>
     seg_at (update_seg a f L) c = (if c = a then f (seg_at L a) else seg_at L c)"
  by (cases a, cases c) (auto simp: seg_at_def valid_seg_def splits_update_seg)

lemma length_splits_update_seg [seg_simps]:
  "valid_seg L a \<Longrightarrow> length (splits (update_seg a f L ! i)) = length (splits (L ! i))"
  by (simp add: splits_update_seg)

lemma seg_ids_update_seg [seg_simps]: "valid_seg L a \<Longrightarrow> seg_ids (update_seg a f L) = seg_ids L"
  by (simp add: seg_ids_def length_splits_update_seg)

lemma fields_update_seg [seg_simps]:
  "(update_seg a f L ! i)\<lparr>split_lines := None\<rparr> = (L ! i)\<lparr>split_lines := None\<rparr>"
  by (cases "i = fst a"; cases "fst a < length L") (auto simp: update_seg_def list_update_beyond)

subsection \<open>The linking pass\<close>

lemma joins_seg_core: "joins (seg_core v) (seg_core w) = joins v w"
  by (simp add: joins_def seg_core_def seg_path_def)

lemma link_pair_valid [seg_simps]:
  "valid_seg L a \<Longrightarrow> valid_seg L b \<Longrightarrow> valid_seg (link_pair L (a, b)) c \<longleftrightarrow> valid_seg L c"
  by (simp add: link_pair_def seg_simps)

lemma link_pair_seg_ids [seg_simps]:
  "valid_seg L a \<Longrightarrow> valid_seg L b \<Longrightarrow> seg_ids (link_pair L (a, b)) = seg_ids L"
  by (simp add: link_pair_def seg_simps)

lemma link_pair_length [simp]: "length (link_pair L ab) = length L"
  by (simp add: link_pair_def split: prod.splits)

lemma link_pair_fields [seg_simps]:
  "(link_pair L ab ! i)\<lparr>split_lines := None\<rparr> = (L ! i)\<lparr>split_lines := None\<rparr>"
  by (simp add: link_pair_def fields_update_seg split: prod.splits)

lemma link_pair_core [seg_simps]:
  "valid_seg L a \<Longrightarrow> valid_seg L b \<Longrightarrow> valid_seg L c \<Longrightarrow>
     seg_core (seg_at (link_pair L (a, b)) c) = seg_core (seg_at L c)"
  by (simp add: link_pair_def seg_simps seg_core_def)

lemma link_pair_end_lines [seg_simps]:
  "valid_seg L a \<Longrightarrow> valid_seg L b \<Longrightarrow> valid_seg L c \<Longrightarrow> a \<noteq> b \<Longrightarrow>
     sl_end_lines (seg_at (link_pair L (a, b)) c) =
       sl_end_lines (seg_at L c) @ (if c = a \<and> joins (seg_at L a) (seg_at L b) then [b] else [])"
  by (simp add: link_pair_def seg_simps)

lemma link_pair_start_lines [seg_simps]:
  "valid_seg L a \<Longrightarrow> valid_seg L b \<Longrightarrow> valid_seg L c \<Longrightarrow> a \<noteq> b \<Longrightarrow>
     sl_start_lines (seg_at (link_pair L (a, b)) c) =
       sl_start_lines (seg_at L c) @ (if c = b \<and> joins (seg_at L a) (seg_at L b) then [a] else [])"
  by (simp add: link_pair_def seg_simps)

lemma links_ok_link_pair:
  "links_ok L ((a, b) # ps) \<Longrightarrow> links_ok (link_pair L (a, b)) ps"
  by (auto simp: links_ok_def seg_simps)

lemma joins_link_pair:
  "valid_seg L a \<Longrightarrow> valid_seg L b \<Longrightarrow> valid_seg L c \<Longrightarrow> valid_seg L d \<Longrightarrow>
     joins (seg_at (link_pair L (a, b)) c) (seg_at (link_pair L (a, b)) d) = joins (seg_at L c) (seg_at L d)"
  by (metis joins_seg_core link_pair_core)

lemma foldl_link_pair:
  assumes "links_ok L ps" and "valid_seg L c"
  shows "valid_seg (foldl link_pair L ps) c
    \<and> seg_core (seg_at (foldl link_pair L ps) c) = seg_core (seg_at L c)
    \<and> sl_end_lines (seg_at (foldl link_pair L ps) c) = sl_end_lines (seg_at L c)
         @ map snd (filter (\<lambda>(a, b). a = c \<and> joins (seg_at L a) (seg_at L b)) ps)
    \<and> sl_start_lines (seg_at (foldl link_pair L ps) c) = sl_start_lines (seg_at L c)
         @ map fst (filter (\<lambda>(a, b). b = c \<and> joins (seg_at L a) (seg_at L b)) ps)"
  using assms
proof (induction ps arbitrary: L)
  case Nil
  then show ?case by simp
next
  case (Cons p ps)
  obtain a b where p: "p = (a, b)" by (cases p)
  with Cons.prems have ab: "valid_seg L a" "valid_seg L b" "a \<noteq> b"
    by (auto simp: links_ok_def)
  let ?L' = "link_pair L (a, b)"
  have ok': "links_ok ?L' ps"
    using Cons.prems(1) p by (simp add: links_ok_link_pair)
  have c': "valid_seg ?L' c"
    using Cons.prems(2) ab by (simp add: seg_simps)
  have same: "filter (\<lambda>(a', b'). P a' b' \<and> joins (seg_at ?L' a') (seg_at ?L' b')) ps
      = filter (\<lambda>(a', b'). P a' b' \<and> joins (seg_at L a') (seg_at L b')) ps" for P
  proof (rule filter_cong)
    fix q assume "q \<in> set ps"
    with Cons.prems(1) p have "valid_seg L (fst q)" "valid_seg L (snd q)"
      by (auto simp: links_ok_def)
    with ab show "(case q of (a', b') \<Rightarrow> P a' b' \<and> joins (seg_at ?L' a') (seg_at ?L' b'))
        = (case q of (a', b') \<Rightarrow> P a' b' \<and> joins (seg_at L a') (seg_at L b'))"
      by (auto simp: joins_link_pair)
  qed simp
  from Cons.IH [OF ok' c'] Cons.prems(2) ab show ?case
    by (simp add: p same seg_simps)
qed

lemma foldl_link_pair_seg_ids:
  "links_ok L ps \<Longrightarrow> seg_ids (foldl link_pair L ps) = seg_ids L"
proof (induction ps arbitrary: L)
  case (Cons p ps)
  obtain a b where p: "p = (a, b)" by (cases p)
  with Cons.prems have "valid_seg L a" "valid_seg L b"
    by (auto simp: links_ok_def)
  with Cons.IH [OF links_ok_link_pair] Cons.prems p show ?case
    by (simp add: seg_simps)
qed simp

lemma snd_filter_pairs:
  "distinct xs \<Longrightarrow> map snd (filter (\<lambda>(a, b). a = c \<and> P a b) [(a, b). a \<leftarrow> xs, b \<leftarrow> ys, Q a b])
     = (if c \<in> set xs then [b \<leftarrow> ys. Q c b \<and> P c b] else [])"
proof (induction xs)
  case (Cons x xs)
  have inner: "map snd (filter (\<lambda>(a, b). a = c \<and> P a b) (concat (map (\<lambda>b. if Q x b then [(x, b)] else []) zs)))
      = (if x = c then [b \<leftarrow> zs. Q c b \<and> P c b] else [])" for zs
    by (induction zs) auto
  from Cons show ?case by (auto simp: inner)
qed simp

lemma fst_filter_pairs:
  "distinct ys \<Longrightarrow> map fst (filter (\<lambda>(a, b). b = c \<and> P a b) [(a, b). a \<leftarrow> xs, b \<leftarrow> ys, Q a b])
     = (if c \<in> set ys then [a \<leftarrow> xs. Q a c \<and> P a c] else [])"
proof (induction xs)
  case (Cons x xs)
  have inner: "distinct zs \<Longrightarrow> map fst (filter (\<lambda>(a, b). b = c \<and> P a b) (concat (map (\<lambda>b. if Q x b then [(x, b)] else []) zs)))
      = (if c \<in> set zs \<and> Q x c \<and> P x c then [x] else [])" for zs
    by (induction zs) auto
  from Cons show ?case by (auto simp: inner)
qed simp

lemma splits_comb_measure [simp]: "splits (comb_measure l) = map measure_split (splits l)"
  by (simp add: comb_measure_def splits_def)

lemma seg_at_comb_measure:
  "valid_seg (map comb_measure L) c \<Longrightarrow> seg_at (map comb_measure L) c = measure_split (seg_at L c)"
  by (auto simp: seg_at_def valid_seg_def)

lemma links_ok_link_pairs: "links_ok L (link_pairs L)"
  by (auto simp: links_ok_def link_pairs_def set_seg_ids)

lemma comb_line_unfold:
  "comb_line L = foldl link_pair (map comb_measure (map comb_split L)) (link_pairs (map comb_measure (map comb_split L)))"
  by (simp add: comb_line_def comb_link_def)


lemma foldl_link_pair_fields:
  "(foldl link_pair L ps ! i)\<lparr>split_lines := None\<rparr> = (L ! i)\<lparr>split_lines := None\<rparr>"
  by (induction ps arbitrary: L) (simp_all add: link_pair_fields)

lemma foldl_link_pair_length [simp]: "length (foldl link_pair L ps) = length L"
  by (induction ps arbitrary: L) simp_all

lemma length_split_paths [simp]: "length (split_paths ps) = length ps - 1"
  by (induction ps rule: split_paths.induct) simp_all

lemma splits_unset: "split_lines l = None \<Longrightarrow> splits l = []"
  by (simp add: splits_def)

lemma splits_comb_split [simp]:
  "splits (comb_split l) = splits l @ split_paths (map point_path (points l))"
  by (simp add: comb_split_def splits_def Let_def)

lemma comb_line_length [simp]: "length (comb_line L) = length L"
  by (simp add: comb_line_unfold)

lemma comb_line_valid:
  "valid_seg (comb_line L) c \<longleftrightarrow> valid_seg (map comb_measure (map comb_split L)) c"
proof -
  define M where "M = map comb_measure (map comb_split L)"
  have "seg_ids (comb_line L) = seg_ids M"
    using foldl_link_pair_seg_ids [OF links_ok_link_pairs, of M]
    by (simp only: comb_line_unfold M_def)
  then show ?thesis
    by (simp only: M_def flip: set_seg_ids)
qed

lemma seg_count_eq:
  assumes "seg_ids L = seg_ids L'" "length L = length L'" "i < length L"
  shows "length (splits (L ! i)) = length (splits (L' ! i))"
proof -
  have "j < length (splits (L ! i)) \<longleftrightarrow> j < length (splits (L' ! i))" for j
    using assms set_seg_ids [of "(i, j)" L] set_seg_ids [of "(i, j)" L'] by (simp add: valid_seg_def)
  then show ?thesis by (metis linorder_neqE_nat less_irrefl)
qed

lemma comb_line_splits_length:
  assumes "i < length L"
  shows "length (splits (comb_line L ! i)) = length (splits (L ! i)) + (length (points (L ! i)) - 1)"
proof -
  define M where "M = map comb_measure (map comb_split L)"
  have "seg_ids (comb_line L) = seg_ids M"
    using foldl_link_pair_seg_ids [OF links_ok_link_pairs, of M]
    by (simp only: comb_line_unfold M_def)
  then have "length (splits (comb_line L ! i)) = length (splits (M ! i))"
    using assms by (intro seg_count_eq) (simp_all add: M_def)
  with assms show ?thesis by (simp add: M_def)
qed

lemma comb_line_fields:
  "i < length L \<Longrightarrow> (comb_line L ! i)\<lparr>split_lines := None\<rparr> = (comb_measure (comb_split (L ! i)))\<lparr>split_lines := None\<rparr>"
  by (simp add: comb_line_unfold foldl_link_pair_fields)

lemma comb_line_seg_core:
  assumes "valid_seg (comb_line L) c"
  shows "seg_core (seg_at (comb_line L) c) = seg_core (measure_split (seg_at (map comb_split L) c))"
proof -
  define M where "M = map comb_measure (map comb_split L)"
  have cl: "comb_line L = foldl link_pair M (link_pairs M)"
    by (simp only: comb_line_unfold M_def)
  have c: "valid_seg M c" using assms comb_line_valid M_def by simp
  have "seg_at M c = measure_split (seg_at (map comb_split L) c)"
    using c unfolding M_def by (rule seg_at_comb_measure)
  with foldl_link_pair [OF links_ok_link_pairs c] show ?thesis
    by (simp add: cl)
qed

lemma comb_line_links:
  assumes "valid_seg (comb_line L) c"
  shows "sl_end_lines (seg_at (comb_line L) c) =
           [b \<leftarrow> seg_ids (comb_line L). fst c \<noteq> fst b \<and> joins (seg_at (comb_line L) c) (seg_at (comb_line L) b)]
       \<and> sl_start_lines (seg_at (comb_line L) c) =
           [a \<leftarrow> seg_ids (comb_line L). fst a \<noteq> fst c \<and> joins (seg_at (comb_line L) a) (seg_at (comb_line L) c)]"
proof -
  define M where "M = map comb_measure (map comb_split L)"
  have ok: "links_ok M (link_pairs M)" by (rule links_ok_link_pairs)
  have cl: "comb_line L = foldl link_pair M (link_pairs M)"
    by (simp only: comb_line_unfold M_def)
  have ids: "seg_ids (comb_line L) = seg_ids M"
    using foldl_link_pair_seg_ids [OF ok] by (simp only: cl)
  have valid: "valid_seg (comb_line L) d \<longleftrightarrow> valid_seg M d" for d
    using ids by (metis set_seg_ids)
  with assms have c: "valid_seg M c" by simp
  note fold = foldl_link_pair [OF ok]
  have core: "joins (seg_at (comb_line L) a) (seg_at (comb_line L) b) = joins (seg_at M a) (seg_at M b)"
    if "valid_seg M a" "valid_seg M b" for a b
    using fold [OF that(1)] fold [OF that(2)]
    by (metis cl joins_seg_core)
  have "seg_at M c = measure_split (seg_at (map comb_split L) c)"
    using c unfolding M_def by (rule seg_at_comb_measure)
  then have empty: "sl_end_lines (seg_at M c) = []" "sl_start_lines (seg_at M c) = []"
    by (simp_all add: measure_split_def)
  have "sl_end_lines (seg_at (comb_line L) c) =
          [b \<leftarrow> seg_ids M. fst c \<noteq> fst b \<and> joins (seg_at M c) (seg_at M b)]"
    using conjunct1 [OF conjunct2 [OF conjunct2 [OF fold [OF c]]]] c empty distinct_seg_ids [of M]
    by (simp add: cl link_pairs_def snd_filter_pairs set_seg_ids)
  moreover have "sl_start_lines (seg_at (comb_line L) c) =
          [a \<leftarrow> seg_ids M. fst a \<noteq> fst c \<and> joins (seg_at M a) (seg_at M c)]"
    using conjunct2 [OF conjunct2 [OF conjunct2 [OF fold [OF c]]]] c empty distinct_seg_ids [of M]
    by (simp add: cl link_pairs_def fst_filter_pairs set_seg_ids)
  ultimately show ?thesis
    using c by (auto simp: ids core set_seg_ids intro!: filter_cong)
qed

subsection \<open>Properties of combLine\<close>

lemma seg_path_Some [simp]: "sl_paths v = Some (a # b # rest) \<Longrightarrow> seg_path v = (a, b)"
  by (simp add: seg_path_def)

lemma seg_path_new_split_line [simp]: "seg_path (new_split_line a b) = (a, b)"
  by (simp add: new_split_line_def seg_path_def)

lemma sum_split_paths:
  "sum_list (map (\<lambda>v. path_length (seg_path v)) (split_paths (map point_path ps))) = polyline_length ps"
  by (induction ps rule: polyline_length.induct)
     (simp_all add: new_split_line_def seg_path_def path_length_def point_path_def seg_dist_def)

lemma paths_split_paths: "map sl_paths (split_paths ps) = map (\<lambda>(a, b). Some [a, b]) (zip ps (tl ps))"
  by (induction ps rule: split_paths.induct) (simp_all add: new_split_line_def)

lemma comb_line_points:
  "i < length L \<Longrightarrow> points (comb_line L ! i) = points (L ! i)"
  using arg_cong [OF comb_line_fields, of i L points] by (simp add: comb_split_def Let_def comb_measure_def)

lemma comb_line_origin_length:
  "i < length L \<Longrightarrow> origin_length (comb_line L ! i)
     = Some (sum_list (map (\<lambda>v. path_length (seg_path v)) (splits (comb_split (L ! i)))))"
  using arg_cong [OF comb_line_fields, of i L origin_length] by (simp add: comb_measure_def)

lemma comb_line_seg_paths:
  assumes "i < length L" "j < length (splits (comb_line L ! i))"
  shows "sl_paths (splits (comb_line L ! i) ! j) = sl_paths (splits (comb_split (L ! i)) ! j)"
proof -
  have v: "valid_seg (comb_line L) (i, j)" using assms by (simp add: valid_seg_def)
  have "valid_seg (map comb_split L) (i, j)"
    using v comb_line_valid [of L "(i, j)"] by (simp add: valid_seg_def)
  with arg_cong [OF comb_line_seg_core [OF v], of sl_paths] assms show ?thesis
    by (simp add: seg_core_def measure_split_def seg_at_def)
qed

text \<open>
  C5: after \<open>combLine\<close>, the \<open>endLines\<close> of a segment are exactly the
  segments of the other connections that start where it ends, in
  \<open>lineData\<close> order, and its \<open>startLines\<close> exactly the segments of the other
  connections that end where it starts.
\<close>

theorem comb_line_adjacency:
  assumes "valid_seg (comb_line L) c"
  shows "sl_end_lines (seg_at (comb_line L) c) =
           [b \<leftarrow> seg_ids (comb_line L). fst c \<noteq> fst b \<and> joins (seg_at (comb_line L) c) (seg_at (comb_line L) b)]
       \<and> sl_start_lines (seg_at (comb_line L) c) =
           [a \<leftarrow> seg_ids (comb_line L). fst a \<noteq> fst c \<and> joins (seg_at (comb_line L) a) (seg_at (comb_line L) c)]"
  using assms by (rule comb_line_links)

text \<open>
  C15: the adjacency \<open>combLine\<close> builds is symmetric: \<open>B\<close> is in the
  \<open>endLines\<close> of \<open>A\<close> exactly when \<open>A\<close> is in the \<open>startLines\<close> of
  \<open>B\<close>.
\<close>

theorem comb_line_links_symmetric:
  assumes "valid_seg (comb_line L) a" "valid_seg (comb_line L) b"
  shows "b \<in> set (sl_end_lines (seg_at (comb_line L) a)) \<longleftrightarrow> a \<in> set (sl_start_lines (seg_at (comb_line L) b))"
  using comb_line_links [OF assms(1)] comb_line_links [OF assms(2)] assms
  by (auto simp: set_seg_ids)

text \<open>
  C27: for a connection without preset segments, the total length
  \<open>combLine\<close> stores is the Euclidean length of its polyline.
\<close>

theorem comb_line_total_length:
  assumes "i < length L" "split_lines (L ! i) = None"
  shows "origin_length (comb_line L ! i) = Some (polyline_length (points (L ! i)))"
proof -
  have "splits (L ! i) = []" using assms(2) by (simp add: splits_def)
  with comb_line_origin_length [OF assms(1)] show ?thesis
    by (simp add: sum_split_paths)
qed

text \<open>
  C28: for a connection without preset segments, \<open>combLine\<close> makes one
  segment per pair of consecutive points, in path order.
\<close>

theorem comb_line_segments:
  assumes "i < length L" "split_lines (L ! i) = None"
  shows "map sl_paths (splits (comb_line L ! i))
           = map (\<lambda>(a, b). Some [a, b]) (zip (map point_path (points (L ! i))) (tl (map point_path (points (L ! i)))))"
proof (rule nth_equalityI)
  have none: "splits (L ! i) = []" using assms(2) by (simp add: splits_def)
  show "length (map sl_paths (splits (comb_line L ! i)))
      = length (map (\<lambda>(a, b). Some [a, b]) (zip (map point_path (points (L ! i))) (tl (map point_path (points (L ! i))))))"
    using comb_line_splits_length [OF assms(1)] none by simp
  fix j assume "j < length (map sl_paths (splits (comb_line L ! i)))"
  then have "j < length (splits (comb_line L ! i))" by simp
  from comb_line_seg_paths [OF assms(1) this] none show
    "map sl_paths (splits (comb_line L ! i)) ! j
      = map (\<lambda>(a, b). Some [a, b]) (zip (map point_path (points (L ! i))) (tl (map point_path (points (L ! i))))) ! j"
    using \<open>j < length (splits (comb_line L ! i))\<close> comb_line_splits_length [OF assms(1)]
    by (simp add: paths_split_paths [symmetric])
qed

text \<open>
  C29: \<open>combLine\<close> appends to a connection's \<open>splitLines\<close> instead of
  replacing them, so initialising twice with the same \<open>lineData\<close> objects
  doubles every connection's segments.
\<close>

theorem comb_line_twice_duplicates:
  assumes "i < length L" "split_lines (L ! i) = None"
  shows "length (splits (comb_line (comb_line L) ! i)) = 2 * (length (points (L ! i)) - 1)"
proof -
  have "i < length (comb_line L)" using assms(1) by simp
  from comb_line_splits_length [OF this] comb_line_splits_length [OF assms(1)] assms
  show ?thesis by (simp add: comb_line_points splits_def)
qed

end
