(* ===== verification/Projector.thy ===== *)
theory Projector
  imports Segment_Graph
begin

text \<open>
  The Screen Projector: \<open>CreateImgLineFlow.handleDataBeforeDraw\<close>
  (\<open>src/src/core/index.ts\<close>, lines 205--236) and the constructor's
  \<open>init\<close> (lines 145--148), which runs \<open>combLine\<close> (\<open>comb_line_js\<close>, which
  throws on a preset segment without two path points) and then it.

  For each connection the pass first sets \<open>originLength\<close> to \<open>0\<close>, then walks
  the segments in order. A segment's \<open>fromPixel\<close> is computed from its first
  point unless the previous segment (already updated by this walk) has a
  \<open>toPixel\<close>, which is then copied; its \<open>toPixel\<close> is always computed; its
  \<open>angle\<close> and \<open>length\<close> are only filled in while still \<open>undefined\<close>; the
  angle comes from the logical path points with origin \<open>''top''\<close>. The
  reference point is the origin \<open>(0, 0)\<close>. \<open>lineObj.splitLines.forEach\<close>
  throws a \<open>TypeError\<close> on a connection whose \<open>splitLines\<close> is unset.
\<close>

definition reference_point :: coordinate where
  "reference_point = \<lparr>cx = 0, cy = 0\<rparr>"

definition path_point :: "path_item \<Rightarrow> coordinate" where
  "path_point p = \<lparr>cx = fst p, cy = snd p\<rparr>"

definition from_pixel_of :: "coordinate \<Rightarrow> split_line option \<Rightarrow> path_item \<Rightarrow> coordinate" where
  "from_pixel_of r prev start =
     (case prev of
        None \<Rightarrow> get_screen (path_point start) r
      | Some p \<Rightarrow> (case sl_to_pixel p of
                     None \<Rightarrow> get_screen (path_point start) r
                   | Some t \<Rightarrow> t))"

definition project_split :: "coordinate \<Rightarrow> split_line option \<Rightarrow> split_line \<Rightarrow> split_line" where
  "project_split r prev v =
     v\<lparr>sl_from_pixel := Some (from_pixel_of r prev (fst (seg_path v))),
       sl_to_pixel := Some (get_screen (path_point (snd (seg_path v))) r),
       sl_angle := (case sl_angle v of
                      None \<Rightarrow> Some (get_angle (path_point (fst (seg_path v))) (path_point (snd (seg_path v))) ''top'')
                    | Some a \<Rightarrow> Some a),
       sl_length := (case sl_length v of None \<Rightarrow> sl_origin_length v | Some l \<Rightarrow> Some l)\<rparr>"

fun project_splits :: "coordinate \<Rightarrow> split_line option \<Rightarrow> split_line list \<Rightarrow> split_line list" where
  "project_splits r prev [] = []"
| "project_splits r prev (v # vs) =
     (let v' = project_split r prev v in v' # project_splits r (Some v') vs)"

definition project_line :: "line_obj \<Rightarrow> line_obj js_result" where
  "project_line l =
     (case split_lines l of
        None \<Rightarrow> js_throw TypeError
      | Some ss \<Rightarrow> js_return (l\<lparr>origin_length := Some 0,
                                 split_lines := Some (project_splits reference_point None ss)\<rparr>))"

definition handle_data_before_draw :: "line_obj list \<Rightarrow> line_obj list js_result" where
  "handle_data_before_draw L = js_map project_line L"

definition init_lines :: "line_obj list \<Rightarrow> line_obj list js_result" where
  "init_lines L = js_bind (comb_line_js L) handle_data_before_draw"

subsection \<open>Lemmas on the segment walk\<close>

lemma length_project_splits [simp]: "length (project_splits r prev vs) = length vs"
  by (induction vs arbitrary: prev) (simp_all add: Let_def)

lemma project_split_fields [simp]:
  "sl_paths (project_split r prev v) = sl_paths v"
  "sl_end_lines (project_split r prev v) = sl_end_lines v"
  "sl_start_lines (project_split r prev v) = sl_start_lines v"
  "sl_origin_length (project_split r prev v) = sl_origin_length v"
  "sl_from_pixel (project_split r prev v) = Some (from_pixel_of r prev (fst (seg_path v)))"
  "sl_to_pixel (project_split r prev v) = Some (get_screen (path_point (snd (seg_path v))) r)"
  by (simp_all add: project_split_def)

lemma project_splits_nth:
  "j < length vs \<Longrightarrow> project_splits r prev vs ! j =
     project_split r (if j = 0 then prev else Some (project_splits r prev vs ! (j - 1))) (vs ! j)"
proof (induction vs arbitrary: prev j)
  case (Cons v vs)
  then show ?case by (cases j) (simp_all add: Let_def nth_Cons')
qed simp

lemma from_pixel_of_Some:
  "sl_to_pixel p = Some t \<Longrightarrow> from_pixel_of r (Some p) v = t"
  by (simp add: from_pixel_of_def)

lemma from_pixel_of_cong:
  "Option.bind q sl_to_pixel = Option.bind p sl_to_pixel \<Longrightarrow> from_pixel_of r q v = from_pixel_of r p v"
  by (cases q; cases p) (auto simp: from_pixel_of_def split: option.splits)

lemma project_splits_continuous:
  "Suc j < length vs \<Longrightarrow>
     sl_from_pixel (project_splits r prev vs ! Suc j) = sl_to_pixel (project_splits r prev vs ! j)"
proof -
  assume j: "Suc j < length vs"
  then have "sl_to_pixel (project_splits r prev vs ! j) = Some (get_screen (path_point (snd (seg_path (vs ! j)))) r)"
    by (simp add: project_splits_nth [of j])
  with j show ?thesis
    by (simp add: project_splits_nth [of "Suc j"] from_pixel_of_Some)
qed

lemma project_split_again:
  "Option.bind q sl_to_pixel = Option.bind p sl_to_pixel \<Longrightarrow>
     project_split r q (project_split r p v) = project_split r p v"
  by (simp add: project_split_def seg_path_def from_pixel_of_cong [of q p] split: option.splits)

lemma project_splits_again:
  "Option.bind q sl_to_pixel = Option.bind p sl_to_pixel \<Longrightarrow>
     project_splits r q (project_splits r p vs) = project_splits r p vs"
proof (induction vs arbitrary: p q)
  case (Cons v vs)
  have eq: "project_split r q (project_split r p v) = project_split r p v"
    using Cons.prems by (rule project_split_again)
  show ?case
    by (simp add: Let_def eq Cons.IH)
qed simp

lemma project_line_return:
  "split_lines l = Some ss \<Longrightarrow>
     project_line l = js_return (l\<lparr>origin_length := Some 0, split_lines := Some (project_splits reference_point None ss)\<rparr>)"
  by (simp add: project_line_def)

lemma split_lines_update_seg:
  "split_lines (L ! i) \<noteq> None \<Longrightarrow> split_lines (update_seg a f L ! i) \<noteq> None"
  by (cases "i = fst a"; cases "fst a < length L") (auto simp: update_seg_def list_update_beyond)

lemma split_lines_link_pair:
  assumes "split_lines (L ! i) \<noteq> None"
  shows "split_lines (link_pair L ab ! i) \<noteq> None"
proof -
  obtain a b where Pair: "ab = (a, b)" by (cases ab)
  have "split_lines (update_seg b g (update_seg a f L) ! i) \<noteq> None" for f g
    by (rule split_lines_update_seg, rule split_lines_update_seg, rule assms)
  with assms show ?thesis
    unfolding link_pair_def Pair prod.case by (cases "joins (seg_at L a) (seg_at L b)") simp_all
qed

lemma split_lines_foldl_link_pair:
  "split_lines (L ! i) \<noteq> None \<Longrightarrow> split_lines (foldl link_pair L ps ! i) \<noteq> None"
proof (induction ps arbitrary: L)
  case (Cons p ps)
  from Cons.IH [OF split_lines_link_pair [OF Cons.prems]] show ?case by simp
qed simp

lemma comb_line_split_lines:
  "i < length L \<Longrightarrow> split_lines (comb_line L ! i) \<noteq> None"
  by (simp add: comb_line_unfold split_lines_foldl_link_pair comb_measure_def)

lemma handle_data_before_draw_return:
  "(\<forall>l \<in> set L. split_lines l \<noteq> None) \<Longrightarrow>
     handle_data_before_draw L = js_return (map (\<lambda>l. l\<lparr>origin_length := Some 0,
        split_lines := Some (project_splits reference_point None (splits l))\<rparr>) L)"
  unfolding handle_data_before_draw_def
  by (induction L) (auto simp: project_line_def splits_def)

lemma init_lines_eq:
  "presets_ok L \<Longrightarrow> init_lines L = js_return (map (\<lambda>l. l\<lparr>origin_length := Some 0,
        split_lines := Some (project_splits reference_point None (splits l))\<rparr>) (comb_line L))"
proof -
  have "\<forall>l \<in> set (comb_line L). split_lines l \<noteq> None"
    using comb_line_split_lines by (metis comb_line_length in_set_conv_nth)
  then show "presets_ok L \<Longrightarrow> ?thesis"
    by (simp add: init_lines_def comb_line_js_def handle_data_before_draw_return)
qed

lemma init_lines_throw: "\<not> presets_ok L \<Longrightarrow> init_lines L = js_throw TypeError"
  by (simp add: init_lines_def comb_line_js_def)

lemma init_lines_return_iff:
  "init_lines L = js_return L' \<longleftrightarrow> presets_ok L \<and> L' = map (\<lambda>l. l\<lparr>origin_length := Some 0,
        split_lines := Some (project_splits reference_point None (splits l))\<rparr>) (comb_line L)"
  by (cases "presets_ok L") (auto simp: init_lines_eq init_lines_throw)

lemma split_paths_nth:
  "j < length ps - 1 \<Longrightarrow> split_paths ps ! j = new_split_line (ps ! j) (ps ! Suc j)"
proof (induction ps arbitrary: j rule: split_paths.induct)
  case (1 a b rest)
  then show ?case by (cases j) simp_all
qed simp_all

lemma init_lines_splits:
  assumes "init_lines L = js_return L'" "i < length L'"
  shows "i < length L \<and> splits (L' ! i) = project_splits reference_point None (splits (comb_line L ! i))
     \<and> origin_length (L' ! i) = Some 0"
  using assms by (auto simp: init_lines_return_iff splits_def)

text \<open>
  A segment that \<open>combLine\<close> made from two consecutive points of a connection
  without preset segments carries only its paths and its length.
\<close>

lemma comb_line_fresh_seg:
  assumes "i < length L" "split_lines (L ! i) = None" "j < length (points (L ! i)) - 1"
  shows "j < length (splits (comb_line L ! i))
    \<and> sl_paths (splits (comb_line L ! i) ! j) = Some [point_path (points (L ! i) ! j), point_path (points (L ! i) ! Suc j)]
    \<and> sl_angle (splits (comb_line L ! i) ! j) = None \<and> sl_length (splits (comb_line L ! i) ! j) = None
    \<and> sl_origin_length (splits (comb_line L ! i) ! j)
          = Some (seg_dist (points (L ! i) ! j) (points (L ! i) ! Suc j))"
proof -
  have none: "splits (L ! i) = []" using assms(2) by (simp add: splits_def)
  have j: "j < length (splits (comb_line L ! i))"
    using comb_line_splits_length [OF assms(1)] none assms(3) by simp
  have v: "valid_seg (comb_line L) (i, j)" using assms(1) j by (simp add: valid_seg_def)
  have split: "seg_at (map comb_split L) (i, j)
      = new_split_line (point_path (points (L ! i) ! j)) (point_path (points (L ! i) ! Suc j))"
    using assms none by (simp add: seg_at_def split_paths_nth)
  have core: "seg_core (splits (comb_line L ! i) ! j) = seg_core (measure_split (seg_at (map comb_split L) (i, j)))"
    using comb_line_seg_core [OF v] by (simp add: seg_at_def)
  show ?thesis
    using j arg_cong [OF core, of sl_paths] arg_cong [OF core, of sl_angle]
      arg_cong [OF core, of sl_length] arg_cong [OF core, of sl_origin_length]
    by (simp add: split seg_core_def measure_split_def new_split_line_def seg_path_def path_length_def
        point_path_def seg_dist_def)
qed

subsection \<open>Properties of handleDataBeforeDraw and init\<close>


text \<open>
  C16: after initialisation every segment but the first starts at exactly the
  pixel where the previous segment of its connection ends.
\<close>

theorem init_lines_continuous:
  assumes "init_lines L = js_return L'" "i < length L'" "Suc j < length (splits (L' ! i))"
  shows "sl_from_pixel (splits (L' ! i) ! Suc j) = sl_to_pixel (splits (L' ! i) ! j)
       \<and> sl_to_pixel (splits (L' ! i) ! j) \<noteq> None"
proof -
  from init_lines_splits [OF assms(1,2)]
  have eq: "splits (L' ! i) = project_splits reference_point None (splits (comb_line L ! i))" by simp
  show ?thesis
    using assms(3) unfolding eq
    by (simp add: project_splits_continuous project_splits_nth [of j])
qed

text \<open>
  C24: for a connection without preset segments, initialisation gives segment
  \<open>j\<close> the rounded pixels of points \<open>j\<close> and \<open>j + 1\<close>, the \<open>getAngle\<close>
  of those two logical points (not of the pixels), and their distance as its
  display length.
\<close>

theorem init_lines_fresh_segment:
  assumes "init_lines L = js_return L'" "i < length L" "split_lines (L ! i) = None"
    and "j < length (points (L ! i)) - 1"
  shows "sl_from_pixel (splits (L' ! i) ! j) = Some (get_screen (points (L ! i) ! j) reference_point)
    \<and> sl_to_pixel (splits (L' ! i) ! j) = Some (get_screen (points (L ! i) ! Suc j) reference_point)
    \<and> sl_angle (splits (L' ! i) ! j) = Some (get_angle (points (L ! i) ! j) (points (L ! i) ! Suc j) ''top'')
    \<and> sl_length (splits (L' ! i) ! j) = Some (seg_dist (points (L ! i) ! j) (points (L ! i) ! Suc j))"
proof -
  have i': "i < length L'" using assms(1,2) by (auto simp: init_lines_return_iff)
  from init_lines_splits [OF assms(1) i']
  have eq: "splits (L' ! i) = project_splits reference_point None (splits (comb_line L ! i))" by simp
  note seg = comb_line_fresh_seg [OF assms(2-4)]
  have pp: "path_point (point_path p) = p" for p :: coordinate
    by (simp add: path_point_def point_path_def)
  have from_px: "from_pixel_of reference_point
      (if j = 0 then None else Some (project_splits reference_point None (splits (comb_line L ! i)) ! (j - 1)))
      (fst (seg_path (splits (comb_line L ! i) ! j))) = get_screen (points (L ! i) ! j) reference_point"
  proof (cases j)
    case 0
    then show ?thesis using seg by (simp add: from_pixel_of_def pp)
  next
    case (Suc k)
    have "k < length (points (L ! i)) - 1" using assms(4) Suc by simp
    with comb_line_fresh_seg [OF assms(2,3) this] Suc show ?thesis
      by (simp add: from_pixel_of_def project_splits_nth [of k] pp)
  qed
  show ?thesis
    using seg from_px unfolding eq
    by (simp add: project_splits_nth [of j] project_split_def pp)
qed

text \<open>
  C25: \<open>handleDataBeforeDraw\<close> is idempotent: running it again on its own
  result changes nothing (angles and lengths are kept, pixels recomputed to the
  same values).
\<close>

theorem handle_data_before_draw_idempotent:
  assumes "handle_data_before_draw L = js_return L'"
  shows "handle_data_before_draw L' = js_return L'"
proof -
  have all: "list_all2 (\<lambda>l l'. project_line l = js_return l') L L'"
    using assms by (simp add: handle_data_before_draw_def js_map_return)
  have "project_line l' = js_return l'" if "project_line l = js_return l'" for l l'
  proof (cases "split_lines l")
    case (Some ss)
    with that have l': "l' = l\<lparr>origin_length := Some 0, split_lines := Some (project_splits reference_point None ss)\<rparr>"
      by (simp add: project_line_def)
    show ?thesis
      by (simp add: l' project_line_def project_splits_again)
  qed (use that in \<open>simp add: project_line_def\<close>)
  with all have "list_all2 (\<lambda>l l'. project_line l = js_return l') L' L'"
    by (auto simp: list_all2_conv_all_nth)
  then show ?thesis
    by (simp add: handle_data_before_draw_def js_map_return)
qed

text \<open>
  C26: initialisation leaves every connection's \<open>originLength\<close> at \<open>0\<close>:
  \<open>handleDataBeforeDraw\<close> resets the total that \<open>combLine\<close> computed and
  never recomputes it.
\<close>

theorem init_lines_origin_length_zero:
  assumes "init_lines L = js_return L'" "i < length L'"
  shows "origin_length (L' ! i) = Some 0"
  using init_lines_splits [OF assms] by simp

end
