(* ===== verification/Canvas.thy ===== *)
theory Canvas
  imports Flow_Prelude
begin

text \<open>
  The drawing surface the program talks to (spec section 6): the
  \<open>CanvasRenderingContext2D\<close> calls the source makes, recorded in the order it
  makes them. A fill or stroke style is a colour string or a linear gradient;
  a gradient's colour stops are kept as offset, RGB triple and alpha, which
  is what the template string \<open>rgba(${color.join()}, a)\<close> encodes.
  \<open>addColorStop\<close> throws \<open>IndexSizeError\<close> for an offset outside
  \<open>[0, 1]\<close>. The surface's contents are the commands issued since it was last
  cleared as a whole. \<open>SetFont w s f\<close> is \<open>ctx.font = `${w} ${s}px ${f}`\<close>.
\<close>

type_synonym color_stop = "real \<times> real list \<times> real"

datatype gradient = LinearGradient real real real real "color_stop list"

datatype paint = Color string | Gradient gradient

datatype canvas_op =
    ClearRect real real real real
  | Save
  | Restore
  | Translate real real
  | Rotate jsnum
  | SetLineWidth real
  | SetLineCap string
  | SetLineJoin string
  | SetStrokeStyle paint
  | SetFillStyle paint
  | SetFont string real string
  | BeginPath
  | MoveTo real real
  | LineTo real real
  | QuadraticCurveTo real real real real
  | Stroke
  | Fill
  | FillText string real real
  | DrawImage string real real real real

text \<open>\<open>addColorStop\<close> on a gradient under construction.\<close>

definition add_color_stop :: "color_stop \<Rightarrow> color_stop list \<Rightarrow> color_stop list js_result" where
  "add_color_stop s stops =
     (if fst s < 0 \<or> 1 < fst s then js_throw IndexSizeError else js_return (stops @ [s]))"

text \<open>Clearing the whole surface empties it; any other command is appended.\<close>

definition canvas_apply :: "real \<Rightarrow> real \<Rightarrow> canvas_op list \<Rightarrow> canvas_op \<Rightarrow> canvas_op list" where
  "canvas_apply w h content op =
     (case op of ClearRect x y cw ch \<Rightarrow>
        if x \<le> 0 \<and> y \<le> 0 \<and> w \<le> x + cw \<and> h \<le> y + ch then [] else content @ [op]
      | _ \<Rightarrow> content @ [op])"

definition canvas_run :: "real \<Rightarrow> real \<Rightarrow> canvas_op list \<Rightarrow> canvas_op list \<Rightarrow> canvas_op list" where
  "canvas_run w h content ops = foldl (canvas_apply w h) content ops"

text \<open>
  The depth of the \<open>save\<close> stack after a command list started at depth
  \<open>d\<close>; \<open>None\<close> when a \<open>restore\<close> finds it empty. A list is balanced when it
  leaves the depth it started with.
\<close>

fun save_depth :: "nat \<Rightarrow> canvas_op list \<Rightarrow> nat option" where
  "save_depth d [] = Some d"
| "save_depth d (Save # ops) = save_depth (Suc d) ops"
| "save_depth d (Restore # ops) = (case d of 0 \<Rightarrow> None | Suc d' \<Rightarrow> save_depth d' ops)"
| "save_depth d (_ # ops) = save_depth d ops"

definition balanced :: "canvas_op list \<Rightarrow> bool" where
  "balanced ops \<longleftrightarrow> save_depth 0 ops = Some 0"

lemma save_depth_append:
  "save_depth d (xs @ ys) = Option.bind (save_depth d xs) (\<lambda>d'. save_depth d' ys)"
  by (induction d xs rule: save_depth.induct) (simp_all split: nat.splits)

lemma save_depth_free:
  "Save \<notin> set xs \<Longrightarrow> Restore \<notin> set xs \<Longrightarrow> save_depth d xs = Some d"
  by (induction d xs rule: save_depth.induct) auto

lemma save_depth_shift:
  "save_depth d xs = Some e \<Longrightarrow> save_depth (d + k) xs = Some (e + k)"
proof (induction d xs arbitrary: e rule: save_depth.induct)
  case (3 d ops)
  then show ?case by (cases d) auto
qed simp_all

lemma balanced_append [intro]: "balanced xs \<Longrightarrow> balanced ys \<Longrightarrow> balanced (xs @ ys)"
  by (simp add: balanced_def save_depth_append)

lemma balanced_concat: "\<forall>xs \<in> set xss. balanced xs \<Longrightarrow> balanced (concat xss)"
  by (induction xss) (auto simp: balanced_def save_depth_append)

lemma balanced_block:
  "Save \<notin> set xs \<Longrightarrow> Restore \<notin> set xs \<Longrightarrow> balanced (Save # xs @ [Restore])"
  by (simp add: balanced_def save_depth_append save_depth_free)

lemma balanced_wrap: "balanced xs \<Longrightarrow> balanced (Save # xs @ [Restore])"
  using save_depth_shift [of 0 xs 0 1] by (simp add: balanced_def save_depth_append)

end
