(* ===== verification/Flow_Render.thy ===== *)
theory Flow_Render
  imports Projector Canvas
begin

text \<open>
  The Flow Renderer: the frame body of \<open>CreateImgLineFlow.drawFlow\<close>
  (\<open>src/src/core/index.ts\<close>, lines 390--472) and \<open>setLineSpace\<close>
  (lines 487--503). One frame (\<open>drawOneArrow\<close>) clears the flow canvas,
  sets every connection's \<open>lineSpace\<close> to the progress counter plus its
  image gap, and for every connection with \<open>isDrawFlow\<close> walks its
  segments with a running length. A segment that is not skipped gets a
  drawing frame translated to its \<open>fromPixel\<close> and rotated by its
  \<open>angle\<close>, and a \<open>while\<close> loop calls \<open>drawArrow\<close> at cursor positions
  \<open>step = flowLength + stepSize\<close> apart. \<open>drawArrow\<close> clips one comet stroke
  of length \<open>flowLength\<close> to the segment and paints it with the gradient of
  \<open>getLinearGradient\<close>.

  The loop runs for ever when \<open>step < 0\<close>, so it is a
  \<open>partial_function (option)\<close>: \<open>None\<close> is "the frame never finishes".
\<close>

record flow_config =
  cfg_fps :: real
  cfg_step_size :: real
  cfg_flow_length :: real
  cfg_flow_w :: real
  cfg_flow_h :: real

text \<open>The constructor's defaults \<open>fps = 24\<close>, \<open>stepSize = 60\<close>, \<open>flowLength = 20\<close>.\<close>

definition default_config :: "real \<Rightarrow> real \<Rightarrow> flow_config" where
  "default_config w h = \<lparr>cfg_fps = 24, cfg_step_size = 60, cfg_flow_length = 20, cfg_flow_w = w, cfg_flow_h = h\<rparr>"

subsection \<open>getLinearGradient and drawArrow\<close>

text \<open>
  \<open>(flowLength - 1) / flowLength\<close> is \<open>-Infinity\<close> in JavaScript for a zero
  flow length and \<open>0\<close> in HOL; both are replaced by \<open>0\<close>.
\<close>

definition min_num :: "real \<Rightarrow> real" where
  "min_num fl = (if (fl - 1) / fl < 0 then 0 else (fl - 1) / fl)"

definition get_linear_gradient :: "real \<Rightarrow> real \<Rightarrow> real list \<Rightarrow> gradient js_result" where
  "get_linear_gradient fl x color =
     js_bind (add_color_stop (0, color, 0) []) (\<lambda>s1.
     js_bind (add_color_stop (min_num fl, color, 1) s1) (\<lambda>s2.
     js_bind (add_color_stop (1, color, 1) s2) (\<lambda>s3.
     js_return (LinearGradient x 0 (x + fl) 0 s3))))"

definition stroke_span :: "real \<Rightarrow> real list \<Rightarrow> real \<Rightarrow> real \<Rightarrow> real \<Rightarrow> canvas_op list js_result" where
  "stroke_span fl color g a b =
     js_bind (get_linear_gradient fl g color) (\<lambda>grd.
       js_return [BeginPath, SetStrokeStyle (Gradient grd), MoveTo a 0, LineTo b 0, Stroke])"

definition draw_arrow :: "real \<Rightarrow> real list \<Rightarrow> real \<Rightarrow> real \<Rightarrow> canvas_op list js_result" where
  "draw_arrow fl color len next_draw_length =
     (if - fl < next_draw_length \<and> next_draw_length < 0 then
        (let arrow_right_length = min (fl + next_draw_length) len
         in if arrow_right_length < 1 / 2 then js_return []
            else stroke_span fl color next_draw_length 0 arrow_right_length)
      else if next_draw_length > 0 \<and> next_draw_length > len - fl then
        (if len - next_draw_length < 1 / 2 then js_return []
         else stroke_span fl color next_draw_length next_draw_length len)
      else if next_draw_length \<ge> 0 \<and> next_draw_length \<le> len - fl then
        stroke_span fl color next_draw_length next_draw_length (next_draw_length + fl)
      else js_return [])"

subsection \<open>The cursor loop\<close>

partial_function (option) arrow_loop ::
  "real \<Rightarrow> real \<Rightarrow> real list \<Rightarrow> real \<Rightarrow> real \<Rightarrow> canvas_op list js_result" where
  "arrow_loop fl step color len next_draw_length =
     (if next_draw_length < len then
        Option.bind (draw_arrow fl color len next_draw_length) (case_sum js_throw (\<lambda>ops.
          Option.bind (arrow_loop fl step color len (next_draw_length + step))
            (case_sum js_throw (\<lambda>rest. js_return (ops @ rest)))))
      else js_return [])"

text \<open>The loop guard \<open>nextDrawLength < v.length\<close> is false on \<open>NaN\<close>.\<close>

definition arrow_loop_num :: "real \<Rightarrow> real \<Rightarrow> real list \<Rightarrow> jsnum \<Rightarrow> jsnum \<Rightarrow> canvas_op list js_result" where
  "arrow_loop_num fl step color len next_draw_length =
     (case (len, next_draw_length) of
        (Num l, Num c) \<Rightarrow> arrow_loop fl step color l c
      | _ \<Rightarrow> js_return [])"

subsection \<open>One connection\<close>

text \<open>\<open>let { flowWidth = 3, color = [255, 255, 255], isDrawFlow = true, lineCap = 'round' } = flowOption\<close>.\<close>

definition flow_width_of :: "line_obj \<Rightarrow> real" where
  "flow_width_of l = opt_default 3 (Option.bind (flow_option l) fo_flow_width)"

definition flow_color_of :: "line_obj \<Rightarrow> real list" where
  "flow_color_of l = opt_default [255, 255, 255] (Option.bind (flow_option l) fo_color)"

definition is_draw_flow_of :: "line_obj \<Rightarrow> bool" where
  "is_draw_flow_of l = opt_default True (Option.bind (flow_option l) fo_is_draw_flow)"

definition flow_line_cap_of :: "line_obj \<Rightarrow> string" where
  "flow_line_cap_of l = opt_default ''round'' (Option.bind (flow_option l) fo_line_cap)"

text \<open>The first cursor of a segment: \<open>-remain\<close>, or \<open>0\<close> when \<open>remain == 0\<close>.\<close>

definition split_line_space :: "real \<Rightarrow> jsnum \<Rightarrow> jsnum \<Rightarrow> jsnum" where
  "split_line_space step last_all_length lsp =
     (let remain = js_rem (js_sub last_all_length lsp) (Num step)
      in if remain = Num 0 then Num 0 else js_neg remain)"

definition render_split ::
  "flow_config \<Rightarrow> line_obj \<Rightarrow> jsnum \<Rightarrow> nat \<Rightarrow> nat \<Rightarrow> jsnum \<Rightarrow> split_line \<Rightarrow> (jsnum \<times> canvas_op list) js_result" where
  "render_split cfg l lsp n i all_length v =
     (let fl = cfg_flow_length cfg;
          v_length = js_num_of (sl_length v);
          last_all_length = all_length;
          all_length' = js_add all_length v_length
      in if (i = 0 \<or> i = n - 1) \<and> js_lt v_length (Num fl) then js_return (all_length', [])
         else if js_lt all_length' lsp then js_return (all_length', [])
         else
           (let step = fl + cfg_step_size cfg;
                next_draw_length = split_line_space step last_all_length lsp
            in case sl_from_pixel v of
                 None \<Rightarrow> js_throw TypeError
               | Some fp \<Rightarrow>
                   js_bind (arrow_loop_num fl step (flow_color_of l) v_length next_draw_length) (\<lambda>ops.
                     js_return (all_length',
                       [Save, Translate (cx fp) (cy fp), Rotate (js_num_of_opt (sl_angle v)),
                        SetLineWidth (flow_width_of l), SetLineCap (flow_line_cap_of l)]
                       @ ops @ [Restore]))))"

fun render_splits ::
  "flow_config \<Rightarrow> line_obj \<Rightarrow> jsnum \<Rightarrow> nat \<Rightarrow> nat \<Rightarrow> jsnum \<Rightarrow> split_line list \<Rightarrow> canvas_op list js_result" where
  "render_splits cfg l lsp n i all_length [] = js_return []"
| "render_splits cfg l lsp n i all_length (v # vs) =
     js_bind (render_split cfg l lsp n i all_length v) (\<lambda>(all_length', ops).
       js_bind (render_splits cfg l lsp n (Suc i) all_length' vs) (\<lambda>rest.
         js_return (ops @ rest)))"

definition render_line :: "flow_config \<Rightarrow> line_obj \<Rightarrow> canvas_op list js_result" where
  "render_line cfg l =
     (if \<not> is_draw_flow_of l then js_return []
      else case split_lines l of
             None \<Rightarrow> js_throw TypeError
           | Some ss \<Rightarrow>
               render_splits cfg l (js_sub (js_num_of_null (line_space l)) (Num (cfg_flow_length cfg)))
                 (length ss) 0 (Num 0) ss)"

subsection \<open>setLineSpace and one frame\<close>

definition line_img_split_of :: "line_obj \<Rightarrow> real" where
  "line_img_split_of l = opt_default 6 (Option.bind (line_option l) lo_line_img_split)"

definition set_space :: "jsnum \<Rightarrow> line_obj \<Rightarrow> line_obj" where
  "set_space arrow_run_px l =
     (let line_space' = js_add arrow_run_px (Num (line_img_split_of l))
      in if line_space l = None then l\<lparr>line_space := Some line_space'\<rparr> else l)"

definition set_line_space :: "jsnum \<Rightarrow> line_obj list \<Rightarrow> line_obj list" where
  "set_line_space arrow_run_px L = map (\<lambda>l. set_space arrow_run_px (l\<lparr>line_space := None\<rparr>)) L"

definition draw_one_arrow ::
  "flow_config \<Rightarrow> jsnum \<Rightarrow> line_obj list \<Rightarrow> (line_obj list \<times> canvas_op list) js_result" where
  "draw_one_arrow cfg arrow_run_px L =
     (let L' = set_line_space arrow_run_px L
      in js_bind (js_map (render_line cfg) L') (\<lambda>opss.
           js_return (L', ClearRect 0 0 (cfg_flow_w cfg) (cfg_flow_h cfg) # concat opss)))"

subsection \<open>The reference cursor sequence\<close>

text \<open>
  The positions the loop visits when \<open>step > 0\<close>: \<open>c, c + step, \<dots>\<close> while
  below the segment length.
\<close>

definition arrow_cursors :: "real \<Rightarrow> real \<Rightarrow> real \<Rightarrow> real list" where
  "arrow_cursors step len c = map (\<lambda>k. c + real k * step) [0..<nat \<lceil>(len - c) / step\<rceil>]"

text \<open>Every point a path command visits lies in \<open>[0, len]\<close> on the segment's axis.\<close>

fun x_within :: "real \<Rightarrow> canvas_op \<Rightarrow> bool" where
  "x_within len (MoveTo a _) = (0 \<le> a \<and> a \<le> len)"
| "x_within len (LineTo a _) = (0 \<le> a \<and> a \<le> len)"
| "x_within len _ = True"

definition comet_stops :: "real \<Rightarrow> real list \<Rightarrow> color_stop list" where
  "comet_stops fl color = [(0, color, 0), (min_num fl, color, 1), (1, color, 1)]"

text \<open>
  What one call of \<open>drawArrow\<close> paints: nothing, or one stroke \<open>[a, b]\<close>
  that lies on the segment and inside the comet \<open>[c, c + flowLength]\<close>,
  painted with the comet gradient anchored at \<open>c\<close>.
\<close>

definition comet_stroke :: "real \<Rightarrow> real list \<Rightarrow> real \<Rightarrow> real \<Rightarrow> real \<Rightarrow> real \<Rightarrow> canvas_op list \<Rightarrow> bool" where
  "comet_stroke fl color len c a b ops \<longleftrightarrow>
     ops = [BeginPath, SetStrokeStyle (Gradient (LinearGradient c 0 (c + fl) 0 (comet_stops fl color))),
            MoveTo a 0, LineTo b 0, Stroke]
     \<and> 0 \<le> a \<and> a < b \<and> b \<le> len \<and> c \<le> a \<and> b \<le> c + fl"

text \<open>A connection the frame can walk: its segments are set and placed.\<close>

definition frame_ready :: "line_obj \<Rightarrow> bool" where
  "frame_ready l \<longleftrightarrow> split_lines l \<noteq> None \<and> (\<forall>v \<in> set (splits l). sl_from_pixel v \<noteq> None)"

subsection \<open>Lemmas on the gradient and on drawArrow\<close>

named_theorems flow_simps "evaluation of the flow renderer"

lemma min_num_bounds: "0 \<le> fl \<Longrightarrow> 0 \<le> min_num fl \<and> min_num fl < 1"
  by (cases "fl = 0") (auto simp: min_num_def field_simps)

lemma min_num_gt_one: "fl < 0 \<Longrightarrow> 1 < min_num fl"
proof -
  assume fl: "fl < 0"
  then have "(fl - 1) / fl = 1 - 1 / fl" by (simp add: field_simps)
  moreover have "1 / fl < 0" using fl by simp
  ultimately show ?thesis by (simp add: min_num_def)
qed

lemma get_linear_gradient_ok [flow_simps]:
  "0 \<le> fl \<Longrightarrow> get_linear_gradient fl x color = js_return (LinearGradient x 0 (x + fl) 0 (comet_stops fl color))"
  using min_num_bounds [of fl]
  by (simp add: get_linear_gradient_def add_color_stop_def comet_stops_def)

lemma get_linear_gradient_neg:
  "fl < 0 \<Longrightarrow> get_linear_gradient fl x color = js_throw IndexSizeError"
  using min_num_gt_one [of fl]
  by (simp add: get_linear_gradient_def add_color_stop_def)

lemma stroke_span_ok [flow_simps]:
  "0 \<le> fl \<Longrightarrow> stroke_span fl color g a b =
     js_return [BeginPath, SetStrokeStyle (Gradient (LinearGradient g 0 (g + fl) 0 (comet_stops fl color))),
                MoveTo a 0, LineTo b 0, Stroke]"
  by (simp add: stroke_span_def get_linear_gradient_ok)

lemma draw_arrow_clipped:
  assumes "0 < fl"
  shows "draw_arrow fl color len c = js_return []
       \<or> (\<exists>a b ops. draw_arrow fl color len c = js_return ops \<and> comet_stroke fl color len c a b ops)"
  using assms
  by (auto simp: draw_arrow_def stroke_span_ok comet_stroke_def Let_def min_def)

lemma draw_arrow_returns: "0 \<le> fl \<Longrightarrow> \<exists>ops. draw_arrow fl color len c = js_return ops"
  by (simp add: draw_arrow_def stroke_span_ok Let_def)

subsection \<open>The loop against the cursor sequence\<close>

lemma arrow_cursors_stop: "0 < step \<Longrightarrow> len \<le> c \<Longrightarrow> arrow_cursors step len c = []"
proof -
  assume "0 < step" "len \<le> c"
  then have "(len - c) / step \<le> 0" by (simp add: divide_nonpos_pos)
  then show ?thesis by (simp add: arrow_cursors_def)
qed

lemma cursor_count_step:
  assumes "0 < step" "c < len"
  shows "nat \<lceil>(len - (c + step)) / step\<rceil> = nat \<lceil>(len - c) / step\<rceil> - 1"
proof -
  have pos: "0 < \<lceil>(len - c) / step\<rceil>" using assms by simp
  have shift: "(len - (c + step)) / step = (len - c) / step - 1"
    using assms(1) by (simp add: field_simps)
  show ?thesis
    unfolding shift using pos by (simp add: nat_diff_distrib)
qed

lemma arrow_cursors_step:
  assumes "0 < step" "c < len"
  shows "arrow_cursors step len c = c # arrow_cursors step len (c + step)"
proof -
  have pos: "0 < \<lceil>(len - c) / step\<rceil>" using assms by simp
  note n = cursor_count_step [OF assms]
  obtain m where m: "nat \<lceil>(len - c) / step\<rceil> = Suc m" using pos
    by (metis gr0_implies_Suc zero_less_nat_eq)
  have "map (\<lambda>k. c + real k * step) [0..<Suc m] = c # map (\<lambda>k. c + step + real k * step) [0..<m]"
    by (simp add: upt_conv_Cons map_Suc_upt [symmetric] algebra_simps del: upt_Suc)
  then show ?thesis
    by (simp add: arrow_cursors_def n m)
qed

lemma arrow_loop_unfold:
  "arrow_loop fl step color len c =
     (if c < len then js_bind (draw_arrow fl color len c) (\<lambda>ops.
        js_bind (arrow_loop fl step color len (c + step)) (\<lambda>rest. js_return (ops @ rest)))
      else js_return [])"
  by (simp add: arrow_loop.simps [of fl step color len c] js_bind_alt)

lemma arrow_loop_eq_cursors:
  assumes "0 < step"
  shows "arrow_loop fl step color len c =
           js_bind (js_map (draw_arrow fl color len) (arrow_cursors step len c)) (\<lambda>opss. js_return (concat opss))"
proof (induction "nat \<lceil>(len - c) / step\<rceil>" arbitrary: c)
  case 0
  then have "(len - c) / step \<le> 0" by simp
  with assms have "len \<le> c" by (simp add: divide_le_0_iff)
  with assms show ?case
    by (simp add: arrow_loop_unfold arrow_cursors_stop)
next
  case (Suc n)
  then have "0 < (len - c) / step" by linarith
  with assms have lt: "c < len" by (simp add: zero_less_divide_iff)
  have "nat \<lceil>(len - (c + step)) / step\<rceil> = n"
    using cursor_count_step [OF assms lt] Suc.hyps(2) by simp
  note IH = Suc.hyps(1) [OF this [symmetric]]
  show ?case
    by (simp add: arrow_loop_unfold [of fl step color len c] lt IH arrow_cursors_step [OF assms lt])
qed

lemma draw_arrow_within:
  assumes "0 < fl" "draw_arrow fl color len c = js_return ops"
  shows "list_all (x_within len) ops"
  using draw_arrow_clipped [OF assms(1), of color len c] assms(2)
  by (auto simp: comet_stroke_def)

lemma arrow_loop_diverges:
  assumes "step \<le> 0" "0 \<le> fl" "c < len"
  shows "arrow_loop fl step color len c = None"
proof (rule ccontr)
  assume "arrow_loop fl step color len c \<noteq> None"
  then obtain r where ret: "arrow_loop fl step color len c = Some r" by blast
  have "0 \<le> fl \<longrightarrow> step \<le> 0 \<longrightarrow> c < len \<longrightarrow> False"
  proof (rule arrow_loop.raw_induct [where P = "\<lambda>fl step color len c r. 0 \<le> fl \<longrightarrow> step \<le> 0 \<longrightarrow> c < len \<longrightarrow> False", OF _ ret])
    fix f fl step color len c r
    assume IH: "\<And>fl step color len c r. f fl step color len c = Some r \<Longrightarrow>
        0 \<le> fl \<longrightarrow> step \<le> 0 \<longrightarrow> c < len \<longrightarrow> False"
      and body: "(if c < len then
        Option.bind (draw_arrow fl color len c) (case_sum js_throw (\<lambda>ops.
          Option.bind (f fl step color len (c + step)) (case_sum js_throw (\<lambda>rest. js_return (ops @ rest)))))
        else js_return []) = Some r"
    show "0 \<le> fl \<longrightarrow> step \<le> 0 \<longrightarrow> c < len \<longrightarrow> False"
    proof (intro impI)
      assume fl: "0 \<le> fl" and st: "step \<le> 0" and lt: "c < len"
      obtain ops where d: "draw_arrow fl color len c = js_return ops"
        using draw_arrow_returns [OF fl] by blast
      from body lt d have "Option.bind (f fl step color len (c + step))
          (case_sum js_throw (\<lambda>rest. js_return (ops @ rest))) = Some r" by simp
      then obtain r' where "f fl step color len (c + step) = Some r'"
        by (cases "f fl step color len (c + step)") auto
      from IH [OF this] fl st lt show False by simp
    qed
  qed
  with assms show False by simp
qed

subsection \<open>Properties of the cursor loop\<close>

text \<open>
  C3: with a positive \<open>step\<close> the \<open>while\<close> loop of a segment is the reference
  computation: \<open>drawArrow\<close> at \<open>c, c + step, \<dots>\<close> below the segment length,
  stopping at the first error.
\<close>

theorem arrow_loop_refines_cursors:
  assumes "0 < step"
  shows "arrow_loop fl step color len c =
           js_bind (js_map (draw_arrow fl color len) (arrow_cursors step len c)) (\<lambda>opss. js_return (concat opss))"
  using assms by (rule arrow_loop_eq_cursors)

text \<open>
  C2: with a positive \<open>step\<close> and a non-negative \<open>flowLength\<close> the loop of a
  segment ends and returns its canvas commands.
\<close>

theorem arrow_loop_terminates:
  assumes "0 < step" "0 \<le> fl"
  shows "\<exists>ops. arrow_loop fl step color len c = js_return ops"
proof -
  have "\<exists>opss. js_map (draw_arrow fl color len) (arrow_cursors step len c) = js_return opss"
    by (rule js_map_returns) (use draw_arrow_returns [OF assms(2)] in blast)
  then show ?thesis
    by (auto simp: arrow_loop_eq_cursors [OF assms(1)])
qed

text \<open>
  C4: with \<open>step \<le> 0\<close> the loop of a segment whose first cursor is below
  its length never ends. In a frame \<open>step = flowLength + stepSize\<close>; for
  \<open>step = 0\<close> the first cursor is already \<open>NaN\<close> (\<open>x % 0\<close>), so the loop
  does not run, but a negative \<open>step\<close> hangs the frame, and the page.
\<close>

theorem arrow_loop_hangs:
  assumes "step \<le> 0" "0 \<le> fl" "c < len"
  shows "arrow_loop fl step color len c = None"
  using assms by (rule arrow_loop_diverges)

text \<open>
  C19: whatever the loop of a segment draws lies on the segment: every
  \<open>moveTo\<close> and \<open>lineTo\<close> is between \<open>0\<close> and the segment length along
  its axis.
\<close>

theorem arrow_loop_within_segment:
  assumes "0 < fl" "arrow_loop fl step color len c = js_return ops"
  shows "list_all (x_within len) ops"
proof (cases "0 < step")
  case True
  from assms(2) obtain opss where
    m: "js_map (draw_arrow fl color len) (arrow_cursors step len c) = js_return opss" and o: "ops = concat opss"
    by (auto simp: arrow_loop_eq_cursors [OF True] js_bind_eq_return)
  from m have all: "list_all2 (\<lambda>x y. draw_arrow fl color len x = js_return y) (arrow_cursors step len c) opss"
    by (simp add: js_map_return)
  have "list_all (x_within len) (opss ! i)" if "i < length opss" for i
    using that all draw_arrow_within [OF assms(1), of color len "arrow_cursors step len c ! i" "opss ! i"]
    by (simp add: list_all2_conv_all_nth)
  then have "\<forall>y \<in> set opss. list_all (x_within len) y"
    by (metis in_set_conv_nth)
  then show ?thesis by (simp add: o list_all_iff)
next
  case False
  show ?thesis
  proof (cases "c < len")
    case True
    with False assms have "arrow_loop fl step color len c = None"
      by (intro arrow_loop_diverges) simp_all
    with assms(2) show ?thesis by simp
  next
    case ge: False
    with assms(2) show ?thesis by (simp add: arrow_loop_unfold)
  qed
qed

subsection \<open>The first cursor of a segment\<close>

lemma split_line_space_nonneg:
  assumes "0 < step" "ls \<le> prev"
  shows "\<exists>c k. split_line_space step (Num prev) (Num ls) = Num c \<and> prev + c = ls + of_int k * step
           \<and> - step < c \<and> c \<le> 0"
proof -
  let ?a = "prev - ls"
  define r where "r = ?a - step * of_int \<lfloor>?a / step\<rfloor>"
  have rem: "js_rem (Num ?a) (Num step) = Num r"
    using js_rem_nonneg [of ?a step] assms by (simp add: r_def)
  have b: "0 \<le> r \<and> r < step"
    using floor_rem_bounds [OF assms(1), of ?a] by (simp add: r_def)
  show ?thesis
  proof (cases "r = 0")
    case True
    then show ?thesis using rem b assms(1)
      by (intro exI [of _ 0] exI [of _ "\<lfloor>?a / step\<rfloor>"])
         (auto simp: split_line_space_def r_def algebra_simps)
  next
    case False
    then show ?thesis using rem b
      by (intro exI [of _ "- r"] exI [of _ "\<lfloor>?a / step\<rfloor>"])
         (auto simp: split_line_space_def r_def algebra_simps)
  qed
qed

lemma split_line_space_neg:
  assumes "0 < step" "prev < ls"
  shows "\<exists>c k. split_line_space step (Num prev) (Num ls) = Num c \<and> prev + c = ls + of_int k * step
           \<and> 0 \<le> c \<and> c < step"
proof -
  let ?a = "prev - ls"
  define r where "r = ?a - step * of_int \<lceil>?a / step\<rceil>"
  have rem: "js_rem (Num ?a) (Num step) = Num r"
    using js_rem_neg [of ?a step] assms by (simp add: r_def)
  have b: "- step < r \<and> r \<le> 0"
    using ceiling_rem_bounds [OF assms(1), of ?a] by (simp add: r_def)
  show ?thesis
  proof (cases "r = 0")
    case True
    then show ?thesis using rem b assms(1)
      by (intro exI [of _ 0] exI [of _ "\<lceil>?a / step\<rceil>"])
         (auto simp: split_line_space_def r_def algebra_simps)
  next
    case False
    then show ?thesis using rem b
      by (intro exI [of _ "- r"] exI [of _ "\<lceil>?a / step\<rceil>"])
         (auto simp: split_line_space_def r_def algebra_simps)
  qed
qed

text \<open>
  C20: the first cursor of a drawn segment puts the arrow heads at distances
  \<open>lineSpace + k \<cdot> step\<close> from the start of the connection, so they continue
  evenly across segment joints. It is in \<open>(-step, 0]\<close> once the segment
  starts at or after \<open>lineSpace\<close>, and in \<open>[0, step)\<close> on the segment that
  contains \<open>lineSpace\<close>.
\<close>

theorem split_line_space_phase:
  assumes "0 < step"
  shows "\<exists>c k. split_line_space step (Num prev) (Num ls) = Num c \<and> prev + c = ls + of_int k * step
           \<and> (ls \<le> prev \<longrightarrow> - step < c \<and> c \<le> 0) \<and> (prev < ls \<longrightarrow> 0 \<le> c \<and> c < step)"
proof (cases "ls \<le> prev")
  case True
  then show ?thesis using split_line_space_nonneg [OF assms True] by auto
next
  case False
  then have lt: "prev < ls" by simp
  show ?thesis using split_line_space_neg [OF assms lt] lt by auto
qed


subsection \<open>getLinearGradient\<close>

text \<open>
  C23: \<open>getLinearGradient\<close> builds the comet: transparent at the cursor,
  opaque from \<open>(flowLength - 1) / flowLength\<close> of the way (a ratio in
  \<open>[0, 1)\<close>) to its head; for a negative \<open>flowLength\<close> the middle stop lies
  beyond \<open>1\<close> and \<open>addColorStop\<close> throws.
\<close>

theorem get_linear_gradient_comet:
  "get_linear_gradient fl x color =
     (if fl < 0 then js_throw IndexSizeError
      else js_return (LinearGradient x 0 (x + fl) 0 [(0, color, 0), (min_num fl, color, 1), (1, color, 1)]))
   \<and> (0 \<le> fl \<longrightarrow> 0 \<le> min_num fl \<and> min_num fl < 1)"
  using get_linear_gradient_ok [of fl x color] get_linear_gradient_neg [of fl x color] min_num_bounds [of fl]
  by (auto simp: comet_stops_def)

text \<open>
  C22: a comet whose cursor is exactly \<open>0\<close> on a segment shorter than
  \<open>flowLength\<close> covers the whole segment but is not drawn: none of the three
  cases of \<open>drawArrow\<close> accepts it (the second one wants
  \<open>nextDrawLength > 0\<close>).
\<close>

theorem draw_arrow_zero_cursor_gap:
  assumes "0 < len" "len < fl"
  shows "draw_arrow fl color len 0 = js_return []"
  using assms by (simp add: draw_arrow_def)

subsection \<open>A whole frame\<close>

lemma arrow_loop_num_returns:
  "0 < step \<Longrightarrow> 0 \<le> fl \<Longrightarrow> \<exists>ops. arrow_loop_num fl step color len nxt = js_return ops"
  using arrow_loop_terminates by (auto simp: arrow_loop_num_def split: jsnum.splits)

lemma render_split_returns:
  assumes "sl_from_pixel v \<noteq> None" "0 \<le> cfg_flow_length cfg" "0 < cfg_flow_length cfg + cfg_step_size cfg"
  shows "\<exists>a ops. render_split cfg l lsp n i all_length v = js_return (a, ops)"
proof -
  obtain fp where fp: "sl_from_pixel v = Some fp" using assms(1) by blast
  obtain ops where ops: "arrow_loop_num (cfg_flow_length cfg) (cfg_flow_length cfg + cfg_step_size cfg)
      (flow_color_of l) (js_num_of (sl_length v))
      (split_line_space (cfg_flow_length cfg + cfg_step_size cfg) all_length lsp) = js_return ops"
    using arrow_loop_num_returns [OF assms(3,2)] by blast
  show ?thesis
    by (simp add: render_split_def Let_def fp ops)
qed

lemma render_splits_returns:
  assumes "\<forall>v \<in> set vs. sl_from_pixel v \<noteq> None" "0 \<le> cfg_flow_length cfg"
    "0 < cfg_flow_length cfg + cfg_step_size cfg"
  shows "\<exists>ops. render_splits cfg l lsp n i all_length vs = js_return ops"
  using assms(1)
proof (induction vs arbitrary: i all_length)
  case (Cons v vs)
  obtain a ops where r: "render_split cfg l lsp n i all_length v = js_return (a, ops)"
    using render_split_returns [OF _ assms(2,3)] Cons.prems by fastforce
  obtain rest where "render_splits cfg l lsp n (Suc i) a vs = js_return rest"
    using Cons.IH Cons.prems by fastforce
  with r show ?case by simp
qed simp

lemma render_line_returns:
  assumes "frame_ready l" "0 \<le> cfg_flow_length cfg" "0 < cfg_flow_length cfg + cfg_step_size cfg"
  shows "\<exists>ops. render_line cfg l = js_return ops"
  using assms render_splits_returns [OF _ assms(2,3)]
  by (auto simp: render_line_def frame_ready_def splits_def)

lemma frame_ready_set_space: "frame_ready (set_space px (l\<lparr>line_space := None\<rparr>)) = frame_ready l"
  by (simp add: frame_ready_def set_space_def Let_def splits_def)

lemma draw_one_arrow_returns:
  assumes "\<forall>l \<in> set L. frame_ready l" "0 \<le> cfg_flow_length cfg" "0 < cfg_flow_length cfg + cfg_step_size cfg"
  shows "\<exists>ops. draw_one_arrow cfg px L = js_return (set_line_space px L, ops)"
proof -
  have "\<exists>opss. js_map (render_line cfg) (set_line_space px L) = js_return opss"
    by (rule js_map_returns)
       (use assms render_line_returns [OF _ assms(2,3)] in \<open>auto simp: set_line_space_def frame_ready_set_space\<close>)
  then show ?thesis by (auto simp: draw_one_arrow_def)
qed

lemma project_splits_from_pixel:
  "v \<in> set (project_splits r p vs) \<Longrightarrow> \<exists>fp. sl_from_pixel v = Some fp"
  by (induction vs arbitrary: p) (auto simp: Let_def)

lemma init_lines_frame_ready:
  "init_lines L = js_return L' \<Longrightarrow> \<forall>l \<in> set L'. frame_ready l"
  by (auto simp: init_lines_return_iff frame_ready_def splits_def) (metis project_splits_from_pixel)

text \<open>
  C1: once initialised, every animation frame with \<open>flowLength \<ge> 0\<close> and
  \<open>flowLength + stepSize > 0\<close> finishes without an error, whatever the
  progress counter; it also records the new \<open>lineSpace\<close> of each connection.
\<close>

theorem init_frame_total:
  assumes "init_lines L = js_return L'" "0 \<le> cfg_flow_length cfg"
    "0 < cfg_flow_length cfg + cfg_step_size cfg"
  shows "\<exists>ops. draw_one_arrow cfg px L' = js_return (set_line_space px L', ops)"
  using init_lines_frame_ready [OF assms(1)] assms(2,3) by (rule draw_one_arrow_returns)

subsection \<open>The save stack of a frame\<close>

lemma stroke_span_free:
  "stroke_span fl color g a b = js_return ops \<Longrightarrow> Save \<notin> set ops \<and> Restore \<notin> set ops"
  by (auto simp: stroke_span_def js_bind_eq_return)

lemma draw_arrow_free:
  "draw_arrow fl color len c = js_return ops \<Longrightarrow> Save \<notin> set ops \<and> Restore \<notin> set ops"
  by (auto simp: draw_arrow_def Let_def split: if_splits dest: stroke_span_free)

lemma arrow_loop_free:
  assumes "arrow_loop fl step color len c = Some r"
  shows "\<forall>ops. r = Inr ops \<longrightarrow> Save \<notin> set ops \<and> Restore \<notin> set ops"
proof (rule arrow_loop.raw_induct [where P = "\<lambda>fl step color len c r. \<forall>ops. r = Inr ops \<longrightarrow> Save \<notin> set ops \<and> Restore \<notin> set ops", OF _ assms])
  fix f fl step color len c r
  assume IH: "\<And>fl step color len c r. f fl step color len c = Some r \<Longrightarrow>
      \<forall>ops. r = Inr ops \<longrightarrow> Save \<notin> set ops \<and> Restore \<notin> set ops"
    and body: "(if c < len then
        Option.bind (draw_arrow fl color len c) (case_sum js_throw (\<lambda>ops.
          Option.bind (f fl step color len (c + step)) (case_sum js_throw (\<lambda>rest. js_return (ops @ rest)))))
        else js_return []) = Some r"
  show "\<forall>ops. r = Inr ops \<longrightarrow> Save \<notin> set ops \<and> Restore \<notin> set ops"
  proof (intro allI impI)
    fix ops assume r: "r = Inr ops"
    show "Save \<notin> set ops \<and> Restore \<notin> set ops"
    proof (cases "c < len")
      case True
      with body r have "js_bind (draw_arrow fl color len c) (\<lambda>ops.
          js_bind (f fl step color len (c + step)) (\<lambda>rest. js_return (ops @ rest))) = js_return ops"
        by (simp add: js_bind_alt)
      then obtain ops1 rest where d: "draw_arrow fl color len c = js_return ops1"
        and f: "f fl step color len (c + step) = js_return rest" and o: "ops = ops1 @ rest"
        by (auto simp: js_bind_eq_return)
      from IH [OF f] draw_arrow_free [OF d] o show ?thesis by simp
    next
      case False
      with body r show ?thesis by simp
    qed
  qed
qed

lemma arrow_loop_num_free:
  "arrow_loop_num fl step color len c = js_return ops \<Longrightarrow> Save \<notin> set ops \<and> Restore \<notin> set ops"
  using arrow_loop_free [of fl step color]
  by (auto simp: arrow_loop_num_def split: jsnum.splits)

lemma render_split_balanced:
  assumes "render_split cfg l lsp n i all_length v = js_return (a, ops)"
  shows "balanced ops"
proof (cases "ops = []")
  case False
  let ?loop = "arrow_loop_num (cfg_flow_length cfg) (cfg_flow_length cfg + cfg_step_size cfg)
        (flow_color_of l) (js_num_of (sl_length v))
        (split_line_space (cfg_flow_length cfg + cfg_step_size cfg) all_length lsp)"
  from assms False have "\<exists>x y ops'. ?loop = js_return ops' \<and>
      ops = Save # Translate x y # Rotate (js_num_of_opt (sl_angle v)) #
            SetLineWidth (flow_width_of l) # SetLineCap (flow_line_cap_of l) # ops' @ [Restore]"
    by (auto simp: render_split_def Let_def js_bind_eq_return split: if_splits option.splits)
  then obtain x y ops' where loop: "?loop = js_return ops'" and o: "ops = Save # Translate x y #
      Rotate (js_num_of_opt (sl_angle v)) # SetLineWidth (flow_width_of l) # SetLineCap (flow_line_cap_of l) #
      ops' @ [Restore]" by blast
  from arrow_loop_num_free [OF loop] have "Save \<notin> set ops' \<and> Restore \<notin> set ops'" .
  then have "balanced (Save # ([Translate x y, Rotate (js_num_of_opt (sl_angle v)),
      SetLineWidth (flow_width_of l), SetLineCap (flow_line_cap_of l)] @ ops') @ [Restore])"
    by (intro balanced_block) auto
  then show ?thesis by (simp add: o)
qed (simp add: balanced_def)

lemma render_splits_balanced:
  "render_splits cfg l lsp n i all_length vs = js_return ops \<Longrightarrow> balanced ops"
proof (induction vs arbitrary: i all_length ops)
  case (Cons v vs)
  then show ?case
    by (auto simp: js_bind_eq_return split: prod.splits dest: render_split_balanced)
qed (simp add: balanced_def)

lemma draw_one_arrow_balanced:
  "draw_one_arrow cfg px L = js_return (L', ops) \<Longrightarrow> balanced ops"
proof -
  assume "draw_one_arrow cfg px L = js_return (L', ops)"
  then obtain opss where m: "js_map (render_line cfg) (set_line_space px L) = js_return opss"
    and o: "ops = ClearRect 0 0 (cfg_flow_w cfg) (cfg_flow_h cfg) # concat opss"
    by (auto simp: draw_one_arrow_def Let_def js_bind_eq_return)
  from m have "list_all2 (\<lambda>l y. render_line cfg l = js_return y) (set_line_space px L) opss"
    by (simp add: js_map_return)
  then have "\<forall>y \<in> set opss. balanced y"
    by (induction rule: list_all2_induct)
       (auto simp: render_line_def balanced_def split: if_splits option.splits dest: render_splits_balanced)
  then have "balanced (concat opss)" by (rule balanced_concat)
  then show ?thesis by (simp add: o balanced_def)
qed

end
