(* ===== verification/Static_Draw.thy ===== *)
theory Static_Draw
  imports Segment_Graph Canvas
begin

text \<open>
  The static picture \<open>draw()\<close> paints on the main canvas before it starts the
  flow: \<open>drawImage\<close> (markers and their text labels) and \<open>drawLine\<close>
  (connection bodies and their arrowheads). An image is drawn by its
  \<open>onload\<close> handler, after \<open>drawImage\<close> has returned, so \<open>drawImage\<close>
  returns the commands it issues at once and, separately, the
  \<open>drawImage\<close> call each handler will make. \<open>measureText(text).width\<close> is
  the host's, given as a function of the text. A \<open>text\<close> that is
  \<open>undefined\<close> is printed and measured as the string \<open>undefined\<close>;
  destructuring an \<open>undefined\<close> \<open>style\<close> or reading \<open>points[0].x\<close> of an empty
  polyline throws \<open>TypeError\<close>.
\<close>

record text_style =
  ts_font_weight :: "string option"
  ts_position :: "string option"
  ts_color :: "string option"
  ts_font_family :: "string option"
  ts_font_size :: "real option"
  ts_img_text_split :: "real option"

record text_option =
  to_text :: "string option"
  to_show :: "bool option"
  to_style :: "text_style option"

record img_obj = coordinate +
  img_url :: string
  img_width :: real
  img_height :: real
  img_text_option :: "text_option option"

subsection \<open>drawImage\<close>

text \<open>The default font family, \<open>'\<dots>'\<close> in the source, as its UTF-8 bytes.\<close>

definition default_font_family :: string where
  "default_font_family = map char_of [0xE5, 0xBE, 0xAE, 0xE8, 0xBD, 0xAF, 0xE9, 0x9B, 0x85, 0xE9, 0xBB, 0x91 :: nat]"

definition empty_style :: text_style where
  "empty_style = \<lparr>ts_font_weight = None, ts_position = None, ts_color = None, ts_font_family = None,
     ts_font_size = None, ts_img_text_split = None\<rparr>"

text \<open>\<open>textOption = { show: false, text: '', style: {} }\<close> when the marker has none.\<close>

definition text_option_of :: "img_obj \<Rightarrow> text_option" where
  "text_option_of img = opt_default \<lparr>to_text = Some '''', to_show = Some False, to_style = Some empty_style\<rparr>
     (img_text_option img)"

text \<open>The label's \<open>(fontX, fontY)\<close> for each \<open>position\<close>.\<close>

definition label_pos :: "string \<Rightarrow> real \<Rightarrow> real \<Rightarrow> real \<Rightarrow> real \<Rightarrow> real \<Rightarrow> real \<Rightarrow> real \<Rightarrow> real \<times> real" where
  "label_pos position x y width height text_width img_text_split font_size =
     (let img_center_x = x + width / 2;
          img_center_y = y + height / 2
      in if position = ''top'' then (img_center_x - text_width / 2, y - img_text_split - font_size)
         else if position = ''bottom'' then (img_center_x - text_width / 2, y + height + img_text_split + font_size)
         else if position = ''left'' then (x - text_width - img_text_split, img_center_y - font_size / 2)
         else if position = ''right'' then (x + width + text_width + img_text_split, img_center_y - font_size / 2)
         else (0, 0))"

text \<open>One marker: its label commands now, its \<open>drawImage\<close> call on load.\<close>

definition draw_image_obj :: "(string \<Rightarrow> real) \<Rightarrow> img_obj \<Rightarrow> (canvas_op list \<times> canvas_op) js_result" where
  "draw_image_obj measure_text img =
     (let topt = text_option_of img;
          load = DrawImage (img_url img) (cx img) (cy img) (img_width img) (img_height img)
      in if to_show topt \<noteq> Some True then js_return ([], load)
         else case to_style topt of
                None \<Rightarrow> js_throw TypeError
              | Some style \<Rightarrow>
                  (let label_text = opt_default ''undefined'' (to_text topt);
                       color = opt_default ''#666'' (ts_color style);
                       font_family = opt_default default_font_family (ts_font_family style);
                       font_size = opt_default 13 (ts_font_size style);
                       font_weight = opt_default ''normal'' (ts_font_weight style);
                       position = opt_default ''bottom'' (ts_position style);
                       img_text_split = opt_default 5 (ts_img_text_split style);
                       (font_x, font_y) = label_pos position (cx img) (cy img) (img_width img) (img_height img)
                         (measure_text label_text) img_text_split font_size
                   in js_return ([SetFont font_weight font_size font_family, SetFillStyle (Color color),
                                  FillText label_text font_x font_y], load)))"

definition draw_image :: "(string \<Rightarrow> real) \<Rightarrow> img_obj list \<Rightarrow> (canvas_op list \<times> canvas_op list) js_result" where
  "draw_image measure_text imgs =
     js_bind (js_map (draw_image_obj measure_text) imgs) (\<lambda>rs.
       js_return (Save # concat (map fst rs) @ [Restore], map snd rs))"

subsection \<open>drawLine\<close>

text \<open>
  The arrowhead at the end of a connection, for each \<open>arrowDirection\<close>:
  a rounded triangle with its tip near \<open>(originX, originY)\<close>, as path
  commands. Any other direction gives no path.
\<close>

definition arrow_head :: "string \<Rightarrow> coordinate \<Rightarrow> real \<Rightarrow> real \<Rightarrow> real \<Rightarrow> canvas_op list" where
  "arrow_head direction last_point line_img_split arrow_size arrow_round_size =
     (let s = arrow_size; r = arrow_round_size
      in if direction = ''left'' then
           (let ox = cx last_point - line_img_split / 2; oy = cy last_point
            in [MoveTo (ox + r - 1) (oy + r - 1),
                LineTo (ox + s - r) (oy + s - r),
                QuadraticCurveTo (ox + s) (oy + s) (ox + s) (oy + s - r),
                LineTo (ox + s) (oy - s + r),
                QuadraticCurveTo (ox + s) (oy - s) (ox + s - r) (oy - s + r),
                LineTo (ox + r - 1) (oy - r + 1),
                QuadraticCurveTo ox oy (ox + r - 1) (oy + r - 1)])
         else if direction = ''right'' then
           (let ox = cx last_point + line_img_split / 2; oy = cy last_point
            in [MoveTo (ox - r + 1) (oy + r - 1),
                LineTo (ox - s + r) (oy + s - r),
                QuadraticCurveTo (ox - s) (oy + s) (ox - s) (oy + s - r),
                LineTo (ox - s) (oy - s + r),
                QuadraticCurveTo (ox - s) (oy - s) (ox - s + r) (oy - s + r),
                LineTo (ox - r + 1) (oy - r + 1),
                QuadraticCurveTo ox oy (ox - r + 1) (oy + r - 1)])
         else if direction = ''up'' then
           (let ox = cx last_point; oy = cy last_point - line_img_split / 2
            in [MoveTo (ox + r - 1) (oy + r - 1),
                LineTo (ox + s - r) (oy + s - r),
                QuadraticCurveTo (ox + s) (oy + s) (ox + s - r) (oy + s),
                LineTo (ox - s + r) (oy + s),
                QuadraticCurveTo (ox - s) (oy + s) (ox - s + r) (oy + s - r),
                LineTo (ox - r + 1) (oy + r - 1),
                QuadraticCurveTo ox oy (ox + r - 1) (oy + r - 1)])
         else if direction = ''down'' then
           (let ox = cx last_point; oy = cy last_point + line_img_split / 2
            in [MoveTo (ox + r - 1) (oy - r + 1),
                LineTo (ox + s - r) (oy - s + r),
                QuadraticCurveTo (ox + s) (oy - s) (ox + s - r) (oy - s),
                LineTo (ox - s + r) (oy - s),
                QuadraticCurveTo (ox - s) (oy - s) (ox - s + r) (oy - s + r),
                LineTo (ox - r + 1) (oy - r + 1),
                QuadraticCurveTo ox oy (ox + r - 1) (oy - r + 1)])
         else [])"

definition draw_line_obj :: "line_obj \<Rightarrow> canvas_op list js_result" where
  "draw_line_obj l =
     (let lo = opt_default \<lparr>lo_line_width = None, lo_arrow_size = None, lo_arrow_round_size = None, lo_color = None,
                             lo_line_cap = None, lo_line_join = None, lo_line_img_split = None\<rparr> (line_option l);
          line_width = opt_default 3 (lo_line_width lo);
          arrow_size = opt_default 8 (lo_arrow_size lo);
          arrow_round_size = opt_default 3 (lo_arrow_round_size lo);
          color = opt_default ''#B83538'' (lo_color lo);
          line_cap = opt_default ''round'' (lo_line_cap lo);
          line_join = opt_default ''round'' (lo_line_join lo);
          line_img_split = opt_default 6 (lo_line_img_split lo)
      in case points l of
           [] \<Rightarrow> js_throw TypeError
         | p0 # rest \<Rightarrow>
             js_return ([Save, BeginPath, SetLineWidth line_width, SetStrokeStyle (Color color),
                         SetFillStyle (Color color), SetLineCap line_cap, SetLineJoin line_join,
                         MoveTo (cx p0) (cy p0)]
                        @ map (\<lambda>p. LineTo (cx p) (cy p)) rest
                        @ [Stroke, BeginPath]
                        @ arrow_head (arrow_direction l) (last (points l)) line_img_split arrow_size arrow_round_size
                        @ [Fill, Restore]))"

definition draw_line :: "line_obj list \<Rightarrow> canvas_op list js_result" where
  "draw_line L = js_bind (js_map draw_line_obj L) (\<lambda>opss. js_return (concat opss))"

subsection \<open>A reference for the arrowheads\<close>

text \<open>
  The unit vector of each \<open>arrowDirection\<close> (screen \<open>y\<close> grows downwards), the
  \<open>left\<close> arrowhead as a template in its own frame, and points of path commands.
\<close>

definition dir_vec :: "string \<Rightarrow> (real \<times> real) option" where
  "dir_vec d = (if d = ''left'' then Some (- 1, 0) else if d = ''right'' then Some (1, 0)
     else if d = ''up'' then Some (0, - 1) else if d = ''down'' then Some (0, 1) else None)"

definition arrow_template :: "real \<Rightarrow> real \<Rightarrow> canvas_op list" where
  "arrow_template s r =
     [MoveTo (r - 1) (r - 1), LineTo (s - r) (s - r), QuadraticCurveTo s s s (s - r), LineTo s (- s + r),
      QuadraticCurveTo s (- s) (s - r) (- s + r), LineTo (r - 1) (- r + 1), QuadraticCurveTo 0 0 (r - 1) (r - 1)]"

fun place_op :: "(real \<Rightarrow> real \<Rightarrow> real \<times> real) \<Rightarrow> canvas_op \<Rightarrow> canvas_op" where
  "place_op f (MoveTo a b) = (case f a b of (x, y) \<Rightarrow> MoveTo x y)"
| "place_op f (LineTo a b) = (case f a b of (x, y) \<Rightarrow> LineTo x y)"
| "place_op f (QuadraticCurveTo a b c d) =
     (case f a b of (x, y) \<Rightarrow> case f c d of (x', y') \<Rightarrow> QuadraticCurveTo x y x' y')"
| "place_op f op = op"

definition frame_point :: "coordinate \<Rightarrow> real \<times> real \<Rightarrow> real \<Rightarrow> real \<Rightarrow> real \<times> real" where
  "frame_point p u a b = (cx p - a * fst u + b * \<bar>snd u\<bar>, cy p - a * snd u + b * \<bar>fst u\<bar>)"

definition arrow_origin :: "coordinate \<Rightarrow> real \<Rightarrow> real \<times> real \<Rightarrow> coordinate" where
  "arrow_origin p line_img_split u = \<lparr>cx = cx p + line_img_split / 2 * fst u, cy = cy p + line_img_split / 2 * snd u\<rparr>"

definition arrow_head_ref :: "string \<Rightarrow> coordinate \<Rightarrow> real \<Rightarrow> real \<Rightarrow> real \<Rightarrow> canvas_op list" where
  "arrow_head_ref direction p line_img_split s r =
     (case dir_vec direction of
        None \<Rightarrow> []
      | Some u \<Rightarrow> map (place_op (frame_point (arrow_origin p line_img_split u) u)) (arrow_template s r))"

fun op_points :: "canvas_op \<Rightarrow> (real \<times> real) list" where
  "op_points (MoveTo a b) = [(a, b)]"
| "op_points (LineTo a b) = [(a, b)]"
| "op_points (QuadraticCurveTo a b c d) = [(a, b), (c, d)]"
| "op_points _ = []"

definition path_closed :: "canvas_op list \<Rightarrow> bool" where
  "path_closed ops \<longleftrightarrow>
     (case ops of MoveTo a b # _ \<Rightarrow> (case rev ops of QuadraticCurveTo _ _ c d # _ \<Rightarrow> (c, d) = (a, b) | _ \<Rightarrow> False)
      | _ \<Rightarrow> False)"

subsection \<open>Lemmas\<close>

lemma arrow_head_placed:
  "arrow_head direction p line_img_split s r = arrow_head_ref direction p line_img_split s r"
  by (simp add: arrow_head_def arrow_head_ref_def dir_vec_def arrow_template_def frame_point_def arrow_origin_def
      Let_def algebra_simps)


text \<open>
  C32: the four arrowheads of \<open>drawLine\<close> are one shape: each is the
  template of the \<open>left\<close> arrowhead placed at the tip
  \<open>lastPoint + lineImgSplit / 2 \<cdot> u\<close> in the frame of its direction \<open>u\<close>
  (the back axis \<open>-u\<close> and the axis across it).
\<close>

theorem arrow_head_frame:
  "arrow_head direction p line_img_split s r = arrow_head_ref direction p line_img_split s r"
  by (rule arrow_head_placed)

lemma op_points_place: "op_points (place_op f op) = map (\<lambda>(a, b). f a b) (op_points op)"
  by (cases op) (auto split: prod.splits)

lemma dir_vec_cases:
  "dir_vec d = Some u \<Longrightarrow> u = (- 1, 0) \<or> u = (1, 0) \<or> u = (0, - 1) \<or> u = (0, 1)"
  by (auto simp: dir_vec_def split: if_splits)

lemma frame_point_bounds:
  assumes "u = (- 1, 0) \<or> u = (1, 0) \<or> u = (0, - 1) \<or> u = (0, 1)" "0 \<le> a" "a \<le> s" "\<bar>b\<bar> \<le> s"
  shows "(fst (frame_point p u a b) - cx p) * fst u + (snd (frame_point p u a b) - cy p) * snd u \<le> 0
    \<and> \<bar>fst (frame_point p u a b) - cx p\<bar> \<le> s \<and> \<bar>snd (frame_point p u a b) - cy p\<bar> \<le> s"
  using assms by (auto simp: frame_point_def)

lemma arrow_template_points:
  assumes "1 \<le> r" "r \<le> s"
  shows "\<forall>(a, b) \<in> set (concat (map op_points (arrow_template s r))). 0 \<le> a \<and> a \<le> s \<and> \<bar>b\<bar> \<le> s"
  using assms by (simp add: arrow_template_def)

lemma arrow_template_closed: "path_closed (map (place_op f) (arrow_template s r))"
  by (simp add: arrow_template_def path_closed_def split: prod.splits)

lemma arrow_template_tip: "(0, 0) \<in> set (concat (map op_points (arrow_template s r)))"
  by (simp add: arrow_template_def)

lemma arrow_head_points:
  "dir_vec direction = Some u \<Longrightarrow>
     set (concat (map op_points (arrow_head direction p line_img_split s r))) =
       (\<lambda>(a, b). frame_point (arrow_origin p line_img_split u) u a b) ` set (concat (map op_points (arrow_template s r)))"
  by (simp add: arrow_head_placed arrow_head_ref_def op_points_place image_Union)

text \<open>
  C33: with \<open>1 \<le> arrowRoundSize \<le> arrowSize\<close>, an arrowhead is a closed path
  through its tip, lying behind the tip along its direction and within
  \<open>arrowSize\<close> of it on both axes.
\<close>

theorem arrow_head_shape:
  assumes "dir_vec direction = Some u" "1 \<le> r" "r \<le> s"
  shows "path_closed (arrow_head direction p line_img_split s r)
    \<and> (\<forall>(x, y) \<in> set (concat (map op_points (arrow_head direction p line_img_split s r))).
         (x - cx (arrow_origin p line_img_split u)) * fst u + (y - cy (arrow_origin p line_img_split u)) * snd u \<le> 0
         \<and> \<bar>x - cx (arrow_origin p line_img_split u)\<bar> \<le> s \<and> \<bar>y - cy (arrow_origin p line_img_split u)\<bar> \<le> s)
    \<and> (cx (arrow_origin p line_img_split u), cy (arrow_origin p line_img_split u))
         \<in> set (concat (map op_points (arrow_head direction p line_img_split s r)))"
proof (intro conjI)
  show "path_closed (arrow_head direction p line_img_split s r)"
    using assms(1) by (simp add: arrow_head_placed arrow_head_ref_def arrow_template_closed)
  note pts = arrow_head_points [OF assms(1), of p line_img_split s r]
  have "(\<lambda>(a, b). frame_point (arrow_origin p line_img_split u) u a b) (0, 0)
      = (cx (arrow_origin p line_img_split u), cy (arrow_origin p line_img_split u))"
    by (simp add: frame_point_def)
  with arrow_template_tip [of s r] show "(cx (arrow_origin p line_img_split u), cy (arrow_origin p line_img_split u))
         \<in> set (concat (map op_points (arrow_head direction p line_img_split s r)))"
    unfolding pts by (metis image_eqI)
  let ?O = "arrow_origin p line_img_split u"
  show "\<forall>(x, y) \<in> set (concat (map op_points (arrow_head direction p line_img_split s r))).
         (x - cx ?O) * fst u + (y - cy ?O) * snd u \<le> 0 \<and> \<bar>x - cx ?O\<bar> \<le> s \<and> \<bar>y - cy ?O\<bar> \<le> s"
    unfolding pts
  proof
    fix z assume "z \<in> (\<lambda>(a, b). frame_point ?O u a b) ` set (concat (map op_points (arrow_template s r)))"
    then obtain a b where ab: "(a, b) \<in> set (concat (map op_points (arrow_template s r)))"
      and z: "z = frame_point ?O u a b" by auto
    from ab arrow_template_points [OF assms(2,3)] have "0 \<le> a \<and> a \<le> s \<and> \<bar>b\<bar> \<le> s" by blast
    then have "(fst z - cx ?O) * fst u + (snd z - cy ?O) * snd u \<le> 0 \<and> \<bar>fst z - cx ?O\<bar> \<le> s \<and> \<bar>snd z - cy ?O\<bar> \<le> s"
      unfolding z using frame_point_bounds [OF dir_vec_cases [OF assms(1)]] by blast
    then show "case z of (x, y) \<Rightarrow> (x - cx ?O) * fst u + (y - cy ?O) * snd u \<le> 0 \<and> \<bar>x - cx ?O\<bar> \<le> s \<and> \<bar>y - cy ?O\<bar> \<le> s"
      by (simp add: case_prod_beta)
  qed
qed

lemma draw_image_obj_result:
  "draw_image_obj m img = js_throw TypeError \<or> (\<exists>r. draw_image_obj m img = js_return r)"
  by (auto simp: draw_image_obj_def Let_def split: option.splits prod.splits)

lemma draw_image_obj_throw:
  "draw_image_obj m img = js_throw TypeError \<longleftrightarrow>
     to_show (text_option_of img) = Some True \<and> to_style (text_option_of img) = None"
  by (auto simp: draw_image_obj_def Let_def split: option.splits prod.splits)

text \<open>
  C35: \<open>drawImage\<close> throws \<open>TypeError\<close> exactly when some marker shows its
  label but has no \<open>style\<close>; otherwise it returns.
\<close>

theorem draw_image_throws:
  "draw_image m imgs = js_throw TypeError \<longleftrightarrow>
     (\<exists>img \<in> set imgs. to_show (text_option_of img) = Some True \<and> to_style (text_option_of img) = None)"
proof -
  have "draw_image m imgs = js_throw TypeError \<longleftrightarrow> js_map (draw_image_obj m) imgs = js_throw TypeError"
    using js_map_returns [of imgs "draw_image_obj m"] draw_image_obj_result [of m]
    by (cases "js_map (draw_image_obj m) imgs") (auto simp: draw_image_def js_bind_def split: sum.splits)
  also have "\<dots> \<longleftrightarrow> (\<exists>img \<in> set imgs. draw_image_obj m img = js_throw TypeError)"
    using draw_image_obj_result by (intro js_map_throw_iff) blast
  finally show ?thesis by (simp add: draw_image_obj_throw)
qed


lemma draw_line_obj_result:
  "draw_line_obj l = js_throw TypeError \<and> points l = [] \<or> (\<exists>ops. draw_line_obj l = js_return ops \<and> balanced ops)"
proof (cases "points l")
  case (Cons p0 rest)
  have "balanced (Save # ([BeginPath, SetLineWidth lw, SetStrokeStyle (Color c), SetFillStyle (Color c),
        SetLineCap lc, SetLineJoin lj, MoveTo (cx p0) (cy p0)] @ map (\<lambda>p. LineTo (cx p) (cy p)) rest
        @ [Stroke, BeginPath] @ arrow_head d lp sp s r @ [Fill]) @ [Restore])" for lw c lc lj d lp sp s r
    by (rule balanced_block) (auto simp: arrow_head_def Let_def)
  with Cons show ?thesis by (simp add: draw_line_obj_def Let_def)
qed (simp add: draw_line_obj_def Let_def)

lemma draw_line_obj_balanced: "draw_line_obj l = js_return ops \<Longrightarrow> balanced ops"
  using draw_line_obj_result [of l] by auto

lemma draw_line_obj_throw: "draw_line_obj l = js_throw TypeError \<longleftrightarrow> points l = []"
  using draw_line_obj_result [of l] by (auto simp: draw_line_obj_def)

text \<open>
  C34: \<open>drawLine\<close> throws \<open>TypeError\<close> exactly when some connection has no
  points (\<open>points[0].x\<close>), and returns otherwise.
\<close>

theorem draw_line_throws:
  "(draw_line L = js_throw TypeError \<longleftrightarrow> (\<exists>l \<in> set L. points l = []))
   \<and> ((\<forall>l \<in> set L. points l \<noteq> []) \<longrightarrow> (\<exists>ops. draw_line L = js_return ops))"
proof
  have r: "\<forall>l \<in> set L. draw_line_obj l = js_throw TypeError \<or> (\<exists>ops. draw_line_obj l = js_return ops)"
    using draw_line_obj_result by blast
  have "draw_line L = js_throw TypeError \<longleftrightarrow> js_map draw_line_obj L = js_throw TypeError"
    using js_map_result [OF r] by (auto simp: draw_line_def)
  also have "\<dots> \<longleftrightarrow> (\<exists>l \<in> set L. points l = [])"
    using js_map_throw_iff [OF r] by (simp add: draw_line_obj_throw)
  finally show "draw_line L = js_throw TypeError \<longleftrightarrow> (\<exists>l \<in> set L. points l = [])" .
  show "(\<forall>l \<in> set L. points l \<noteq> []) \<longrightarrow> (\<exists>ops. draw_line L = js_return ops)"
  proof
    assume "\<forall>l \<in> set L. points l \<noteq> []"
    then have "\<exists>opss. js_map draw_line_obj L = js_return opss"
      using draw_line_obj_result by (intro js_map_returns) blast
    then show "\<exists>ops. draw_line L = js_return ops" by (auto simp: draw_line_def)
  qed
qed

lemma draw_line_balanced: "draw_line L = js_return ops \<Longrightarrow> balanced ops"
proof -
  assume "draw_line L = js_return ops"
  then obtain opss where m: "js_map draw_line_obj L = js_return opss" and o: "ops = concat opss"
    by (auto simp: draw_line_def js_bind_eq_return)
  from m have "list_all2 (\<lambda>l y. draw_line_obj l = js_return y) L opss" by (simp add: js_map_return)
  then have "\<forall>y \<in> set opss. balanced y"
    by (induction rule: list_all2_induct) (auto dest: draw_line_obj_balanced)
  then show ?thesis by (simp add: o balanced_concat)
qed

lemma draw_image_obj_free:
  "draw_image_obj m img = js_return (ops, load) \<Longrightarrow> Save \<notin> set ops \<and> Restore \<notin> set ops"
  by (auto simp: draw_image_obj_def Let_def split: if_splits option.splits prod.splits)

lemma draw_image_balanced: "draw_image m imgs = js_return (ops, loads) \<Longrightarrow> balanced ops"
proof -
  assume "draw_image m imgs = js_return (ops, loads)"
  then obtain rs where m: "js_map (draw_image_obj m) imgs = js_return rs" and o: "ops = Save # concat (map fst rs) @ [Restore]"
    by (auto simp: draw_image_def js_bind_eq_return)
  from m have "list_all2 (\<lambda>i y. draw_image_obj m i = js_return y) imgs rs" by (simp add: js_map_return)
  then have "\<forall>y \<in> set rs. Save \<notin> set (fst y) \<and> Restore \<notin> set (fst y)"
    by (induction rule: list_all2_induct) (use draw_image_obj_free in fastforce)+
  then show ?thesis unfolding o by (intro balanced_block) auto
qed

text \<open>
  C36: where \<open>drawImage\<close> puts a label: centred above or below the marker at
  \<open>imgTextSplit + fontSize\<close> from it, \<open>imgTextSplit\<close> to the left of it, and
  \<open>textWidth + imgTextSplit\<close> to the right of it.
\<close>

theorem draw_image_label_sides:
  assumes "img_text_option img = Some \<lparr>to_text = Some t, to_show = Some True, to_style = Some st\<rparr>"
  shows "\<exists>fx fy. draw_image_obj m img = js_return
      ([SetFont (opt_default ''normal'' (ts_font_weight st)) (opt_default 13 (ts_font_size st))
          (opt_default default_font_family (ts_font_family st)),
        SetFillStyle (Color (opt_default ''#666'' (ts_color st))), FillText t fx fy],
       DrawImage (img_url img) (cx img) (cy img) (img_width img) (img_height img))
    \<and> (ts_position st = Some ''right'' \<longrightarrow> fx - (cx img + img_width img) = m t + opt_default 5 (ts_img_text_split st))
    \<and> (ts_position st = Some ''left'' \<longrightarrow> cx img - (fx + m t) = opt_default 5 (ts_img_text_split st))
    \<and> ((ts_position st = None \<or> ts_position st = Some ''bottom'') \<longrightarrow>
         fy - (cy img + img_height img) = opt_default 5 (ts_img_text_split st) + opt_default 13 (ts_font_size st)
         \<and> fx + m t / 2 = cx img + img_width img / 2)
    \<and> (ts_position st = Some ''top'' \<longrightarrow>
         cy img - fy = opt_default 5 (ts_img_text_split st) + opt_default 13 (ts_font_size st)
         \<and> fx + m t / 2 = cx img + img_width img / 2)"
proof -
  let ?pos = "opt_default ''bottom'' (ts_position st)"
  let ?sp = "opt_default 5 (ts_img_text_split st)"
  let ?fs = "opt_default 13 (ts_font_size st)"
  define lp where "lp = label_pos ?pos (cx img) (cy img) (img_width img) (img_height img) (m t) ?sp ?fs"
  have d: "draw_image_obj m img = js_return
      ([SetFont (opt_default ''normal'' (ts_font_weight st)) ?fs (opt_default default_font_family (ts_font_family st)),
        SetFillStyle (Color (opt_default ''#666'' (ts_color st))), FillText t (fst lp) (snd lp)],
       DrawImage (img_url img) (cx img) (cy img) (img_width img) (img_height img))"
    using assms by (simp add: draw_image_obj_def text_option_of_def opt_default_def Let_def lp_def case_prod_beta)
  have r: "ts_position st = Some ''right'' \<Longrightarrow> fst lp - (cx img + img_width img) = m t + ?sp"
    by (simp add: lp_def label_pos_def opt_default_def Let_def)
  have l: "ts_position st = Some ''left'' \<Longrightarrow> cx img - (fst lp + m t) = ?sp"
    by (simp add: lp_def label_pos_def opt_default_def Let_def)
  have b: "ts_position st = None \<or> ts_position st = Some ''bottom'' \<Longrightarrow>
      snd lp - (cy img + img_height img) = ?sp + ?fs \<and> fst lp + m t / 2 = cx img + img_width img / 2"
    by (auto simp: lp_def label_pos_def opt_default_def Let_def)
  have t: "ts_position st = Some ''top'' \<Longrightarrow> cy img - snd lp = ?sp + ?fs \<and> fst lp + m t / 2 = cx img + img_width img / 2"
    by (simp add: lp_def label_pos_def opt_default_def Let_def)
  show ?thesis using d r l b t by blast
qed

subsection \<open>The loads drawImage schedules\<close>

lemma draw_image_obj_load:
  "draw_image_obj m img = js_return r \<Longrightarrow> snd r = DrawImage (img_url img) (cx img) (cy img) (img_width img) (img_height img)"
  by (auto simp: draw_image_obj_def Let_def split: if_splits option.splits prod.splits)

lemma draw_image_loads:
  assumes "draw_image m imgs = js_return (ops, loads)"
  shows "loads = map (\<lambda>img. DrawImage (img_url img) (cx img) (cy img) (img_width img) (img_height img)) imgs"
proof -
  obtain rs where rs: "js_map (draw_image_obj m) imgs = js_return rs" and l: "loads = map snd rs"
    using assms by (auto simp: draw_image_def js_bind_eq_return)
  from rs have "list_all2 (\<lambda>x y. draw_image_obj m x = js_return y) imgs rs" by (simp add: js_map_return)
  then show ?thesis
    unfolding l by (induction rule: list_all2_induct) (simp_all add: draw_image_obj_load)
qed

end
