(* ===== verification/Scheduler.thy ===== *)
theory Scheduler
  imports Flow_Render Static_Draw
begin

text \<open>
  The animation scheduler of \<open>CreateImgLineFlow\<close> (spec section 4.4) and the
  public \<open>draw()\<close> and \<open>clear()\<close>: the object's time-varying state, the
  host's \<open>requestAnimationFrame\<close> and \<open>cancelAnimationFrame\<close>, the
  \<open>drawFrame\<close> closure of \<open>drawFlow\<close> with its throttling, and the image
  \<open>onload\<close> handlers \<open>drawImage\<close> leaves behind. The host's pending callbacks
  are a list of (handle, closure) pairs; each call of \<open>drawFlow\<close> creates a
  new \<open>drawFrame\<close> closure with its own \<open>lastTime\<close>, kept at the closure's
  index in \<open>ss_last_time\<close>. Handles start at \<open>1\<close>, as the host's do, so a
  handle is truthy. A host event is a call of \<open>draw()\<close>, the firing of a
  pending frame callback, a call of \<open>clear()\<close>, or an image load;
  \<open>sched_reachable\<close> is the set of states a sequence of them reaches from the
  constructed object, with non-decreasing event times.
\<close>

record sched_state =
  ss_lines :: "line_obj list"
  ss_img_data :: "img_obj list"
  ss_text_width :: "string \<Rightarrow> real"
  ss_arrow_run_px :: jsnum
  ss_arrow_animation :: "nat option"
  ss_last_time :: "real list"
  ss_pending :: "(nat \<times> nat) list"
  ss_next_handle :: nat
  ss_clock :: real
  ss_canvas_w :: real
  ss_canvas_h :: real
  ss_canvas :: "canvas_op list"
  ss_flow_canvas :: "canvas_op list"
  ss_image_loads :: "canvas_op list"
  ss_errors :: "js_error list"

text \<open>The constructor: fields set, then \<open>init()\<close>; no frame is scheduled.\<close>

definition construct ::
  "real \<Rightarrow> real \<Rightarrow> (string \<Rightarrow> real) \<Rightarrow> img_obj list \<Rightarrow> line_obj list \<Rightarrow> sched_state js_result" where
  "construct cw ch tw imgs L =
     js_bind (init_lines L) (\<lambda>L'. js_return
       \<lparr>ss_lines = L', ss_img_data = imgs, ss_text_width = tw, ss_arrow_run_px = Num 0, ss_arrow_animation = None, ss_last_time = [],
        ss_pending = [], ss_next_handle = 1, ss_clock = 0, ss_canvas_w = cw, ss_canvas_h = ch,
        ss_canvas = [], ss_flow_canvas = [], ss_image_loads = [], ss_errors = []\<rparr>)"

text \<open>\<open>requestAnimationFrame(() => drawFrame())\<close> for closure \<open>k\<close>.\<close>

definition request_animation_frame :: "nat \<Rightarrow> sched_state \<Rightarrow> nat \<times> sched_state" where
  "request_animation_frame k s =
     (ss_next_handle s,
      s\<lparr>ss_pending := ss_pending s @ [(ss_next_handle s, k)], ss_next_handle := Suc (ss_next_handle s)\<rparr>)"

definition cancel_animation_frame :: "nat \<Rightarrow> sched_state \<Rightarrow> sched_state" where
  "cancel_animation_frame h s = s\<lparr>ss_pending := filter (\<lambda>(h', k). h' \<noteq> h) (ss_pending s)\<rparr>"

text \<open>
  \<open>nowTime - lastTime < timeout\<close> with \<open>timeout = 1000 / fps\<close>; for
  \<open>fps = 0\<close> the timeout is \<open>Infinity\<close> and the frame is never due.
\<close>

definition frame_due :: "real \<Rightarrow> real \<Rightarrow> real \<Rightarrow> bool" where
  "frame_due fps now last_time \<longleftrightarrow> (if fps = 0 then False else \<not> (now - last_time < 1000 / fps))"

definition advance_counter :: "flow_config \<Rightarrow> jsnum \<Rightarrow> jsnum" where
  "advance_counter cfg px = js_rem (js_add px (Num 1)) (Num (cfg_step_size cfg + cfg_flow_length cfg))"

text \<open>
  One run of \<open>drawFrame\<close> of closure \<open>k\<close> at time \<open>now\<close>. A frame that
  throws leaves what ran before the throw: the next frame requested, the
  counter advanced, \<open>lineSpace\<close> reset, the flow canvas cleared; the error is
  recorded and the loop goes on (the next frame is already requested). A
  frame whose loop never ends is \<open>None\<close>.
\<close>

definition draw_frame :: "flow_config \<Rightarrow> nat \<Rightarrow> real \<Rightarrow> sched_state \<Rightarrow> sched_state option" where
  "draw_frame cfg k now s =
     (case request_animation_frame k s of (h, s1) \<Rightarrow>
        let s2 = s1\<lparr>ss_arrow_animation := Some h, ss_clock := now\<rparr>
        in if \<not> frame_due (cfg_fps cfg) now (ss_last_time s2 ! k) then Some s2
           else
             (let px = advance_counter cfg (ss_arrow_run_px s2);
                  s3 = s2\<lparr>ss_last_time := (ss_last_time s2)[k := now], ss_arrow_run_px := px\<rparr>
              in case draw_one_arrow cfg px (ss_lines s3) of
                   None \<Rightarrow> None
                 | Some (Inl e) \<Rightarrow>
                     Some (s3\<lparr>ss_lines := set_line_space px (ss_lines s3),
                              ss_flow_canvas := canvas_run (cfg_flow_w cfg) (cfg_flow_h cfg) (ss_flow_canvas s3)
                                [ClearRect 0 0 (cfg_flow_w cfg) (cfg_flow_h cfg)],
                              ss_errors := ss_errors s3 @ [e]\<rparr>)
                 | Some (Inr (L', ops)) \<Rightarrow>
                     Some (s3\<lparr>ss_lines := L',
                              ss_flow_canvas := canvas_run (cfg_flow_w cfg) (cfg_flow_h cfg) (ss_flow_canvas s3) ops\<rparr>)))"

text \<open>\<open>drawFlow()\<close>: a new closure with \<open>lastTime = 0\<close>, run once at once.\<close>

definition draw_flow :: "flow_config \<Rightarrow> real \<Rightarrow> sched_state \<Rightarrow> sched_state option" where
  "draw_flow cfg now s =
     draw_frame cfg (length (ss_last_time s)) now (s\<lparr>ss_last_time := ss_last_time s @ [0]\<rparr>)"

text \<open>
  \<open>draw()\<close>: \<open>drawImage\<close>, \<open>drawLine\<close> and \<open>drawFlow\<close> in turn. The labels and
  lines go on the main canvas; each marker's \<open>drawImage\<close> call waits for its
  image to load. A throw ends \<open>draw()\<close> there: the error is recorded and the
  flow is not started.
\<close>

definition draw :: "flow_config \<Rightarrow> real \<Rightarrow> sched_state \<Rightarrow> sched_state option" where
  "draw cfg now s =
     (case draw_image (ss_text_width s) (ss_img_data s) of
        None \<Rightarrow> None
      | Some (Inl e) \<Rightarrow> Some (s\<lparr>ss_errors := ss_errors s @ [e]\<rparr>)
      | Some (Inr (ops, loads)) \<Rightarrow>
          (let s1 = s\<lparr>ss_canvas := canvas_run (ss_canvas_w s) (ss_canvas_h s) (ss_canvas s) ops,
                      ss_image_loads := ss_image_loads s @ loads\<rparr>
           in case draw_line (ss_lines s1) of
                None \<Rightarrow> None
              | Some (Inl e) \<Rightarrow> Some (s1\<lparr>ss_errors := ss_errors s1 @ [e]\<rparr>)
              | Some (Inr ops') \<Rightarrow>
                  draw_flow cfg now (s1\<lparr>ss_canvas := canvas_run (ss_canvas_w s1) (ss_canvas_h s1) (ss_canvas s1) ops'\<rparr>)))"

text \<open>The host runs the \<open>onload\<close> handler of the next loaded image.\<close>

definition image_load :: "sched_state \<Rightarrow> sched_state" where
  "image_load s =
     (case ss_image_loads s of
        [] \<Rightarrow> s
      | op # rest \<Rightarrow> s\<lparr>ss_canvas := canvas_run (ss_canvas_w s) (ss_canvas_h s) (ss_canvas s) [op],
                      ss_image_loads := rest\<rparr>)"

text \<open>\<open>clear()\<close>: cancel the recorded frame, if any, and clear both canvases.\<close>

definition clear :: "flow_config \<Rightarrow> sched_state \<Rightarrow> sched_state" where
  "clear cfg s =
     (let s1 = (case ss_arrow_animation s of
                  Some h \<Rightarrow> if h \<noteq> 0 then (cancel_animation_frame h s)\<lparr>ss_arrow_animation := None\<rparr> else s
                | None \<Rightarrow> s)
      in s1\<lparr>ss_canvas := canvas_run (ss_canvas_w s1) (ss_canvas_h s1) (ss_canvas s1)
                          [ClearRect 0 0 (ss_canvas_w s1) (ss_canvas_h s1)],
            ss_flow_canvas := canvas_run (cfg_flow_w cfg) (cfg_flow_h cfg) (ss_flow_canvas s1)
                          [ClearRect 0 0 (cfg_flow_w cfg) (cfg_flow_h cfg)]\<rparr>)"

text \<open>
  The host fires pending callback \<open>h\<close>: it leaves the pending list and its
  closure runs. A handle that is not pending never fires.
\<close>

definition fire :: "flow_config \<Rightarrow> nat \<Rightarrow> real \<Rightarrow> sched_state \<Rightarrow> sched_state option" where
  "fire cfg h now s =
     (case map_of (ss_pending s) h of
        None \<Rightarrow> Some s
      | Some k \<Rightarrow> draw_frame cfg k now (cancel_animation_frame h s))"

datatype sched_event = Draw real | Fire nat real | Clear | ImageLoad

fun event_time :: "sched_state \<Rightarrow> sched_event \<Rightarrow> real" where
  "event_time s (Draw t) = t"
| "event_time s (Fire h t) = t"
| "event_time s Clear = ss_clock s"
| "event_time s ImageLoad = ss_clock s"

fun sched_apply :: "flow_config \<Rightarrow> sched_state \<Rightarrow> sched_event \<Rightarrow> sched_state option" where
  "sched_apply cfg s (Draw t) = draw cfg t s"
| "sched_apply cfg s (Fire h t) = fire cfg h t s"
| "sched_apply cfg s Clear = Some (clear cfg s)"
| "sched_apply cfg s ImageLoad = Some (image_load s)"

text \<open>A sequence of events; \<open>None\<close> once one of them never returns.\<close>

fun sched_run :: "flow_config \<Rightarrow> sched_state \<Rightarrow> sched_event list \<Rightarrow> sched_state option" where
  "sched_run cfg s [] = Some s"
| "sched_run cfg s (e # es) = Option.bind (sched_apply cfg s e) (\<lambda>s'. sched_run cfg s' es)"

inductive sched_reachable :: "flow_config \<Rightarrow> sched_state \<Rightarrow> bool" for cfg where
  init: "construct cw ch tw imgs L = js_return s \<Longrightarrow> sched_reachable cfg s"
| step: "sched_reachable cfg s \<Longrightarrow> ss_clock s \<le> event_time s e \<Longrightarrow> sched_apply cfg s e = Some s'
           \<Longrightarrow> sched_reachable cfg s'"

subsection \<open>Invariants\<close>

text \<open>
  The invariant of reachable states: the counter is a number in
  \<open>[0, stepSize + flowLength)\<close>, every pending callback names an existing
  closure and a handle already issued, handles are distinct, every connection
  can be drawn, and no closure's \<open>lastTime\<close> lies ahead of the clock.
\<close>

definition sched_inv :: "flow_config \<Rightarrow> sched_state \<Rightarrow> bool" where
  "sched_inv cfg s \<longleftrightarrow>
     (case ss_arrow_run_px s of Num r \<Rightarrow> 0 \<le> r \<and> r < cfg_step_size cfg + cfg_flow_length cfg | NaN \<Rightarrow> False)
     \<and> (\<forall>(h, k) \<in> set (ss_pending s). k < length (ss_last_time s) \<and> h < ss_next_handle s)
     \<and> distinct (map fst (ss_pending s)) \<and> 0 < ss_next_handle s
     \<and> (\<forall>l \<in> set (ss_lines s). frame_ready l)
     \<and> 0 \<le> ss_clock s \<and> (\<forall>t \<in> set (ss_last_time s). t \<le> ss_clock s)"

text \<open>At most one callback is pending, and it is the one \<open>arrowAnimation\<close> records.\<close>

definition one_loop :: "sched_state \<Rightarrow> bool" where
  "one_loop s \<longleftrightarrow> 0 < ss_next_handle s \<and> (\<forall>h \<in> set_option (ss_arrow_animation s). 0 < h) \<and>
     (case ss_pending s of [] \<Rightarrow> True | [(h, k)] \<Rightarrow> ss_arrow_animation s = Some h | _ \<Rightarrow> False)"

text \<open>
  The states reached when \<open>drawFlow\<close> only starts while no frame is pending,
  i.e. \<open>draw()\<close> is called only on a stopped object.
\<close>

inductive sched_reachable1 :: "flow_config \<Rightarrow> sched_state \<Rightarrow> bool" for cfg where
  init: "construct cw ch tw imgs L = js_return s \<Longrightarrow> sched_reachable1 cfg s"
| step: "sched_reachable1 cfg s \<Longrightarrow> ss_clock s \<le> event_time s e \<Longrightarrow> (\<forall>t. e = Draw t \<longrightarrow> ss_pending s = [])
           \<Longrightarrow> sched_apply cfg s e = Some s' \<Longrightarrow> sched_reachable1 cfg s'"

text \<open>The part of the state the flow layer reads and writes.\<close>

definition flow_part ::
  "sched_state \<Rightarrow> line_obj list \<times> jsnum \<times> nat option \<times> real list \<times> (nat \<times> nat) list \<times> nat \<times> real \<times> canvas_op list" where
  "flow_part s = (ss_lines s, ss_arrow_run_px s, ss_arrow_animation s, ss_last_time s, ss_pending s,
     ss_next_handle s, ss_clock s, ss_flow_canvas s)"

subsection \<open>Lemmas on one frame\<close>

lemma draw_one_arrow_lines:
  "draw_one_arrow cfg px L = js_return (L', ops) \<Longrightarrow> L' = set_line_space px L"
  by (auto simp: draw_one_arrow_def Let_def js_bind_eq_return)

lemma draw_frame_cases:
  assumes "draw_frame cfg k now s = Some s'"
  shows "ss_pending s' = ss_pending s @ [(ss_next_handle s, k)] \<and> ss_next_handle s' = Suc (ss_next_handle s)
    \<and> ss_arrow_animation s' = Some (ss_next_handle s) \<and> ss_clock s' = now
    \<and> ss_canvas s' = ss_canvas s \<and> ss_canvas_w s' = ss_canvas_w s \<and> ss_canvas_h s' = ss_canvas_h s
    \<and> ss_image_loads s' = ss_image_loads s
    \<and> (\<not> frame_due (cfg_fps cfg) now (ss_last_time s ! k) \<and> ss_last_time s' = ss_last_time s
         \<and> ss_arrow_run_px s' = ss_arrow_run_px s \<and> ss_lines s' = ss_lines s \<and> ss_flow_canvas s' = ss_flow_canvas s
         \<and> ss_errors s' = ss_errors s
       \<or> frame_due (cfg_fps cfg) now (ss_last_time s ! k) \<and> ss_last_time s' = (ss_last_time s)[k := now]
         \<and> ss_arrow_run_px s' = advance_counter cfg (ss_arrow_run_px s)
         \<and> ss_lines s' = set_line_space (advance_counter cfg (ss_arrow_run_px s)) (ss_lines s)
         \<and> (\<exists>ops. ss_flow_canvas s' = canvas_run (cfg_flow_w cfg) (cfg_flow_h cfg) (ss_flow_canvas s) ops))"
proof (cases "frame_due (cfg_fps cfg) now (ss_last_time s ! k)")
  case False
  with assms show ?thesis
    by (auto simp: draw_frame_def request_animation_frame_def Let_def)
next
  case True
  define px where "px = advance_counter cfg (ss_arrow_run_px s)"
  show ?thesis
  proof (cases "draw_one_arrow cfg px (ss_lines s)")
    case None
    with assms True show ?thesis
      by (simp add: draw_frame_def request_animation_frame_def Let_def px_def)
  next
    case (Some r)
    then show ?thesis
    proof (cases r)
      case (Inl e)
      with Some assms True show ?thesis
        by (auto simp: draw_frame_def request_animation_frame_def Let_def px_def)
    next
      case (Inr p)
      obtain L' ops where p: "p = (L', ops)" by (cases p)
      with Some Inr have "L' = set_line_space px (ss_lines s)"
        by (intro draw_one_arrow_lines [of cfg px _ _ ops]) simp
      with Some Inr p assms True show ?thesis
        by (auto simp: draw_frame_def request_animation_frame_def Let_def px_def)
    qed
  qed
qed
lemma draw_cases:
  assumes "draw cfg now s = Some s'"
  shows "flow_part s' = flow_part s \<or> (\<exists>s1. flow_part s1 = flow_part s \<and> draw_flow cfg now s1 = Some s')"
  using assms by (auto simp: draw_def flow_part_def Let_def split: option.splits sum.splits prod.splits)

lemma image_load_flow_part [simp]: "flow_part (image_load s) = flow_part s"
  by (simp add: image_load_def flow_part_def split: list.splits)

lemma sched_inv_flow_part: "flow_part s = flow_part t \<Longrightarrow> sched_inv cfg s = sched_inv cfg t"
  by (simp add: sched_inv_def flow_part_def)

lemma one_loop_flow_part:
  assumes "flow_part s = flow_part t"
  shows "one_loop s = one_loop t"
proof -
  have e: "ss_pending s = ss_pending t" "ss_arrow_animation s = ss_arrow_animation t"
    "ss_next_handle s = ss_next_handle t"
    using assms by (simp_all add: flow_part_def)
  show ?thesis unfolding one_loop_def e ..
qed

lemma clear_canvas [simp]: "canvas_run w h c [ClearRect 0 0 w h] = []"
  by (simp add: canvas_run_def canvas_apply_def)

lemma clear_fields [simp]:
  "ss_canvas (clear cfg s) = []" "ss_flow_canvas (clear cfg s) = []"
  "ss_lines (clear cfg s) = ss_lines s" "ss_arrow_run_px (clear cfg s) = ss_arrow_run_px s"
  "ss_last_time (clear cfg s) = ss_last_time s" "ss_next_handle (clear cfg s) = ss_next_handle s"
  "ss_clock (clear cfg s) = ss_clock s" "ss_image_loads (clear cfg s) = ss_image_loads s"
  "ss_canvas_w (clear cfg s) = ss_canvas_w s" "ss_canvas_h (clear cfg s) = ss_canvas_h s"
  by (simp_all add: clear_def Let_def cancel_animation_frame_def split: option.splits)

lemma clear_pending: "set (ss_pending (clear cfg s)) \<subseteq> set (ss_pending s)"
  "distinct (map fst (ss_pending s)) \<Longrightarrow> distinct (map fst (ss_pending (clear cfg s)))"
  by (auto simp: clear_def Let_def cancel_animation_frame_def distinct_map_filter split: option.splits)

lemma cancel_fields [simp]:
  "ss_lines (cancel_animation_frame h s) = ss_lines s"
  "ss_arrow_run_px (cancel_animation_frame h s) = ss_arrow_run_px s"
  "ss_last_time (cancel_animation_frame h s) = ss_last_time s"
  "ss_next_handle (cancel_animation_frame h s) = ss_next_handle s"
  "ss_clock (cancel_animation_frame h s) = ss_clock s"
  "ss_flow_canvas (cancel_animation_frame h s) = ss_flow_canvas s"
  "ss_canvas (cancel_animation_frame h s) = ss_canvas s"
  "ss_errors (cancel_animation_frame h s) = ss_errors s"
  "ss_pending (cancel_animation_frame h s) = filter (\<lambda>(h', k). h' \<noteq> h) (ss_pending s)"
  by (simp_all add: cancel_animation_frame_def)

lemma fire_pending: "map_of (ss_pending s) h = Some k \<Longrightarrow> (h, k) \<in> set (ss_pending s)"
  by (rule map_of_SomeD)

lemma advance_counter_bounds:
  assumes "0 \<le> r" "r < cfg_step_size cfg + cfg_flow_length cfg"
  shows "\<exists>r'. advance_counter cfg (Num r) = Num r' \<and> 0 \<le> r' \<and> r' < cfg_step_size cfg + cfg_flow_length cfg"
  using js_rem_nonneg_bounds [of "r + 1" "cfg_step_size cfg + cfg_flow_length cfg"] assms
  by (simp add: advance_counter_def)

lemma frame_ready_set_line_space:
  "\<forall>l \<in> set L. frame_ready l \<Longrightarrow> \<forall>l \<in> set (set_line_space px L). frame_ready l"
  by (auto simp: set_line_space_def frame_ready_set_space)

lemma draw_frame_inv:
  assumes "sched_inv cfg s" "k < length (ss_last_time s)" "ss_clock s \<le> now"
    "draw_frame cfg k now s = Some s'"
  shows "sched_inv cfg s'"
proof -
  note c = draw_frame_cases [OF assms(4)]
  obtain r where r: "ss_arrow_run_px s = Num r" "0 \<le> r" "r < cfg_step_size cfg + cfg_flow_length cfg"
    using assms(1) unfolding sched_inv_def by (auto split: jsnum.splits)
  have px: "case ss_arrow_run_px s' of Num r \<Rightarrow> 0 \<le> r \<and> r < cfg_step_size cfg + cfg_flow_length cfg | NaN \<Rightarrow> False"
  proof (cases "ss_arrow_run_px s' = ss_arrow_run_px s")
    case True
    with r show ?thesis by simp
  next
    case False
    with c r have "ss_arrow_run_px s' = advance_counter cfg (Num r)" by auto
    with advance_counter_bounds [OF r(2,3)] show ?thesis by auto
  qed
  have old: "\<forall>t \<in> set (ss_last_time s). t \<le> now"
    using assms(1,3) by (auto simp: sched_inv_def)
  have lt: "\<forall>t \<in> set (ss_last_time s'). t \<le> now"
  proof
    fix t assume "t \<in> set (ss_last_time s')"
    with c have "t \<in> set (ss_last_time s) \<or> t = now"
      using set_update_subset_insert [of "ss_last_time s" k now] by auto
    with old show "t \<le> now" by auto
  qed
  show ?thesis
    using c assms(1-3) px lt frame_ready_set_line_space [of "ss_lines s"] unfolding sched_inv_def
    by (auto dest: bspec)
qed

lemma construct_inv:
  "construct cw ch tw imgs L = js_return s \<Longrightarrow> 0 < cfg_step_size cfg + cfg_flow_length cfg \<Longrightarrow> sched_inv cfg s"
  by (auto simp: construct_def sched_inv_def js_bind_eq_return dest: init_lines_frame_ready)

lemma sched_apply_inv:
  assumes "sched_inv cfg s" "ss_clock s \<le> event_time s e" "sched_apply cfg s e = Some s'"
  shows "sched_inv cfg s'"
proof (cases e)
  case (Draw t)
  have df: "sched_inv cfg s2" if "sched_inv cfg s1" "ss_clock s1 \<le> t" "draw_flow cfg t s1 = Some s2" for s1 s2
  proof -
    let ?s = "s1\<lparr>ss_last_time := ss_last_time s1 @ [0]\<rparr>"
    have "sched_inv cfg ?s" using that(1) by (auto simp: sched_inv_def)
    with that show ?thesis by (auto simp: draw_flow_def intro: draw_frame_inv)
  qed
  from assms Draw have "draw cfg t s = Some s'" by simp
  from draw_cases [OF this] show ?thesis
  proof
    assume "flow_part s' = flow_part s"
    with assms(1) show ?thesis using sched_inv_flow_part [of s' s cfg] by simp
  next
    assume "\<exists>s1. flow_part s1 = flow_part s \<and> draw_flow cfg t s1 = Some s'"
    then obtain s1 where f: "flow_part s1 = flow_part s" and d: "draw_flow cfg t s1 = Some s'" by blast
    from f assms(1) have "sched_inv cfg s1" using sched_inv_flow_part [of s1 s cfg] by simp
    moreover from f assms(2) Draw have "ss_clock s1 \<le> t" by (simp add: flow_part_def)
    ultimately show ?thesis using d by (rule df)
  qed
next
  case (Fire h t)
  show ?thesis
  proof (cases "map_of (ss_pending s) h")
    case None
    with assms Fire show ?thesis by (simp add: fire_def)
  next
    case (Some k)
    have "sched_inv cfg (cancel_animation_frame h s)"
      using assms(1) by (auto simp: sched_inv_def distinct_map_filter)
    moreover have "k < length (ss_last_time s)"
      using assms(1) fire_pending [OF Some] by (auto simp: sched_inv_def)
    ultimately show ?thesis
      using assms Fire Some by (auto simp: fire_def intro: draw_frame_inv)
  qed
next
  case Clear
  with assms show ?thesis
    using clear_pending [where cfg = cfg and s = s] by (auto simp: sched_inv_def split: jsnum.splits) blast+
next
  case ImageLoad
  with assms have "s' = image_load s" by simp
  with assms(1) show ?thesis using sched_inv_flow_part [of "image_load s" s cfg] by simp
qed

lemma sched_reachable_inv:
  assumes "0 < cfg_step_size cfg + cfg_flow_length cfg" "sched_reachable cfg s"
  shows "sched_inv cfg s"
  using assms(2) by induction (auto intro: construct_inv [OF _ assms(1)] sched_apply_inv)

lemma advance_counter_nat:
  assumes "cfg_step_size cfg + cfg_flow_length cfg = of_nat p" "0 < p"
  shows "advance_counter cfg (Num (of_nat (n mod p))) = Num (of_nat (Suc n mod p))"
proof -
  have e: "real (n mod p) + 1 = real (Suc (n mod p))" by simp
  have "advance_counter cfg (Num (of_nat (n mod p))) = js_rem (Num (real (n mod p) + 1)) (Num (of_nat p))"
    by (simp only: advance_counter_def assms(1) js_add.simps)
  also have "\<dots> = Num (of_nat (Suc (n mod p) mod p))" unfolding e using assms(2) by (rule js_rem_of_nat)
  finally show ?thesis by (simp add: mod_Suc_eq)
qed

subsection \<open>The progress counter\<close>

text \<open>
  C13: when \<open>stepSize + flowLength\<close> is a positive integer \<open>p\<close>, the counter
  after \<open>n\<close> rendered frames is \<open>n mod p\<close>: it cycles through
  \<open>0, 1, \<dots>, p - 1\<close>.
\<close>

theorem sched_counter_cycle:
  assumes "cfg_step_size cfg + cfg_flow_length cfg = of_nat p" "0 < p"
  shows "(advance_counter cfg ^^ n) (Num 0) = Num (of_nat (n mod p))"
  by (induction n) (simp_all add: advance_counter_nat [OF assms])

text \<open>
  C9: in every reachable state the progress counter is a number in
  \<open>[0, stepSize + flowLength)\<close>, when that period is positive.
\<close>

theorem sched_counter_bounds:
  assumes "0 < cfg_step_size cfg + cfg_flow_length cfg" "sched_reachable cfg s"
  shows "\<exists>r. ss_arrow_run_px s = Num r \<and> 0 \<le> r \<and> r < cfg_step_size cfg + cfg_flow_length cfg"
  using sched_reachable_inv [OF assms] by (auto simp: sched_inv_def split: jsnum.splits)

subsection \<open>Stopping\<close>

lemma one_loop_clear: "one_loop s \<Longrightarrow> ss_pending (clear cfg s) = [] \<and> ss_arrow_animation (clear cfg s) = None"
  by (auto simp: one_loop_def clear_def Let_def cancel_animation_frame_def split: list.splits prod.splits option.splits)

lemma fire_idle: "ss_pending s = [] \<Longrightarrow> fire cfg h t s = Some s"
  by (simp add: fire_def)

lemma draw_frame_one_loop:
  "ss_pending s = [] \<Longrightarrow> 0 < ss_next_handle s \<Longrightarrow> draw_frame cfg k now s = Some s' \<Longrightarrow> one_loop s'"
  by (drule draw_frame_cases) (simp add: one_loop_def)

lemma sched_apply_one_loop:
  assumes "one_loop s" "\<forall>t. e = Draw t \<longrightarrow> ss_pending s = []" "sched_apply cfg s e = Some s'"
  shows "one_loop s'"
proof (cases e)
  case (Draw t)
  have df: "one_loop s2" if "one_loop s1" "ss_pending s1 = []" "draw_flow cfg t s1 = Some s2" for s1 s2
  proof -
    from that(3) have "draw_frame cfg (length (ss_last_time s1)) t (s1\<lparr>ss_last_time := ss_last_time s1 @ [0]\<rparr>) = Some s2"
      by (simp add: draw_flow_def)
    with that(1,2) show ?thesis by (intro draw_frame_one_loop) (simp_all add: one_loop_def)
  qed
  from assms Draw have "draw cfg t s = Some s'" by simp
  from draw_cases [OF this] show ?thesis
  proof
    assume "flow_part s' = flow_part s"
    with assms(1) show ?thesis using one_loop_flow_part [of s' s] by simp
  next
    assume "\<exists>s1. flow_part s1 = flow_part s \<and> draw_flow cfg t s1 = Some s'"
    then obtain s1 where f: "flow_part s1 = flow_part s" and d: "draw_flow cfg t s1 = Some s'" by blast
    from f assms(1) have "one_loop s1" using one_loop_flow_part [of s1 s] by simp
    moreover from f assms(2) Draw have "ss_pending s1 = []" by (simp add: flow_part_def)
    ultimately show ?thesis using d by (rule df)
  qed
next
  case (Fire h t)
  show ?thesis
  proof (cases "map_of (ss_pending s) h")
    case None
    with assms Fire show ?thesis by (simp add: fire_def)
  next
    case (Some k)
    then have "ss_pending s = [(h, k)]"
      using assms(1) by (auto simp: one_loop_def split: list.splits if_splits)
    then have "ss_pending (cancel_animation_frame h s) = []" by simp
    moreover have "draw_frame cfg k t (cancel_animation_frame h s) = Some s'"
      using assms(3) Fire Some by (simp add: fire_def)
    ultimately show ?thesis
      using assms(1) by (intro draw_frame_one_loop) (simp_all add: one_loop_def)
  qed
next
  case Clear
  with assms have "s' = clear cfg s" by simp
  with one_loop_clear [OF assms(1), of cfg] assms(1) show ?thesis by (simp add: one_loop_def)
next
  case ImageLoad
  with assms have "s' = image_load s" by simp
  with assms(1) show ?thesis using one_loop_flow_part [of "image_load s" s] by simp
qed

lemma sched_reachable1_one_loop: "sched_reachable1 cfg s \<Longrightarrow> one_loop s"
proof (induction rule: sched_reachable1.induct)
  case (init cw ch L s)
  then show ?case by (auto simp: construct_def js_bind_eq_return one_loop_def)
next
  case (step s e s')
  then show ?case by (blast intro: sched_apply_one_loop)
qed

text \<open>
  C6: when \<open>draw()\<close> is only called on a stopped object, \<open>clear()\<close> cancels
  every pending frame, empties both canvases, and no callback fires
  afterwards.
\<close>

theorem clear_stops_single_loop:
  assumes "sched_reachable1 cfg s"
  shows "ss_pending (clear cfg s) = [] \<and> ss_arrow_animation (clear cfg s) = None
    \<and> ss_canvas (clear cfg s) = [] \<and> ss_flow_canvas (clear cfg s) = []
    \<and> (\<forall>h t. fire cfg h t (clear cfg s) = Some (clear cfg s))"
  using one_loop_clear [OF sched_reachable1_one_loop [OF assms]] by (simp add: fire_idle)

subsection \<open>Throttling\<close>

lemma sched_apply_fps_zero:
  assumes "cfg_fps cfg = 0" "ss_arrow_run_px s = Num 0" "ss_flow_canvas s = []" "sched_apply cfg s e = Some s'"
  shows "ss_arrow_run_px s' = Num 0 \<and> ss_flow_canvas s' = []"
proof -
  have df: "ss_arrow_run_px s'' = ss_arrow_run_px s0 \<and> ss_flow_canvas s'' = ss_flow_canvas s0"
    if "draw_frame cfg k now s0 = Some s''" for k now s0 s''
    using draw_frame_cases [OF that] assms(1) by (auto simp: frame_due_def)
  have dfl: "ss_arrow_run_px s2 = ss_arrow_run_px s1 \<and> ss_flow_canvas s2 = ss_flow_canvas s1"
    if "draw_flow cfg t s1 = Some s2" for t s1 s2
    using that df by (simp add: draw_flow_def)
  show ?thesis
  proof (cases e)
    case (Draw t)
    with assms(4) have "draw cfg t s = Some s'" by simp
    from draw_cases [OF this] assms(2,3) dfl show ?thesis by (auto simp: flow_part_def)
  next
    case ImageLoad
    with assms show ?thesis using image_load_flow_part [of s] by (simp add: flow_part_def)
  qed (use assms df in \<open>auto simp: fire_def split: option.splits\<close>)
qed

text \<open>
  C14: with \<open>fps = 0\<close> the timeout is \<open>Infinity\<close>: no frame is ever rendered,
  the counter stays \<open>0\<close> and the flow canvas stays empty, although a frame
  is requested at every repaint.
\<close>

theorem sched_fps_zero_never_draws:
  assumes "cfg_fps cfg = 0" "sched_reachable cfg s"
  shows "ss_arrow_run_px s = Num 0 \<and> ss_flow_canvas s = []"
  using assms(2)
proof induction
  case (init cw ch L s)
  then show ?case by (auto simp: construct_def js_bind_eq_return)
next
  case (step s e s')
  then show ?case using sched_apply_fps_zero [OF assms(1)] by blast
qed

lemma draw_frame_times:
  assumes "draw_frame cfg k now s = Some s'" "0 < cfg_fps cfg" "k < length (ss_last_time s)"
  shows "(\<forall>j < length (ss_last_time s). ss_last_time s' ! j = ss_last_time s ! j
            \<or> ss_last_time s' ! j = now \<and> ss_last_time s ! j + 1000 / cfg_fps cfg \<le> now)
     \<and> length (ss_last_time s') = length (ss_last_time s)
     \<and> (ss_arrow_run_px s' \<noteq> ss_arrow_run_px s
          \<longrightarrow> ss_last_time s' ! k = now \<and> ss_last_time s ! k + 1000 / cfg_fps cfg \<le> now)"
  using draw_frame_cases [OF assms(1)] assms(2,3) by (auto simp: frame_due_def nth_list_update split: if_splits)

text \<open>
  C12: with \<open>fps > 0\<close> each closure renders at most once per
  \<open>1000 / fps\<close> ms: an event leaves every closure's \<open>lastTime\<close> alone or
  sets it to the event's time, at least the timeout after its old value; and
  the counter only moves in such a render, of some closure whose
  \<open>lastTime\<close> becomes the event's time (a closure \<open>drawFlow\<close> creates starts
  from \<open>lastTime = 0\<close>).
\<close>

theorem sched_step_throttled:
  assumes "sched_reachable cfg s" "0 < cfg_step_size cfg + cfg_flow_length cfg" "0 < cfg_fps cfg"
    "sched_apply cfg s e = Some s'"
  shows "(\<forall>k < length (ss_last_time s). ss_last_time s' ! k = ss_last_time s ! k
            \<or> ss_last_time s' ! k = event_time s e \<and> ss_last_time s ! k + 1000 / cfg_fps cfg \<le> event_time s e)
     \<and> (ss_arrow_run_px s' \<noteq> ss_arrow_run_px s \<longrightarrow> (\<exists>k < length (ss_last_time s'). ss_last_time s' ! k = event_time s e
            \<and> (k < length (ss_last_time s) \<longrightarrow> ss_last_time s ! k + 1000 / cfg_fps cfg \<le> event_time s e)))"
proof (cases e)
  case (Draw t)
  from assms(4) Draw have "draw cfg t s = Some s'" by simp
  from draw_cases [OF this] show ?thesis
  proof
    assume "flow_part s' = flow_part s"
    then show ?thesis by (simp add: flow_part_def)
  next
    assume "\<exists>s1. flow_part s1 = flow_part s \<and> draw_flow cfg t s1 = Some s'"
    then obtain s1 where f: "flow_part s1 = flow_part s" and d: "draw_flow cfg t s1 = Some s'" by blast
    let ?n = "length (ss_last_time s)"
    from f have lt: "ss_last_time s1 = ss_last_time s" "ss_arrow_run_px s1 = ss_arrow_run_px s"
      by (simp_all add: flow_part_def)
    with d have D: "draw_frame cfg ?n t (s1\<lparr>ss_last_time := ss_last_time s @ [0]\<rparr>) = Some s'"
      by (simp add: draw_flow_def)
    note T = draw_frame_times [OF D assms(3)]
    have A: "\<forall>j < ?n. ss_last_time s' ! j = ss_last_time s ! j
        \<or> ss_last_time s' ! j = t \<and> ss_last_time s ! j + 1000 / cfg_fps cfg \<le> t"
    proof (intro allI impI)
      fix j assume "j < ?n"
      with conjunct1 [OF T, rule_format, of j] show "ss_last_time s' ! j = ss_last_time s ! j
          \<or> ss_last_time s' ! j = t \<and> ss_last_time s ! j + 1000 / cfg_fps cfg \<le> t"
        by (simp add: nth_append)
    qed
    have L: "length (ss_last_time s') = Suc ?n" using conjunct1 [OF conjunct2 [OF T]] by simp
    have C: "ss_arrow_run_px s' \<noteq> ss_arrow_run_px s \<Longrightarrow> ss_last_time s' ! ?n = t"
      using conjunct2 [OF conjunct2 [OF T]] lt by simp
    show ?thesis
    proof (intro conjI impI)
      show "\<forall>k < ?n. ss_last_time s' ! k = ss_last_time s ! k
          \<or> ss_last_time s' ! k = event_time s e \<and> ss_last_time s ! k + 1000 / cfg_fps cfg \<le> event_time s e"
        using A Draw by simp
    next
      assume "ss_arrow_run_px s' \<noteq> ss_arrow_run_px s"
      with C L Draw show "\<exists>k < length (ss_last_time s'). ss_last_time s' ! k = event_time s e
          \<and> (k < ?n \<longrightarrow> ss_last_time s ! k + 1000 / cfg_fps cfg \<le> event_time s e)"
        by (intro exI [of _ ?n]) simp
    qed
  qed
next
  case (Fire h t)
  show ?thesis
  proof (cases "map_of (ss_pending s) h")
    case None
    with assms(4) Fire show ?thesis by (simp add: fire_def)
  next
    case (Some k)
    have "sched_inv cfg s" using sched_reachable_inv [OF assms(2,1)] .
    with Some have k: "k < length (ss_last_time s)"
      by (auto simp: sched_inv_def dest!: fire_pending)
    from assms(4) Fire Some have "draw_frame cfg k t (cancel_animation_frame h s) = Some s'"
      by (simp add: fire_def)
    from draw_frame_times [OF this assms(3)] k Fire show ?thesis
      by (auto simp: cancel_animation_frame_def)
  qed
next
  case Clear
  with assms(4) show ?thesis by auto
next
  case ImageLoad
  with assms(4) have "s' = image_load s" by simp
  then show ?thesis using image_load_flow_part [of s] by (simp add: flow_part_def)
qed

subsection \<open>Progress\<close>

text \<open>
  C7: in a reachable state with sane options, a pending frame fired at least
  \<open>1000 / fps\<close> ms after its closure's last render draws a frame without an
  error: it records the time as the closure's \<open>lastTime\<close>, advances the
  counter, stores the segments \<open>drawOneArrow\<close> returns for the new counter
  and paints its commands on the flow canvas, and schedules the next frame of
  the same closure.
\<close>

theorem sched_running_renders:
  assumes "sched_reachable cfg s" "0 < cfg_fps cfg" "0 \<le> cfg_flow_length cfg"
    "0 < cfg_step_size cfg + cfg_flow_length cfg" "(h, k) \<in> set (ss_pending s)"
    "ss_last_time s ! k + 1000 / cfg_fps cfg \<le> now"
  shows "\<exists>s'. fire cfg h now s = Some s'
    \<and> ss_arrow_run_px s' = advance_counter cfg (ss_arrow_run_px s)
    \<and> ss_last_time s' = (ss_last_time s)[k := now]
    \<and> (\<exists>ops. draw_one_arrow cfg (advance_counter cfg (ss_arrow_run_px s)) (ss_lines s) = js_return (ss_lines s', ops)
         \<and> ss_flow_canvas s' = canvas_run (cfg_flow_w cfg) (cfg_flow_h cfg) (ss_flow_canvas s) ops)
    \<and> ss_errors s' = ss_errors s \<and> (ss_next_handle s, k) \<in> set (ss_pending s')"
proof -
  have inv: "sched_inv cfg s" using sched_reachable_inv [OF assms(4,1)] .
  then have mo: "map_of (ss_pending s) h = Some k"
    using assms(5) by (auto simp: sched_inv_def intro: map_of_is_SomeI)
  let ?px = "advance_counter cfg (ss_arrow_run_px s)"
  have due: "frame_due (cfg_fps cfg) now (ss_last_time s ! k)"
    using assms(2,6) by (simp add: frame_due_def)
  have "\<forall>l \<in> set (ss_lines s). frame_ready l" using inv by (simp add: sched_inv_def)
  then obtain ops where d: "draw_one_arrow cfg ?px (ss_lines s) = js_return (set_line_space ?px (ss_lines s), ops)"
    using draw_one_arrow_returns [OF _ assms(3)] assms(4) by (metis add.commute)
  show ?thesis
    using due d mo
    by (auto simp: fire_def draw_frame_def request_animation_frame_def Let_def)
qed
subsection \<open>Drawing again and clearing\<close>

lemma draw_frame_static:
  "draw_frame cfg k now s = Some s' \<Longrightarrow> ss_img_data s' = ss_img_data s \<and> ss_text_width s' = ss_text_width s"
  by (auto simp: draw_frame_def request_animation_frame_def Let_def split: if_splits option.splits sum.splits prod.splits)

text \<open>When \<open>drawImage\<close> and \<open>drawLine\<close> return, \<open>draw()\<close> is \<open>drawFlow()\<close> on a state with the same flow part.\<close>

lemma draw_reaches_flow:
  assumes "draw_image (ss_text_width s) (ss_img_data s) = js_return (ops, loads)"
    "draw_line (ss_lines s) = js_return lops"
  shows "\<exists>s0. flow_part s0 = flow_part s \<and> ss_image_loads s0 = ss_image_loads s @ loads
     \<and> ss_canvas_w s0 = ss_canvas_w s \<and> ss_canvas_h s0 = ss_canvas_h s \<and> draw cfg t s = draw_flow cfg t s0"
  using assms
  by (intro exI [of _ "s\<lparr>ss_image_loads := ss_image_loads s @ loads, ss_canvas := canvas_run (ss_canvas_w s) (ss_canvas_h s)
      (canvas_run (ss_canvas_w s) (ss_canvas_h s) (ss_canvas s) ops) lops\<rparr>"])
     (simp add: draw_def Let_def flow_part_def)

lemma draw_frame_returns:
  assumes "\<forall>l \<in> set (ss_lines s). frame_ready l" "0 \<le> cfg_flow_length cfg"
    "0 < cfg_step_size cfg + cfg_flow_length cfg"
  shows "\<exists>s'. draw_frame cfg k now s = Some s'"
proof -
  obtain ops where "draw_one_arrow cfg (advance_counter cfg (ss_arrow_run_px s)) (ss_lines s)
      = js_return (set_line_space (advance_counter cfg (ss_arrow_run_px s)) (ss_lines s), ops)"
    using draw_one_arrow_returns [OF assms(1,2)] assms(3) by (metis add.commute)
  then show ?thesis
    by (simp add: draw_frame_def request_animation_frame_def Let_def)
qed

lemma fire_returns:
  assumes "sched_inv cfg s" "0 \<le> cfg_flow_length cfg" "0 < cfg_step_size cfg + cfg_flow_length cfg"
  shows "\<exists>s'. fire cfg h now s = Some s'"
proof (cases "map_of (ss_pending s) h")
  case (Some k)
  have "\<forall>l \<in> set (ss_lines (cancel_animation_frame h s)). frame_ready l"
    using assms(1) by (simp add: sched_inv_def cancel_animation_frame_def)
  from draw_frame_returns [OF this assms(2,3)] Some show ?thesis by (simp add: fire_def)
qed (simp add: fire_def)

lemma draw_image_loads_kept:
  assumes "draw_image (ss_text_width s) (ss_img_data s) = js_return (ops, loads)" "draw cfg t s = Some s1"
  shows "ss_image_loads s1 = ss_image_loads s @ loads \<and> ss_canvas_w s1 = ss_canvas_w s \<and> ss_canvas_h s1 = ss_canvas_h s"
proof (cases "draw_line (ss_lines s)")
  case None
  with assms show ?thesis by (simp add: draw_def Let_def)
next
  case (Some r)
  show ?thesis
  proof (cases r)
    case (Inl e)
    with Some assms show ?thesis by (auto simp: draw_def Let_def)
  next
    case (Inr lops)
    with Some have "draw_line (ss_lines s) = js_return lops" by simp
    from draw_reaches_flow [OF assms(1) this] obtain s0 where
      s0: "ss_image_loads s0 = ss_image_loads s @ loads" "draw cfg t s = draw_flow cfg t s0"
      and wh: "ss_canvas_w s0 = ss_canvas_w s" "ss_canvas_h s0 = ss_canvas_h s"
      by blast
    with assms(2) have "draw_frame cfg (length (ss_last_time s0)) t (s0\<lparr>ss_last_time := ss_last_time s0 @ [0]\<rparr>) = Some s1"
      by (simp add: draw_flow_def)
    from draw_frame_cases [OF this] s0 wh show ?thesis by simp
  qed
qed

text \<open>
  C10: calling \<open>draw()\<close> while a frame loop runs starts a second loop, and
  \<open>clear()\<close> cancels only the frame of the second (the one
  \<open>arrowAnimation\<close> records): the first loop's callback stays pending with
  \<open>arrowAnimation\<close> null, and when it fires it returns and schedules its
  next frame, so the flow keeps running after \<open>clear()\<close>.
\<close>

theorem sched_double_draw_keeps_running:
  assumes "sched_reachable cfg s" "0 \<le> cfg_flow_length cfg" "0 < cfg_step_size cfg + cfg_flow_length cfg"
    "ss_clock s \<le> t" "(h, k) \<in> set (ss_pending s)"
    "draw_image (ss_text_width s) (ss_img_data s) = js_return (ops, loads)" "draw_line (ss_lines s) = js_return lops"
  shows "\<exists>s1. draw cfg t s = Some s1
    \<and> (h, k) \<in> set (ss_pending (clear cfg s1)) \<and> ss_arrow_animation (clear cfg s1) = None
    \<and> (\<exists>s2. fire cfg h now (clear cfg s1) = Some s2
           \<and> ss_arrow_animation s2 = Some (ss_next_handle (clear cfg s1))
           \<and> (ss_next_handle (clear cfg s1), k) \<in> set (ss_pending s2))"
proof -
  have inv: "sched_inv cfg s" using sched_reachable_inv [OF assms(3,1)] .
  obtain s0 where f0: "flow_part s0 = flow_part s" and d0: "draw cfg t s = draw_flow cfg t s0"
    using draw_reaches_flow [OF assms(6,7)] by blast
  let ?s = "s0\<lparr>ss_last_time := ss_last_time s0 @ [0]\<rparr>"
  have ready: "\<forall>l \<in> set (ss_lines ?s). frame_ready l"
    using inv f0 by (simp add: sched_inv_def flow_part_def)
  obtain s1 where df: "draw_frame cfg (length (ss_last_time s0)) t ?s = Some s1"
    using draw_frame_returns [OF ready assms(2,3)] by blast
  then have d: "draw cfg t s = Some s1" using d0 by (simp add: draw_flow_def)
  note c1 = draw_frame_cases [OF df]
  have fp: "ss_pending s0 = ss_pending s" "ss_next_handle s0 = ss_next_handle s"
    using f0 by (simp_all add: flow_part_def)
  have lt: "\<forall>(h', k') \<in> set (ss_pending s). h' < ss_next_handle s" and pos: "0 < ss_next_handle s"
    using inv by (auto simp: sched_inv_def)
  have keep: "filter (\<lambda>(h', k'). h' \<noteq> ss_next_handle s) (ss_pending s) = ss_pending s"
    using lt by (auto intro: filter_True)
  have cp: "ss_pending (clear cfg s1) = ss_pending s" and ca: "ss_arrow_animation (clear cfg s1) = None"
    using c1 fp pos keep by (simp_all add: clear_def cancel_animation_frame_def Let_def)
  have inv1: "sched_inv cfg s1"
    using sched_apply_inv [OF inv, of "Draw t" s1] d assms(4) by simp
  have inv2: "sched_inv cfg (clear cfg s1)"
    using sched_apply_inv [OF inv1, of Clear] by simp
  obtain s2 where f2: "fire cfg h now (clear cfg s1) = Some s2"
    using fire_returns [OF inv2 assms(2,3)] by blast
  have "map_of (ss_pending (clear cfg s1)) h = Some k"
    using inv assms(5) cp by (auto simp: sched_inv_def intro: map_of_is_SomeI)
  with f2 have "draw_frame cfg k now (cancel_animation_frame h (clear cfg s1)) = Some s2"
    by (simp add: fire_def)
  from draw_frame_cases [OF this] have
    "ss_arrow_animation s2 = Some (ss_next_handle (clear cfg s1))"
    "(ss_next_handle (clear cfg s1), k) \<in> set (ss_pending s2)"
    by (simp_all add: cancel_animation_frame_def)
  with d cp ca f2 assms(5) show ?thesis by auto
qed

text \<open>
  C11: \<open>clear()\<close> does not stop the markers' image loads that \<open>draw()\<close>
  started: right after \<open>draw()\<close> and \<open>clear()\<close> both canvases are empty,
  but when the first image loads its \<open>onload\<close> handler paints that marker
  on the cleared main canvas, and the other markers' loads are still pending.
\<close>

theorem sched_clear_before_images_load:
  assumes "draw_image (ss_text_width s) (ss_img_data s) = js_return (ops, loads)"
    "ss_img_data s = img # imgs" "ss_image_loads s = []" "draw cfg t s = Some s1"
  shows "ss_canvas (clear cfg s1) = [] \<and> ss_flow_canvas (clear cfg s1) = []
    \<and> ss_canvas (image_load (clear cfg s1)) = [DrawImage (img_url img) (cx img) (cy img) (img_width img) (img_height img)]
    \<and> length (ss_image_loads (image_load (clear cfg s1))) = length imgs"
proof -
  have l: "loads = map (\<lambda>img. DrawImage (img_url img) (cx img) (cy img) (img_width img) (img_height img)) (img # imgs)"
    using draw_image_loads [OF assms(1)] assms(2) by simp
  note k = draw_image_loads_kept [OF assms(1,4)]
  have "ss_image_loads (clear cfg s1) = loads" "ss_canvas (clear cfg s1) = []" "ss_flow_canvas (clear cfg s1) = []"
    using k assms(3) by (simp_all add: clear_def Let_def cancel_animation_frame_def split: option.splits)
  then show ?thesis
    using l by (simp add: image_load_def canvas_run_def canvas_apply_def)
qed
end
