(* ===== verification/Spec2Isabelle.thy ===== *)
theory Spec2Isabelle
  imports Scheduler Static_Draw
begin

text \<open>
  \<^bold>\<open>A verification of CreateImgLineFlow.\<close> The program is one class in
  \<open>src/src/core/index.ts\<close> that draws images joined by polylines on a canvas
  and animates comet-shaped arrows flowing along the polylines on a second
  canvas. This development models its parts as HOL functions and proves
  what they do.

  \<^bold>\<open>Parts and theories.\<close>
  \<^item> \<open>Flow_Prelude\<close>: JavaScript numbers (\<open>jsnum\<close>: a real or \<open>NaN\<close>), with
    \<open>+\<close>, \<open>-\<close>, \<open><\<close>, the truncating \<open>%\<close> (\<open>js_rem\<close>) and \<open>Math.round\<close>;
    the results of calls, \<open>(js_error + 'a) option\<close>, where \<open>None\<close> is a
    call that never returns and \<open>Inl\<close> a thrown \<open>TypeError\<close> or
    \<open>IndexSizeError\<close>; \<open>js_map\<close> is \<open>forEach\<close> stopping at the first throw.
  \<^item> \<open>Geometry\<close>: \<open>getAngle\<close> and \<open>getScreen\<close> (\<open>get_angle\<close>, \<open>get_screen\<close>).
    The lemmas give the direction \<open>getAngle\<close> encodes, its range for
    each direction of the segment (so \<open>[-pi/2, 3pi/2)\<close> in all), and the
    rounding of \<open>getScreen\<close>.
  \<^item> \<open>Segment_Graph\<close>: \<open>combLine\<close> (\<open>comb_line\<close>), split into its three
    loops: cutting each connection into segments (\<open>comb_split\<close>), measuring
    them (\<open>comb_measure\<close>), and linking every ordered pair of segments of
    different connections that meet (\<open>link_pairs\<close>, \<open>link_pair\<close>). The
    segment objects the source shares between arrays are positions
    \<open>(connection, segment)\<close>. A segment's \<open>paths\<close> is an optional list of
    points, of which the code reads \<open>paths[0]\<close> and \<open>paths[1]\<close>
    (\<open>seg_path\<close>); \<open>comb_line_js\<close> throws the \<open>TypeError\<close> that reading
    raises for a preset segment without two points. The lemmas give the \<open>endLines\<close> and
    \<open>startLines\<close> each segment ends with, their symmetry, the lengths, and
    what a second \<open>combLine\<close> does.
  \<^item> \<open>Projector\<close>: \<open>handleDataBeforeDraw\<close> (\<open>handle_data_before_draw\<close>) and
    \<open>init\<close> (\<open>init_lines\<close>). The lemmas: \<open>init\<close> returns exactly when
    every preset segment has two path points and throws otherwise, consecutive
    segments share their joint pixel, the values a fresh segment gets, and
    idempotence.
  \<^item> \<open>Canvas\<close>: the canvas calls the program makes, recorded as a list of
    \<open>canvas_op\<close>, and \<open>addColorStop\<close>.
  \<^item> \<open>Flow_Render\<close>: \<open>getLinearGradient\<close>, \<open>drawArrow\<close>, the \<open>while\<close> loop of a
    segment (\<open>arrow_loop\<close>), the per-segment and per-connection bodies of
    \<open>drawOneArrow\<close> (\<open>render_split\<close>, \<open>render_line\<close>), \<open>setLineSpace\<close> and
    one whole frame (\<open>draw_one_arrow\<close>). The lemmas: the loop refines the
    cursor sequence \<open>arrow_cursors\<close>, ends for a positive step and hangs
    otherwise, draws only on its segment; the phase of the first cursor;
    a whole frame never throws after \<open>init\<close>.
  \<^item> \<open>Static_Draw\<close>: \<open>drawImage\<close> (\<open>draw_image\<close>: label commands now, each
    image's \<open>drawImage\<close> call when it loads) and \<open>drawLine\<close> (\<open>draw_line\<close>:
    the polyline and its arrowhead). The lemmas: the four arrowheads are one
    template placed in the frame of their direction, closed and behind their
    tip; where labels go; exactly when each throws \<open>TypeError\<close>.
  \<^item> \<open>Scheduler\<close>: the object's time-varying state (\<open>sched_state\<close>), the
    constructor, \<open>draw()\<close>, \<open>drawFrame\<close> with its throttle, \<open>drawFlow\<close>,
    \<open>clear\<close>, image \<open>onload\<close> handlers, and the host's
    \<open>requestAnimationFrame\<close> queue. \<open>sched_reachable\<close> is the set of states
    reached by host events from a constructed object; its invariant
    \<open>sched_inv\<close> bounds the counter. The lemmas: the counter cycles; frames
    are throttled and the counter moves only in a render; a due frame renders
    what \<open>drawOneArrow\<close> returns; \<open>fps = 0\<close> renders nothing; \<open>clear\<close>
    stops the single loop \<open>draw()\<close> starts, but not a loop an earlier
    \<open>draw()\<close> started, nor the image loads \<open>draw()\<close> started.
  \<^item> \<open>Canvas\<close> also gives \<open>balanced\<close>: a command list that leaves the
    \<open>save\<close> stack as it found it.
  \<^item> This theory: the test's connection \<open>(200, 200) - (400, 200)\<close> and two
    markers run end to end (construction, \<open>draw()\<close>, one frame), which the
    witnesses use; the balance of every command list the program issues; and
    the witnesses of the properties with hypotheses.

  \<^bold>\<open>Loops and termination.\<close> No fuel is used. The \<open>while\<close> loop of
  \<open>drawOneArrow\<close> is a \<open>partial_function (option)\<close>: for \<open>step > 0\<close> it is
  proved equal to a terminating map over \<open>\<lceil>(len - c) / step\<rceil>\<close> cursors, and
  for \<open>step \<le> 0\<close> it is proved to be \<open>None\<close> (in a frame \<open>step = 0\<close> gives a
  \<open>NaN\<close> cursor and no loop, so only a negative step hangs). Every other
  loop of the source is a \<open>forEach\<close> over a finite array, modelled by
  structural recursion.

  \<^bold>\<open>Not modelled.\<close> Infinities (\<open>getAngle\<close>'s division by zero is
  written out, and \<open>fps = 0\<close> is handled where it occurs); the canvas commands
  a call issues before it throws (a throwing frame records the error and the
  cleared canvas; a throwing \<open>draw()\<close> records the error); the order in which
  images load, which is the host's (\<open>ImageLoad\<close> draws the oldest pending
  one); \<open>measureText\<close>, which is a parameter of the state; a \<open>PathsItem\<close>
  with fewer than two numbers (a pair here); the changes \<open>combLine\<close> has
  made to the caller's \<open>lineData\<close> when \<open>init\<close> throws; the type
  declarations in \<open>src/types\<close> and the Jest test, whose input is the example
  connection of this theory (its Chinese label is replaced by an ASCII one).
\<close>

subsection \<open>Example input\<close>

text \<open>
  Two connections that meet at \<open>(10, 0)\<close>: the first runs right from the
  origin, the second runs down from where the first ends.
\<close>

definition example_line :: "coordinate list \<Rightarrow> line_obj" where
  "example_line ps =
     \<lparr>points = ps, arrow_direction = ''right'', line_option = None, lpaths = None,
      line_space = None, flow_option = None, origin_length = None, split_lines = None\<rparr>"

definition example_data :: "line_obj list" where
  "example_data =
     [example_line [\<lparr>cx = 0, cy = 0\<rparr>, \<lparr>cx = 10, cy = 0\<rparr>],
      example_line [\<lparr>cx = 10, cy = 0\<rparr>, \<lparr>cx = 10, cy = 10\<rparr>, \<lparr>cx = 20, cy = 10\<rparr>]]"

text \<open>The state \<open>init\<close> leaves for the example.\<close>

definition example_state :: "line_obj list" where
  "example_state = map (\<lambda>l. l\<lparr>origin_length := Some 0,
     split_lines := Some (project_splits reference_point None (splits l))\<rparr>) (comb_line example_data)"

text \<open>The connection of the package's test: one segment from \<open>(200, 200)\<close> to \<open>(400, 200)\<close>.\<close>

definition jest_data :: "line_obj list" where
  "jest_data = [example_line [\<lparr>cx = 200, cy = 200\<rparr>, \<lparr>cx = 400, cy = 200\<rparr>]]"

text \<open>A marker of the test, with an ASCII label in place of the test's text.\<close>

definition jest_image :: "real \<Rightarrow> img_obj" where
  "jest_image x = \<lparr>cx = x, cy = 200, img_url = ''marker.png'', img_width = 21, img_height = 16,
     img_text_option = Some \<lparr>to_text = Some ''label'', to_show = Some True,
       to_style = Some (empty_style\<lparr>ts_font_weight := Some ''600'', ts_position := Some ''bottom''\<rparr>)\<rparr>\<rparr>"

text \<open>The object the test constructs, and the object after \<open>draw()\<close> at time \<open>1000\<close>.\<close>

definition jest_start :: sched_state where
  "jest_start =
     \<lparr>ss_lines = map (\<lambda>l. l\<lparr>origin_length := Some 0,
        split_lines := Some (project_splits reference_point None (splits l))\<rparr>) (comb_line jest_data),
      ss_img_data = [jest_image 200, jest_image 400], ss_text_width = \<lambda>t. 30,
      ss_arrow_run_px = Num 0, ss_arrow_animation = None, ss_last_time = [],
      ss_pending = [], ss_next_handle = 1, ss_clock = 0, ss_canvas_w = 500, ss_canvas_h = 500,
      ss_canvas = [], ss_flow_canvas = [], ss_image_loads = [], ss_errors = []\<rparr>"

text \<open>What \<open>draw()\<close> paints on the main canvas for the test: the two labels, then the line.\<close>

definition jest_label_ops :: "canvas_op list" where
  "jest_label_ops =
     [Save, SetFont ''600'' 13 default_font_family, SetFillStyle (Color ''#666''), FillText ''label'' (391 / 2) 234,
      SetFont ''600'' 13 default_font_family, SetFillStyle (Color ''#666''), FillText ''label'' (791 / 2) 234, Restore]"

definition jest_line_ops :: "canvas_op list" where
  "jest_line_ops =
     [Save, BeginPath, SetLineWidth 3, SetStrokeStyle (Color ''#B83538''), SetFillStyle (Color ''#B83538''),
      SetLineCap ''round'', SetLineJoin ''round'', MoveTo 200 200, LineTo 400 200, Stroke, BeginPath,
      MoveTo 401 202, LineTo 398 205, QuadraticCurveTo 395 208 395 205, LineTo 395 195,
      QuadraticCurveTo 395 192 398 195, LineTo 401 198, QuadraticCurveTo 403 200 401 202, Fill, Restore]"

definition jest_drawn :: sched_state where
  "jest_drawn = jest_start\<lparr>ss_canvas := jest_label_ops @ jest_line_ops,
     ss_image_loads := [DrawImage ''marker.png'' 200 200 21 16, DrawImage ''marker.png'' 400 200 21 16]\<rparr>"

definition jest_running :: sched_state where
  "jest_running = the (draw_flow (default_config 500 500) 1000 jest_drawn)"


lemmas example_eval = example_data_def example_line_def

subsection \<open>Witnesses\<close>

theorem get_angle_direction_witness:
  "\<lparr>cx = 0, cy = 0\<rparr> \<noteq> \<lparr>cx = 3, cy = 4\<rparr>
   \<and> (\<exists>a. get_angle \<lparr>cx = 0, cy = 0\<rparr> \<lparr>cx = 3, cy = 4\<rparr> ''top'' = Num a
        \<and> cx \<lparr>cx = 3, cy = 4\<rparr> - cx \<lparr>cx = 0, cy = 0\<rparr> = seg_dist \<lparr>cx = 0, cy = 0\<rparr> \<lparr>cx = 3, cy = 4\<rparr> * cos a
        \<and> (cy \<lparr>cx = 3, cy = 4\<rparr> - cy \<lparr>cx = 0, cy = 0\<rparr>) * (if ''top'' \<noteq> ''top'' then - 1 else 1)
            = seg_dist \<lparr>cx = 0, cy = 0\<rparr> \<lparr>cx = 3, cy = 4\<rparr> * sin a)"
proof -
  have h: "\<lparr>cx = 0, cy = 0\<rparr> \<noteq> \<lparr>cx = 3 :: real, cy = 4\<rparr>" by simp
  from h Geometry.get_angle_direction [OF h, of "''top''"] show ?thesis by (rule conjI)
qed

theorem get_angle_range_witness:
  "get_angle \<lparr>cx = 0, cy = 0\<rparr> \<lparr>cx = 1, cy = - 1\<rparr> ''top'' = Num (- (pi / 4))
   \<and> - (pi / 2) < - (pi / 4) \<and> - (pi / 4) < pi / 2 \<and> - (pi / 4) < (0::real)"
proof -
  have h: "get_angle \<lparr>cx = 0, cy = 0\<rparr> \<lparr>cx = 1, cy = - 1\<rparr> ''top'' = Num (- (pi / 4))"
    by (simp add: get_angle_def js_atan_div_def arctan_minus arctan_one)
  from h Geometry.get_angle_range [OF h] show ?thesis by simp
qed

lemma example_valid: "valid_seg (comb_line example_data) (0, 0)" "valid_seg (comb_line example_data) (1, 0)"
  "valid_seg (comb_line example_data) (1, 1)"
  unfolding comb_line_valid by (simp_all add: valid_seg_def example_eval splits_unset)

theorem comb_line_adjacency_witness:
  "valid_seg (comb_line example_data) (0, 0)
   \<and> sl_end_lines (seg_at (comb_line example_data) (0, 0)) =
       [b \<leftarrow> seg_ids (comb_line example_data). fst (0::nat, 0::nat) \<noteq> fst b
          \<and> joins (seg_at (comb_line example_data) (0, 0)) (seg_at (comb_line example_data) b)]
   \<and> sl_start_lines (seg_at (comb_line example_data) (0, 0)) =
       [a \<leftarrow> seg_ids (comb_line example_data). fst a \<noteq> fst (0::nat, 0::nat)
          \<and> joins (seg_at (comb_line example_data) a) (seg_at (comb_line example_data) (0, 0))]"
  using example_valid(1) Segment_Graph.comb_line_adjacency [OF example_valid(1)] by (rule conjI)

theorem comb_line_links_symmetric_witness:
  "valid_seg (comb_line example_data) (0, 0) \<and> valid_seg (comb_line example_data) (1, 0)
   \<and> ((1, 0) \<in> set (sl_end_lines (seg_at (comb_line example_data) (0, 0)))
        \<longleftrightarrow> (0, 0) \<in> set (sl_start_lines (seg_at (comb_line example_data) (1, 0))))"
  using example_valid(1,2) Segment_Graph.comb_line_links_symmetric [OF example_valid(1,2)] by blast

theorem comb_line_total_length_witness:
  "1 < length example_data \<and> split_lines (example_data ! 1) = None
   \<and> origin_length (comb_line example_data ! 1) = Some 20"
proof -
  have h: "1 < length example_data" "split_lines (example_data ! 1) = None"
    by (simp_all add: example_eval)
  have "polyline_length (points (example_data ! 1)) = 20"
    by (simp add: example_eval seg_dist_def)
  with h Segment_Graph.comb_line_total_length [OF h] show ?thesis by simp
qed

theorem comb_line_segments_witness:
  "1 < length example_data \<and> split_lines (example_data ! 1) = None
   \<and> map sl_paths (splits (comb_line example_data ! 1)) = [Some [(10, 0), (10, 10)], Some [(10, 10), (20, 10)]]"
proof -
  have h: "1 < length example_data" "split_lines (example_data ! 1) = None"
    by (simp_all add: example_eval)
  with Segment_Graph.comb_line_segments [OF h] show ?thesis
    by (simp add: example_eval point_path_def)
qed

theorem comb_line_twice_duplicates_witness:
  "1 < length example_data \<and> split_lines (example_data ! 1) = None
   \<and> length (splits (comb_line (comb_line example_data) ! 1)) = 4"
proof -
  have h: "1 < length example_data" "split_lines (example_data ! 1) = None"
    by (simp_all add: example_eval)
  with Segment_Graph.comb_line_twice_duplicates [OF h] show ?thesis
    by (simp add: example_eval)
qed

lemma example_presets: "presets_ok example_data"
  by (simp add: presets_ok_def example_eval splits_def)

lemma jest_presets: "presets_ok jest_data"
  by (simp add: presets_ok_def jest_data_def example_eval splits_def)

lemma example_init: "init_lines example_data = js_return example_state"
  by (simp add: init_lines_eq [OF example_presets] example_state_def)

lemma example_state_shape:
  "length example_state = 2" "length (splits (example_state ! 1)) = 2"
proof -
  have "length (splits (comb_line example_data ! 1)) = 2"
    using comb_line_splits_length [of 1 example_data] by (simp add: example_eval splits_unset)
  then show "length (splits (example_state ! 1)) = 2"
    by (simp add: example_state_def splits_def example_eval)
  show "length example_state = 2"
    by (simp add: example_state_def example_eval)
qed


theorem init_lines_continuous_witness:
  "init_lines example_data = js_return example_state \<and> 1 < length example_state
   \<and> Suc 0 < length (splits (example_state ! 1))
   \<and> sl_from_pixel (splits (example_state ! 1) ! Suc 0) = sl_to_pixel (splits (example_state ! 1) ! 0)
   \<and> sl_to_pixel (splits (example_state ! 1) ! 0) \<noteq> None"
proof -
  have h: "init_lines example_data = js_return example_state" "1 < length example_state"
    "Suc 0 < length (splits (example_state ! 1))"
    using example_init example_state_shape by simp_all
  from h Projector.init_lines_continuous [OF h] show ?thesis by blast
qed

theorem init_lines_fresh_segment_witness:
  "init_lines example_data = js_return example_state \<and> 1 < length example_data
   \<and> split_lines (example_data ! 1) = None \<and> 1 < length (points (example_data ! 1)) - 1
   \<and> sl_from_pixel (splits (example_state ! 1) ! 1) = Some \<lparr>cx = 10, cy = 10\<rparr>
   \<and> sl_to_pixel (splits (example_state ! 1) ! 1) = Some \<lparr>cx = 20, cy = 10\<rparr>
   \<and> sl_angle (splits (example_state ! 1) ! 1) = Some (Num 0)
   \<and> sl_length (splits (example_state ! 1) ! 1) = Some 10"
proof -
  have h: "init_lines example_data = js_return example_state" "1 < length example_data"
    "split_lines (example_data ! 1) = None" "1 < length (points (example_data ! 1)) - 1"
    using example_init by (simp_all add: example_eval)
  from Projector.init_lines_fresh_segment [OF h] h show ?thesis
    by (simp add: example_eval get_screen_def reference_point_def get_angle_def js_atan_div_def js_round_def
        seg_dist_def)
qed

theorem handle_data_before_draw_idempotent_witness:
  "handle_data_before_draw (comb_line example_data) = js_return example_state
   \<and> handle_data_before_draw example_state = js_return example_state"
proof -
  have h: "handle_data_before_draw (comb_line example_data) = js_return example_state"
    using example_init by (simp add: init_lines_def comb_line_js_def example_presets)
  from h Projector.handle_data_before_draw_idempotent [OF h] show ?thesis by (rule conjI)
qed

theorem init_lines_origin_length_zero_witness:
  "init_lines example_data = js_return example_state \<and> 1 < length example_state
   \<and> origin_length (example_state ! 1) = Some 0"
proof -
  have h: "init_lines example_data = js_return example_state" "1 < length example_state"
    using example_init example_state_shape by simp_all
  from h Projector.init_lines_origin_length_zero [OF h] show ?thesis by simp
qed

subsection \<open>Witnesses of the renderer's properties\<close>

theorem arrow_loop_refines_cursors_witness:
  "0 < (80::real) \<and> arrow_loop 20 80 [255, 255, 255] 200 0 =
     js_bind (js_map (draw_arrow 20 [255, 255, 255] 200) (arrow_cursors 80 200 0)) (\<lambda>opss. js_return (concat opss))
   \<and> arrow_cursors 80 200 0 = [0, 80, 160]"
proof -
  have h: "0 < (80::real)" by simp
  have "nat \<lceil>(200 - 0) / (80::real)\<rceil> = 3" by simp
  then have "arrow_cursors 80 200 0 = [0, 80, 160]" by (simp add: arrow_cursors_def eval_nat_numeral)
  with h Flow_Render.arrow_loop_refines_cursors [OF h, of 20 "[255, 255, 255]" 200 0] show ?thesis by simp
qed

theorem arrow_loop_terminates_witness:
  "0 < (80::real) \<and> 0 \<le> (20::real) \<and> (\<exists>ops. arrow_loop 20 80 [255, 255, 255] 200 0 = js_return ops)"
  using Flow_Render.arrow_loop_terminates [of 80 20 "[255, 255, 255]" 200 0] by simp

theorem arrow_loop_hangs_witness:
  "(0::real) \<le> 0 \<and> 0 \<le> (20::real) \<and> 0 < (200::real) \<and> arrow_loop 20 0 [255, 255, 255] 200 0 = None"
  using Flow_Render.arrow_loop_hangs [of 0 20 0 200 "[255, 255, 255]"] by simp

theorem arrow_loop_within_segment_witness:
  "0 < (20::real) \<and> arrow_loop 20 80 [255, 255, 255] 190 0 = js_return
     [BeginPath, SetStrokeStyle (Gradient (LinearGradient 0 0 20 0 (comet_stops 20 [255, 255, 255]))),
      MoveTo 0 0, LineTo 20 0, Stroke,
      BeginPath, SetStrokeStyle (Gradient (LinearGradient 80 0 100 0 (comet_stops 20 [255, 255, 255]))),
      MoveTo 80 0, LineTo 100 0, Stroke,
      BeginPath, SetStrokeStyle (Gradient (LinearGradient 160 0 180 0 (comet_stops 20 [255, 255, 255]))),
      MoveTo 160 0, LineTo 180 0, Stroke]
   \<and> list_all (x_within 190)
     [BeginPath, SetStrokeStyle (Gradient (LinearGradient 0 0 20 0 (comet_stops 20 [255, 255, 255]))),
      MoveTo 0 0, LineTo 20 0, Stroke,
      BeginPath, SetStrokeStyle (Gradient (LinearGradient 80 0 100 0 (comet_stops 20 [255, 255, 255]))),
      MoveTo 80 0, LineTo 100 0, Stroke,
      BeginPath, SetStrokeStyle (Gradient (LinearGradient 160 0 180 0 (comet_stops 20 [255, 255, 255]))),
      MoveTo 160 0, LineTo 180 0, Stroke]"
proof -
  have h: "0 < (20::real)" by simp
  have l: "arrow_loop 20 80 [255, 255, 255] 190 0 = js_return
     [BeginPath, SetStrokeStyle (Gradient (LinearGradient 0 0 20 0 (comet_stops 20 [255, 255, 255]))),
      MoveTo 0 0, LineTo 20 0, Stroke,
      BeginPath, SetStrokeStyle (Gradient (LinearGradient 80 0 100 0 (comet_stops 20 [255, 255, 255]))),
      MoveTo 80 0, LineTo 100 0, Stroke,
      BeginPath, SetStrokeStyle (Gradient (LinearGradient 160 0 180 0 (comet_stops 20 [255, 255, 255]))),
      MoveTo 160 0, LineTo 180 0, Stroke]"
    by (simp add: arrow_loop_unfold draw_arrow_def stroke_span_ok comet_stops_def)
  from h l Flow_Render.arrow_loop_within_segment [OF h l] show ?thesis by simp
qed

theorem split_line_space_phase_witness:
  "0 < (80::real) \<and> (\<exists>c k. split_line_space 80 (Num 0) (Num 62) = Num c \<and> 0 + c = 62 + of_int k * 80
     \<and> (62 \<le> (0::real) \<longrightarrow> - 80 < c \<and> c \<le> 0) \<and> (0 < (62::real) \<longrightarrow> 0 \<le> c \<and> c < 80))"
  using Flow_Render.split_line_space_phase [of 80 0 62] by simp


theorem get_linear_gradient_comet_witness:
  "get_linear_gradient 20 0 [255, 255, 255] =
     js_return (LinearGradient 0 0 20 0 [(0, [255, 255, 255], 0), (19 / 20, [255, 255, 255], 1), (1, [255, 255, 255], 1)])
   \<and> get_linear_gradient (- 5) 0 [255, 255, 255] = js_throw IndexSizeError"
  using Flow_Render.get_linear_gradient_comet [of 20 0 "[255, 255, 255]"]
    Flow_Render.get_linear_gradient_comet [of "- 5" 0 "[255, 255, 255]"]
  by (simp add: min_num_def)

theorem draw_arrow_zero_cursor_gap_witness:
  "0 < (10::real) \<and> (10::real) < 20 \<and> draw_arrow 20 [255, 255, 255] 10 0 = js_return []"
  using Flow_Render.draw_arrow_zero_cursor_gap [of 10 20 "[255, 255, 255]"] by simp

theorem init_frame_total_witness:
  "init_lines example_data = js_return example_state \<and> 0 \<le> cfg_flow_length (default_config 500 500)
   \<and> 0 < cfg_flow_length (default_config 500 500) + cfg_step_size (default_config 500 500)
   \<and> (\<exists>ops. draw_one_arrow (default_config 500 500) (Num 14) example_state
          = js_return (set_line_space (Num 14) example_state, ops))"
proof -
  have h: "init_lines example_data = js_return example_state" "0 \<le> cfg_flow_length (default_config 500 500)"
    "0 < cfg_flow_length (default_config 500 500) + cfg_step_size (default_config 500 500)"
    using example_init by (simp_all add: default_config_def)
  from h Flow_Render.init_frame_total [OF h] show ?thesis by blast
qed
subsection \<open>The scheduler on the test connection\<close>

lemmas frame_eval = draw_one_arrow_def set_line_space_def set_space_def line_img_split_of_def render_line_def
     is_draw_flow_of_def render_split_def split_line_space_def js_trunc_def arrow_loop_num_def arrow_loop_unfold
     draw_arrow_def stroke_span_ok flow_color_of_def flow_width_of_def flow_line_cap_of_def default_config_def
     Let_def seg_dist_def advance_counter_def js_rem_nonneg canvas_run_def canvas_apply_def opt_default_def
     js_num_of_null_def js_num_of_def draw_frame_def request_animation_frame_def cancel_animation_frame_def
     frame_due_def

lemmas jest_eval = comb_line_eval jest_data_def example_eval project_split_def from_pixel_of_def
     get_screen_def path_point_def reference_point_def js_round_def get_angle_def js_atan_div_def Let_def

lemma jest_draw_line: "draw_line jest_data = js_return jest_line_ops"
  by (simp add: draw_line_def draw_line_obj_def jest_data_def example_eval arrow_head_def opt_default_def Let_def
      jest_line_ops_def)

lemma jest_draw_image: "draw_image (\<lambda>t. 30) [jest_image 200, jest_image 400] = js_return
   (jest_label_ops, [DrawImage ''marker.png'' 200 200 21 16, DrawImage ''marker.png'' 400 200 21 16])"
  by (simp add: draw_image_def draw_image_obj_def jest_image_def text_option_of_def empty_style_def label_pos_def
      opt_default_def Let_def jest_label_ops_def)

lemma jest_construct: "construct 500 500 (\<lambda>t. 30) [jest_image 200, jest_image 400] jest_data = js_return jest_start"
  by (simp add: construct_def init_lines_eq [OF jest_presets] jest_start_def)

lemma jest_draw_static: "draw cfg t jest_start = draw_flow cfg t jest_drawn"
proof -
  have l: "draw_line (ss_lines jest_start) = js_return jest_line_ops"
    by (simp add: jest_start_def jest_eval draw_line_def draw_line_obj_def arrow_head_def opt_default_def Let_def
        jest_line_ops_def)
  have i: "draw_image (ss_text_width jest_start) (ss_img_data jest_start) = js_return
      (jest_label_ops, [DrawImage ''marker.png'' 200 200 21 16, DrawImage ''marker.png'' 400 200 21 16])"
    using jest_draw_image by (simp add: jest_start_def)
  have c: "canvas_run 500 500 (canvas_run 500 500 [] jest_label_ops) jest_line_ops = jest_label_ops @ jest_line_ops"
    by (simp add: canvas_run_def canvas_apply_def jest_label_ops_def jest_line_ops_def)
  show ?thesis
    using i l c by (simp add: draw_def Let_def jest_drawn_def) (simp add: jest_start_def)
qed

lemma jest_reachable: "sched_reachable cfg jest_start"
  by (rule sched_reachable.init [OF jest_construct])

lemma jest_draw_flow: "draw_flow (default_config 500 500) 1000 jest_drawn = Some jest_running"
proof -
  have "draw_flow (default_config 500 500) 1000 jest_drawn \<noteq> None"
    by (simp add: draw_flow_def jest_drawn_def jest_start_def jest_eval frame_eval)
  then show ?thesis by (auto simp: jest_running_def)
qed

lemma jest_running_fields:
  "ss_pending jest_running = [(1, 0)]" "ss_last_time jest_running = [1000]" "ss_clock jest_running = 1000"
  "ss_arrow_animation jest_running = Some 1"
  using draw_frame_cases [OF jest_draw_flow [unfolded draw_flow_def]]
  by (simp_all add: jest_drawn_def jest_start_def frame_due_def default_config_def)

lemma jest_draw: "draw (default_config 500 500) 1000 jest_start = Some jest_running"
  by (simp add: jest_draw_static jest_draw_flow)

lemma jest_running_reachable: "sched_reachable (default_config 500 500) jest_running"
  by (rule sched_reachable.step [OF jest_reachable _ jest_draw [folded sched_apply.simps]]) (simp add: jest_start_def)

lemma jest_running_reachable1: "sched_reachable1 (default_config 500 500) jest_running"
  by (rule sched_reachable1.step [OF sched_reachable1.init [OF jest_construct] _ _ jest_draw [folded sched_apply.simps]])
     (simp_all add: jest_start_def)

subsection \<open>Witnesses of the scheduler\<close>

theorem sched_double_draw_keeps_running_witness:
  "sched_reachable (default_config 500 500) jest_running
   \<and> 0 \<le> cfg_flow_length (default_config 500 500)
   \<and> 0 < cfg_step_size (default_config 500 500) + cfg_flow_length (default_config 500 500)
   \<and> ss_clock jest_running \<le> 1500 \<and> (1, 0) \<in> set (ss_pending jest_running)
   \<and> draw_image (ss_text_width jest_running) (ss_img_data jest_running) = js_return
       (jest_label_ops, [DrawImage ''marker.png'' 200 200 21 16, DrawImage ''marker.png'' 400 200 21 16])
   \<and> draw_line (ss_lines jest_running) = js_return jest_line_ops
   \<and> (\<exists>s1. draw (default_config 500 500) 1500 jest_running = Some s1
       \<and> (1, 0) \<in> set (ss_pending (clear (default_config 500 500) s1))
       \<and> ss_arrow_animation (clear (default_config 500 500) s1) = None
       \<and> (\<exists>s2. fire (default_config 500 500) 1 2000 (clear (default_config 500 500) s1) = Some s2
              \<and> ss_arrow_animation s2 = Some (ss_next_handle (clear (default_config 500 500) s1))
              \<and> (ss_next_handle (clear (default_config 500 500) s1), 0) \<in> set (ss_pending s2)))"
proof -
  let ?c = "default_config 500 500"
  note df = jest_draw_flow [unfolded draw_flow_def]
  have st: "ss_img_data jest_running = [jest_image 200, jest_image 400]" "ss_text_width jest_running = (\<lambda>t. 30)"
    using draw_frame_static [OF df] by (simp_all add: jest_drawn_def jest_start_def)
  have ln: "ss_lines jest_running = set_line_space (Num 1) (ss_lines jest_start)"
    using draw_frame_cases [OF df]
    by (auto simp: jest_drawn_def jest_start_def default_config_def frame_due_def advance_counter_def js_rem_nonneg js_trunc_def)
  have h: "sched_reachable ?c jest_running" "0 \<le> cfg_flow_length ?c" "0 < cfg_step_size ?c + cfg_flow_length ?c"
    "ss_clock jest_running \<le> 1500" "(1, 0) \<in> set (ss_pending jest_running)"
    "draw_image (ss_text_width jest_running) (ss_img_data jest_running) = js_return
       (jest_label_ops, [DrawImage ''marker.png'' 200 200 21 16, DrawImage ''marker.png'' 400 200 21 16])"
    "draw_line (ss_lines jest_running) = js_return jest_line_ops"
    by (fact jest_running_reachable) (simp_all add: default_config_def jest_running_fields st jest_draw_image ln
        jest_start_def jest_eval frame_eval draw_line_def draw_line_obj_def arrow_head_def jest_line_ops_def)
  from h Scheduler.sched_double_draw_keeps_running [OF h, of 2000] show ?thesis by blast
qed

theorem sched_clear_before_images_load_witness:
  "draw_image (ss_text_width jest_start) (ss_img_data jest_start) = js_return
       (jest_label_ops, [DrawImage ''marker.png'' 200 200 21 16, DrawImage ''marker.png'' 400 200 21 16])
   \<and> ss_img_data jest_start = jest_image 200 # [jest_image 400] \<and> ss_image_loads jest_start = []
   \<and> draw (default_config 500 500) 1000 jest_start = Some jest_running
   \<and> ss_canvas (clear (default_config 500 500) jest_running) = []
   \<and> ss_flow_canvas (clear (default_config 500 500) jest_running) = []
   \<and> ss_canvas (image_load (clear (default_config 500 500) jest_running)) = [DrawImage ''marker.png'' 200 200 21 16]
   \<and> length (ss_image_loads (image_load (clear (default_config 500 500) jest_running))) = 1"
proof -
  have h: "draw_image (ss_text_width jest_start) (ss_img_data jest_start) = js_return
       (jest_label_ops, [DrawImage ''marker.png'' 200 200 21 16, DrawImage ''marker.png'' 400 200 21 16])"
    "ss_img_data jest_start = jest_image 200 # [jest_image 400]" "ss_image_loads jest_start = []"
    by (simp_all add: jest_start_def jest_draw_image)
  have d: "draw (default_config 500 500) 1000 jest_start = Some jest_running" by (rule jest_draw)
  from h d Scheduler.sched_clear_before_images_load [OF h d] show ?thesis
    by (simp add: jest_image_def)
qed

theorem sched_counter_cycle_witness:
  "cfg_step_size (default_config 500 500) + cfg_flow_length (default_config 500 500) = of_nat 80 \<and> (0::nat) < 80
   \<and> (advance_counter (default_config 500 500) ^^ 83) (Num 0) = Num 3"
proof -
  have h: "cfg_step_size (default_config 500 500) + cfg_flow_length (default_config 500 500) = of_nat 80" "(0::nat) < 80"
    by (simp_all add: default_config_def)
  from h Scheduler.sched_counter_cycle [OF h, of 83] show ?thesis by simp
qed

theorem sched_counter_bounds_witness:
  "0 < cfg_step_size (default_config 500 500) + cfg_flow_length (default_config 500 500)
   \<and> sched_reachable (default_config 500 500) jest_running
   \<and> (\<exists>r. ss_arrow_run_px jest_running = Num r \<and> 0 \<le> r
          \<and> r < cfg_step_size (default_config 500 500) + cfg_flow_length (default_config 500 500))"
proof -
  have h: "0 < cfg_step_size (default_config 500 500) + cfg_flow_length (default_config 500 500)"
    by (simp add: default_config_def)
  from h jest_running_reachable Scheduler.sched_counter_bounds [OF h jest_running_reachable] show ?thesis by blast
qed

theorem clear_stops_single_loop_witness:
  "sched_reachable1 (default_config 500 500) jest_running
   \<and> ss_pending (clear (default_config 500 500) jest_running) = []
   \<and> ss_arrow_animation (clear (default_config 500 500) jest_running) = None
   \<and> ss_canvas (clear (default_config 500 500) jest_running) = []
   \<and> ss_flow_canvas (clear (default_config 500 500) jest_running) = []
   \<and> (\<forall>h t. fire (default_config 500 500) h t (clear (default_config 500 500) jest_running)
             = Some (clear (default_config 500 500) jest_running))"
  using jest_running_reachable1 Scheduler.clear_stops_single_loop [OF jest_running_reachable1] by (rule conjI)

theorem sched_fps_zero_never_draws_witness:
  "cfg_fps ((default_config 500 500)\<lparr>cfg_fps := 0\<rparr>) = 0
   \<and> sched_reachable ((default_config 500 500)\<lparr>cfg_fps := 0\<rparr>)
       (the (draw_flow ((default_config 500 500)\<lparr>cfg_fps := 0\<rparr>) 1000 jest_drawn))
   \<and> ss_arrow_run_px (the (draw_flow ((default_config 500 500)\<lparr>cfg_fps := 0\<rparr>) 1000 jest_drawn)) = Num 0
   \<and> ss_flow_canvas (the (draw_flow ((default_config 500 500)\<lparr>cfg_fps := 0\<rparr>) 1000 jest_drawn)) = []"
proof -
  let ?c = "(default_config 500 500)\<lparr>cfg_fps := 0\<rparr>"
  have d: "draw_flow ?c 1000 jest_drawn = Some (the (draw_flow ?c 1000 jest_drawn))"
    by (simp add: draw_flow_def draw_frame_def request_animation_frame_def frame_due_def default_config_def
        jest_drawn_def jest_start_def)
  then have d': "sched_apply ?c jest_start (Draw 1000) = Some (the (draw_flow ?c 1000 jest_drawn))"
    by (simp add: jest_draw_static)
  have h: "cfg_fps ?c = 0" "sched_reachable ?c (the (draw_flow ?c 1000 jest_drawn))"
    by (simp add: default_config_def)
       (rule sched_reachable.step [OF jest_reachable _ d'], simp add: jest_start_def)
  from h Scheduler.sched_fps_zero_never_draws [OF h] show ?thesis by blast
qed

theorem sched_step_throttled_witness:
  "sched_reachable (default_config 500 500) jest_running
   \<and> 0 < cfg_step_size (default_config 500 500) + cfg_flow_length (default_config 500 500)
   \<and> 0 < cfg_fps (default_config 500 500)
   \<and> sched_apply (default_config 500 500) jest_running (Fire 1 1010)
       = Some (the (sched_apply (default_config 500 500) jest_running (Fire 1 1010)))
   \<and> 0 < length (ss_last_time jest_running)
   \<and> (ss_last_time (the (sched_apply (default_config 500 500) jest_running (Fire 1 1010))) ! 0 = ss_last_time jest_running ! 0
      \<or> ss_last_time (the (sched_apply (default_config 500 500) jest_running (Fire 1 1010))) ! 0
            = event_time jest_running (Fire 1 1010)
          \<and> ss_last_time jest_running ! 0 + 1000 / cfg_fps (default_config 500 500) \<le> event_time jest_running (Fire 1 1010))"
proof -
  let ?c = "default_config 500 500"
  have h: "sched_reachable ?c jest_running" "0 < cfg_step_size ?c + cfg_flow_length ?c" "0 < cfg_fps ?c"
    "sched_apply ?c jest_running (Fire 1 1010) = Some (the (sched_apply ?c jest_running (Fire 1 1010)))"
    by (fact jest_running_reachable)
       (simp_all add: default_config_def fire_def jest_running_fields draw_frame_def request_animation_frame_def
        frame_due_def)
  have l: "0 < length (ss_last_time jest_running)" by (simp add: jest_running_fields)
  from h l Scheduler.sched_step_throttled [OF h] show ?thesis by blast
qed

theorem sched_running_renders_witness:
  "sched_reachable (default_config 500 500) jest_running \<and> 0 < cfg_fps (default_config 500 500)
   \<and> 0 \<le> cfg_flow_length (default_config 500 500)
   \<and> 0 < cfg_step_size (default_config 500 500) + cfg_flow_length (default_config 500 500)
   \<and> (1, 0) \<in> set (ss_pending jest_running)
   \<and> ss_last_time jest_running ! 0 + 1000 / cfg_fps (default_config 500 500) \<le> 2000
   \<and> (\<exists>s'. fire (default_config 500 500) 1 2000 jest_running = Some s'
        \<and> ss_arrow_run_px s' = advance_counter (default_config 500 500) (ss_arrow_run_px jest_running)
        \<and> ss_last_time s' = (ss_last_time jest_running)[0 := 2000]
        \<and> (\<exists>ops. draw_one_arrow (default_config 500 500) (advance_counter (default_config 500 500)
                (ss_arrow_run_px jest_running)) (ss_lines jest_running) = js_return (ss_lines s', ops)
             \<and> ss_flow_canvas s' = canvas_run (cfg_flow_w (default_config 500 500)) (cfg_flow_h (default_config 500 500))
                 (ss_flow_canvas jest_running) ops)
        \<and> ss_errors s' = ss_errors jest_running \<and> (ss_next_handle jest_running, 0) \<in> set (ss_pending s'))"
proof -
  let ?c = "default_config 500 500"
  have h: "sched_reachable ?c jest_running" "0 < cfg_fps ?c" "0 \<le> cfg_flow_length ?c"
    "0 < cfg_step_size ?c + cfg_flow_length ?c" "(1, 0) \<in> set (ss_pending jest_running)"
    "ss_last_time jest_running ! 0 + 1000 / cfg_fps ?c \<le> 2000"
    by (fact jest_running_reachable) (simp_all add: default_config_def jest_running_fields)
  from h Scheduler.sched_running_renders [OF h] show ?thesis by blast
qed

subsection \<open>The save stack across the program\<close>

text \<open>
  C8: every command list the program issues on a canvas keeps \<open>save\<close> and
  \<open>restore\<close> balanced: \<open>drawLine\<close>, the immediate part of \<open>drawImage\<close>, and
  every frame of \<open>drawOneArrow\<close>, so no frame leaks a translation or rotation
  into the next.
\<close>

theorem canvas_output_balanced:
  "(draw_line L = js_return ops \<longrightarrow> balanced ops)
   \<and> (draw_image m imgs = js_return (ops', loads) \<longrightarrow> balanced ops')
   \<and> (draw_one_arrow cfg px L' = js_return (L'', fops) \<longrightarrow> balanced fops)"
  using draw_line_balanced draw_image_balanced draw_one_arrow_balanced by blast

subsection \<open>Witnesses of the drawing properties\<close>

lemma jest_frame: "draw_one_arrow (default_config 500 500) (Num 14) (ss_lines jest_start) =
   js_return (set_line_space (Num 14) (ss_lines jest_start),
     [ClearRect 0 0 500 500, Save, Translate 200 200, Rotate (Num 0), SetLineWidth 3, SetLineCap ''round'',
      BeginPath, SetStrokeStyle (Gradient (LinearGradient 0 0 20 0 (comet_stops 20 [255, 255, 255]))),
      MoveTo 0 0, LineTo 20 0, Stroke,
      BeginPath, SetStrokeStyle (Gradient (LinearGradient 80 0 100 0 (comet_stops 20 [255, 255, 255]))),
      MoveTo 80 0, LineTo 100 0, Stroke,
      BeginPath, SetStrokeStyle (Gradient (LinearGradient 160 0 180 0 (comet_stops 20 [255, 255, 255]))),
      MoveTo 160 0, LineTo 180 0, Stroke, Restore])"
  apply (simp add: jest_start_def jest_eval)
  apply (simp add: frame_eval js_simps)
  done

theorem canvas_output_balanced_witness:
  "draw_line jest_data = js_return jest_line_ops \<and> balanced jest_line_ops
   \<and> draw_image (\<lambda>t. 30) [jest_image 200, jest_image 400] = js_return
       (jest_label_ops, [DrawImage ''marker.png'' 200 200 21 16, DrawImage ''marker.png'' 400 200 21 16])
   \<and> balanced jest_label_ops
   \<and> draw_one_arrow (default_config 500 500) (Num 14) (ss_lines jest_start) =
   js_return (set_line_space (Num 14) (ss_lines jest_start),
     [ClearRect 0 0 500 500, Save, Translate 200 200, Rotate (Num 0), SetLineWidth 3, SetLineCap ''round'',
      BeginPath, SetStrokeStyle (Gradient (LinearGradient 0 0 20 0 (comet_stops 20 [255, 255, 255]))),
      MoveTo 0 0, LineTo 20 0, Stroke,
      BeginPath, SetStrokeStyle (Gradient (LinearGradient 80 0 100 0 (comet_stops 20 [255, 255, 255]))),
      MoveTo 80 0, LineTo 100 0, Stroke,
      BeginPath, SetStrokeStyle (Gradient (LinearGradient 160 0 180 0 (comet_stops 20 [255, 255, 255]))),
      MoveTo 160 0, LineTo 180 0, Stroke, Restore])
   \<and> balanced
     [ClearRect 0 0 500 500, Save, Translate 200 200, Rotate (Num 0), SetLineWidth 3, SetLineCap ''round'',
      BeginPath, SetStrokeStyle (Gradient (LinearGradient 0 0 20 0 (comet_stops 20 [255, 255, 255]))),
      MoveTo 0 0, LineTo 20 0, Stroke,
      BeginPath, SetStrokeStyle (Gradient (LinearGradient 80 0 100 0 (comet_stops 20 [255, 255, 255]))),
      MoveTo 80 0, LineTo 100 0, Stroke,
      BeginPath, SetStrokeStyle (Gradient (LinearGradient 160 0 180 0 (comet_stops 20 [255, 255, 255]))),
      MoveTo 160 0, LineTo 180 0, Stroke, Restore]"
  using canvas_output_balanced [of jest_data _ "\<lambda>t. 30" "[jest_image 200, jest_image 400]" _ _
      "default_config 500 500" "Num 14" "ss_lines jest_start"]
    jest_draw_line jest_draw_image jest_frame
  by blast

theorem arrow_head_shape_witness:
  "dir_vec ''right'' = Some (1, 0) \<and> (1::real) \<le> 3 \<and> (3::real) \<le> 8
   \<and> path_closed (arrow_head ''right'' \<lparr>cx = 400, cy = 200\<rparr> 6 8 3)
   \<and> list_all (\<lambda>(x, y). x - 403 \<le> 0 \<and> \<bar>x - 403\<bar> \<le> 8 \<and> \<bar>y - 200\<bar> \<le> 8)
       (concat (map op_points (arrow_head ''right'' \<lparr>cx = 400, cy = 200\<rparr> 6 8 3)))
   \<and> (403, 200) \<in> set (concat (map op_points (arrow_head ''right'' \<lparr>cx = 400, cy = 200\<rparr> 6 8 3)))"
proof -
  have h: "dir_vec ''right'' = Some (1, 0)" "(1::real) \<le> 3" "(3::real) \<le> 8" by (simp_all add: dir_vec_def)
  have o: "arrow_origin \<lparr>cx = 400, cy = 200\<rparr> 6 (1, 0) = \<lparr>cx = 403, cy = 200\<rparr>" by (simp add: arrow_origin_def)
  from h Static_Draw.arrow_head_shape [OF h, of "\<lparr>cx = 400, cy = 200\<rparr>" 6] show ?thesis
    by (simp add: o list_all_iff)
qed

theorem draw_line_throws_witness:
  "draw_line [example_line []] = js_throw TypeError \<and> points (example_line []) = []
   \<and> list_all (\<lambda>l. points l \<noteq> []) jest_data \<and> (\<exists>ops. draw_line jest_data = js_return ops)"
proof -
  have h: "points (example_line []) = []" "list_all (\<lambda>l. points l \<noteq> []) jest_data"
    by (simp_all add: example_eval jest_data_def)
  from h Static_Draw.draw_line_throws [of "[example_line []]"] Static_Draw.draw_line_throws [of jest_data]
  show ?thesis by (auto simp: list_all_iff)
qed

theorem draw_image_throws_witness:
  "to_show (text_option_of (jest_image 200\<lparr>img_text_option := Some \<lparr>to_text = Some ''label'', to_show = Some True, to_style = None\<rparr>\<rparr>)) = Some True
   \<and> to_style (text_option_of (jest_image 200\<lparr>img_text_option := Some \<lparr>to_text = Some ''label'', to_show = Some True, to_style = None\<rparr>\<rparr>)) = None
   \<and> draw_image (\<lambda>t. 30) [jest_image 200\<lparr>img_text_option := Some \<lparr>to_text = Some ''label'', to_show = Some True, to_style = None\<rparr>\<rparr>]
       = js_throw TypeError"
proof -
  have h: "to_show (text_option_of (jest_image 200\<lparr>img_text_option := Some \<lparr>to_text = Some ''label'', to_show = Some True, to_style = None\<rparr>\<rparr>)) = Some True"
    "to_style (text_option_of (jest_image 200\<lparr>img_text_option := Some \<lparr>to_text = Some ''label'', to_show = Some True, to_style = None\<rparr>\<rparr>)) = None"
    by (simp_all add: text_option_of_def opt_default_def)
  from h Static_Draw.draw_image_throws [of "\<lambda>t. 30" "[jest_image 200\<lparr>img_text_option := Some \<lparr>to_text = Some ''label'', to_show = Some True, to_style = None\<rparr>\<rparr>]"]
  show ?thesis by auto
qed

theorem draw_image_label_sides_witness:
  "img_text_option (jest_image 200) = Some \<lparr>to_text = Some ''label'', to_show = Some True,
       to_style = Some (empty_style\<lparr>ts_font_weight := Some ''600'', ts_position := Some ''bottom''\<rparr>)\<rparr>
   \<and> (\<exists>fx fy. draw_image_obj (\<lambda>t. 30) (jest_image 200) = js_return
      ([SetFont ''600'' 13 default_font_family, SetFillStyle (Color ''#666''), FillText ''label'' fx fy],
       DrawImage ''marker.png'' 200 200 21 16)
    \<and> fy - (200 + 16) = 5 + 13 \<and> fx + 30 / 2 = 200 + 21 / 2)"
proof -
  have h: "img_text_option (jest_image 200) = Some \<lparr>to_text = Some ''label'', to_show = Some True,
       to_style = Some (empty_style\<lparr>ts_font_weight := Some ''600'', ts_position := Some ''bottom''\<rparr>)\<rparr>"
    by (simp add: jest_image_def)
  from h Static_Draw.draw_image_label_sides [OF h, of "\<lambda>t. 30"] show ?thesis
    by (simp add: jest_image_def empty_style_def opt_default_def)
qed
end
